(* ===== verification/Go_Prelude.thy ===== *)
theory Go_Prelude
  imports Main "HOL-Library.Word" "HOL-Library.Char_ord" "HOL-Library.List_Lexorder"
begin

text \<open>
  Shared vocabulary of the development: Go error values, the outcome of a fallible call,
  the string functions of the Go standard library that several components use, and the
  generic lemmas on maps and finite sets that carry the component proofs.
\<close>

named_theorems outcome_simps \<open>equations that evaluate the outcome of a fallible call\<close>

named_theorems go_string_simps \<open>equations of the modelled string functions\<close>

section \<open>Error values\<close>

text \<open>
  The error classes are the interfaces of \<open>errdefs/defs.go\<close>.  A Go error value is one of:
  a message made on the spot (\<open>errors.New\<close>, \<open>fmt.Errorf\<close>); a package-level error variable,
  which code compares by identity; a value of a named string type that implements one of
  the \<open>errdefs\<close> interfaces; an \<open>errdefs\<close> wrapper around another error; the wrappers of
  \<open>github.com/pkg/errors\<close>; a gRPC status error, of which only the code is read; and the error
  number of a system call, which is also what the functions of the kernel module return.
\<close>

datatype err_class =
    NotFound | InvalidParameter | Conflict | Unauthorized | Unavailable | Forbidden | System
  | NotModified | AlreadyExists | NotImplemented | Unknown | Cancelled | DeadlineExceeded
  | DataLoss

datatype go_error =
    Errorf string
  | Sentinel string
  | Typed err_class string
  | ErrClass err_class go_error
  | Wrap string go_error
  | WithStack go_error
  | GrpcStatus nat string
  | Errno int

primrec err_string :: "go_error \<Rightarrow> string" where
  "err_string (Errorf s) = s"
| "err_string (Sentinel s) = s"
| "err_string (Typed c s) = s"
| "err_string (ErrClass c e) = err_string e"
| "err_string (Wrap m e) = m @ '': '' @ err_string e"
| "err_string (WithStack e) = err_string e"
| "err_string (GrpcStatus c s) = s"
| "err_string (Errno n) = ''errno''"

section \<open>Outcomes\<close>

text \<open>A call returns a value, returns an error, or panics.\<close>

datatype 'a outcome = Ok 'a | Err go_error | Panic string

primrec is_panic :: "'a outcome \<Rightarrow> bool" where
  "is_panic (Ok a) = False"
| "is_panic (Err e) = False"
| "is_panic (Panic m) = True"

primrec is_ok :: "'a outcome \<Rightarrow> bool" where
  "is_ok (Ok a) = True"
| "is_ok (Err e) = False"
| "is_ok (Panic m) = False"

lemma is_ok_iff: "is_ok r \<longleftrightarrow> (\<exists>a. r = Ok a)"
  by (cases r) auto

lemma not_panic_iff: "\<not> is_panic r \<longleftrightarrow> (\<exists>a. r = Ok a) \<or> (\<exists>e. r = Err e)"
  by (cases r) auto

section \<open>Sequences of fallible statements\<close>

text \<open>
  A statement \<open>if err := f(); err != nil { return err }\<close> over a state: it yields the error,
  if there is one, and the state it leaves behind.  \<open>steps\<close> runs statements in order and
  stops at the first error, keeping the state changes made so far.
\<close>

type_synonym 's stmt = "'s \<Rightarrow> go_error option \<times> 's"

definition skip :: "'s stmt" where
  "skip s = (None, s)"

definition seqE :: "'s stmt \<Rightarrow> 's stmt \<Rightarrow> 's stmt" where
  "seqE f g s = (case f s of (Some e, s') \<Rightarrow> (Some e, s') | (None, s') \<Rightarrow> g s')"

definition steps :: "'s stmt list \<Rightarrow> 's stmt" where
  "steps fs = foldr seqE fs skip"

lemma steps_Nil [simp]: "steps [] s = (None, s)"
  by (simp add: steps_def skip_def)

lemma steps_Cons [simp]:
  "steps (f # fs) s = (case f s of (Some e, s') \<Rightarrow> (Some e, s') | (None, s') \<Rightarrow> steps fs s')"
  unfolding steps_def by (simp add: seqE_def)

lemma skip_apply [simp]: "skip s = (None, s)"
  by (simp add: skip_def)

text \<open>An invariant of every statement is an invariant of the sequence.\<close>

lemma steps_invariant:
  assumes "\<And>f s. f \<in> set fs \<Longrightarrow> I s \<Longrightarrow> I (snd (f s))" and "I s"
  shows "I (snd (steps fs s))"
  using assms
proof (induction fs arbitrary: s)
  case Nil
  then show ?case by simp
next
  case (Cons f fs)
  have "I (snd (f s))" using Cons.prems by simp
  moreover have "I t \<Longrightarrow> I (snd (steps fs t))" for t using Cons by simp
  ultimately show ?case by (auto split: prod.splits option.splits)
qed

section \<open>Computations on a state\<close>

text \<open>
  Code that changes a state and may return an error or panic.  \<open>bindM\<close> is the usual
  \<open>x, err := m(); if err != nil { return err }\<close>: an error or a panic ends the computation and
  keeps the state reached.
\<close>

type_synonym ('s, 'a) M = "'s \<Rightarrow> 'a outcome \<times> 's"

definition ret :: "'a \<Rightarrow> ('s, 'a) M" where
  "ret a s = (Ok a, s)"

definition raise :: "go_error \<Rightarrow> ('s, 'a) M" where
  "raise e s = (Err e, s)"

definition panicM :: "string \<Rightarrow> ('s, 'a) M" where
  "panicM m s = (Panic m, s)"

definition liftE :: "go_error + 'a \<Rightarrow> ('s, 'a) M" where
  "liftE x = (case x of Inl e \<Rightarrow> raise e | Inr a \<Rightarrow> ret a)"

definition bindM :: "('s, 'a) M \<Rightarrow> ('a \<Rightarrow> ('s, 'b) M) \<Rightarrow> ('s, 'b) M" where
  "bindM m f s =
     (case m s of (Ok a, s') \<Rightarrow> f a s' | (Err e, s') \<Rightarrow> (Err e, s') | (Panic p, s') \<Rightarrow> (Panic p, s'))"

text \<open>Run a computation and look at its error, as \<open>if x, err := m(); err == nil\<close> does.\<close>

definition tryM :: "('s, 'a) M \<Rightarrow> ('s, 'a option) M" where
  "tryM m s =
     (case m s of (Ok a, s') \<Rightarrow> (Ok (Some a), s') | (Err e, s') \<Rightarrow> (Ok None, s') | (Panic p, s') \<Rightarrow> (Panic p, s'))"

definition getM :: "('s, 's) M" where
  "getM s = (Ok s, s)"

definition updM :: "('s \<Rightarrow> 's) \<Rightarrow> ('s, unit) M" where
  "updM f s = (Ok (), f s)"

definition fromStmt :: "'s stmt \<Rightarrow> ('s, unit) M" where
  "fromStmt f s = (case f s of (None, s') \<Rightarrow> (Ok (), s') | (Some e, s') \<Rightarrow> (Err e, s'))"

text \<open>Handle an error, and clean up after one.\<close>

definition catchM :: "('s, 'a) M \<Rightarrow> (go_error \<Rightarrow> ('s, 'a) M) \<Rightarrow> ('s, 'a) M" where
  "catchM m h s = (case m s of (Ok a, s') \<Rightarrow> (Ok a, s') | (Err e, s') \<Rightarrow> h e s' | (Panic p, s') \<Rightarrow> (Panic p, s'))"

definition onErr :: "('s, 'a) M \<Rightarrow> ('s, 'b) M \<Rightarrow> ('s, 'a) M" where
  "onErr m c = catchM m (\<lambda>e. bindM (tryM c) (\<lambda>_. raise e))"

text \<open>Run a computation and then a clean-up step whatever its outcome, short of a panic.\<close>

definition afterM :: "('s, 'a) M \<Rightarrow> ('s, 'b) M \<Rightarrow> ('s, 'a) M" where
  "afterM m c = bindM (catchM m (\<lambda>e. bindM (tryM c) (\<lambda>_. raise e))) (\<lambda>a. bindM (tryM c) (\<lambda>_. ret a))"

definition nilDeref :: "('s, 'a) M" where
  "nilDeref = panicM ''nil pointer dereference''"

lemmas M_defs = ret_def raise_def panicM_def liftE_def bindM_def tryM_def getM_def updM_def fromStmt_def

text \<open>
  A Hoare triple on computations: the precondition on the state before gives the
  postcondition on the outcome and the state after.
\<close>

definition valid :: "('s \<Rightarrow> bool) \<Rightarrow> ('s, 'a) M \<Rightarrow> ('a outcome \<Rightarrow> 's \<Rightarrow> bool) \<Rightarrow> bool" where
  "valid P m Q \<longleftrightarrow> (\<forall>s. P s \<longrightarrow> Q (fst (m s)) (snd (m s)))"

lemma validI: "(\<And>s r s'. P s \<Longrightarrow> m s = (r, s') \<Longrightarrow> Q r s') \<Longrightarrow> valid P m Q"
  by (simp add: valid_def)

lemma validD: "valid P m Q \<Longrightarrow> P s \<Longrightarrow> m s = (r, s') \<Longrightarrow> Q r s'"
  by (force simp: valid_def)

lemma valid_weaken: "valid P' m Q' \<Longrightarrow> (\<And>s. P s \<Longrightarrow> P' s) \<Longrightarrow> (\<And>r s. Q' r s \<Longrightarrow> Q r s) \<Longrightarrow> valid P m Q"
  by (auto simp: valid_def)

definition fails_with :: "('b outcome \<Rightarrow> 's \<Rightarrow> bool) \<Rightarrow> ('a \<Rightarrow> 's \<Rightarrow> bool) \<Rightarrow> 'a outcome \<Rightarrow> 's \<Rightarrow> bool" where
  "fails_with Q R r s = (case r of Ok a \<Rightarrow> R a s | Err e \<Rightarrow> Q (Err e) s | Panic p \<Rightarrow> Q (Panic p) s)"

lemma fails_with_simps [simp]:
  "fails_with Q R (Ok a) s = R a s" "fails_with Q R (Err e) s = Q (Err e) s"
  "fails_with Q R (Panic p) s = Q (Panic p) s"
  by (simp_all add: fails_with_def)

lemma valid_bind:
  assumes "valid P m (fails_with Q R)" "\<And>a. valid (R a) (f a) Q"
  shows "valid P (bindM m f) Q"
proof (rule validI)
  fix s r s' assume P: "P s" and run: "bindM m f s = (r, s')"
  obtain r1 s1 where m: "m s = (r1, s1)" by fastforce
  have Q1: "fails_with Q R r1 s1" using validD [OF assms(1) P m] .
  show "Q r s'"
  proof (cases r1)
    case (Ok a)
    then have "f a s1 = (r, s')" using run m by (simp add: bindM_def)
    then show ?thesis using validD [OF assms(2)] Q1 Ok by fastforce
  qed (use Q1 run m in \<open>auto simp: bindM_def\<close>)
qed

lemma bindM_Ok: "bindM m f s = (Ok b, s'') \<longleftrightarrow> (\<exists>a s'. m s = (Ok a, s') \<and> f a s' = (Ok b, s''))"
  by (auto simp: bindM_def split: prod.splits outcome.splits)

lemma bindM_step: "m s = (Ok a, s') \<Longrightarrow> bindM m f s = f a s'"
  by (simp add: bindM_def)

text \<open>An invariant kept by a computation whatever its outcome, and its composition rules.\<close>

definition keeps :: "('s \<Rightarrow> bool) \<Rightarrow> ('s, 'a) M \<Rightarrow> bool" where
  "keeps I m \<longleftrightarrow> (\<forall>s. I s \<longrightarrow> I (snd (m s)))"

named_theorems keeps_intro \<open>composition rules for preserved invariants\<close>

lemma keepsD: "keeps I m \<Longrightarrow> I s \<Longrightarrow> m s = (r, s') \<Longrightarrow> I s'"
  by (force simp: keeps_def)

lemma keepsI: "(\<And>s r s'. I s \<Longrightarrow> m s = (r, s') \<Longrightarrow> I s') \<Longrightarrow> keeps I m"
  unfolding keeps_def by (metis prod.collapse)

lemma keeps_basic [keeps_intro]: "keeps I (ret a)" "keeps I (raise e)" "keeps I (panicM p)" "keeps I (liftE x)" "keeps I getM"
  by (auto simp: keeps_def M_defs split: sum.splits)

lemma keeps_bind [keeps_intro]: "keeps I m \<Longrightarrow> (\<And>a. keeps I (f a)) \<Longrightarrow> keeps I (bindM m f)"
  by (auto simp: keeps_def bindM_def split: prod.splits outcome.splits)

lemma keeps_try [keeps_intro]: "keeps I m \<Longrightarrow> keeps I (tryM m)"
  by (auto simp: keeps_def tryM_def split: prod.splits outcome.splits)

lemma keeps_catch [keeps_intro]: "keeps I m \<Longrightarrow> (\<And>e. keeps I (h e)) \<Longrightarrow> keeps I (catchM m h)"
  by (auto simp: keeps_def catchM_def split: prod.splits outcome.splits)

lemma keeps_onErr [keeps_intro]: "keeps I m \<Longrightarrow> keeps I c \<Longrightarrow> keeps I (onErr m c)"
  unfolding onErr_def by (intro keeps_catch keeps_bind keeps_try keeps_basic)

lemma keeps_after [keeps_intro]: "keeps I m \<Longrightarrow> keeps I c \<Longrightarrow> keeps I (afterM m c)"
  unfolding afterM_def by (intro keeps_catch keeps_bind keeps_try keeps_basic)

lemma keeps_nilDeref [keeps_intro]: "keeps I nilDeref"
  unfolding nilDeref_def by (rule keeps_basic)

lemma keeps_if [keeps_intro]: "(b \<Longrightarrow> keeps I m) \<Longrightarrow> (\<not> b \<Longrightarrow> keeps I n) \<Longrightarrow> keeps I (if b then m else n)"
  by simp

lemma keeps_option [keeps_intro]:
  "(x = None \<Longrightarrow> keeps I m) \<Longrightarrow> (\<And>a. x = Some a \<Longrightarrow> keeps I (f a)) \<Longrightarrow> keeps I (case x of None \<Rightarrow> m | Some a \<Rightarrow> f a)"
  by (cases x) simp_all

lemma keeps_prod [keeps_intro]: "(\<And>a b. x = (a, b) \<Longrightarrow> keeps I (f a b)) \<Longrightarrow> keeps I (case x of (a, b) \<Rightarrow> f a b)"
  by (cases x) simp

lemma keeps_list [keeps_intro]:
  "keeps I m \<Longrightarrow> (\<And>y ys. keeps I (f y ys)) \<Longrightarrow> keeps I (case x of [] \<Rightarrow> m | y # ys \<Rightarrow> f y ys)"
  by (cases x) simp_all

lemma keeps_let [keeps_intro]: "keeps I (f x) \<Longrightarrow> keeps I (let y = x in f y)"
  by simp

lemma keeps_upd [keeps_intro]: "(\<And>s. I s \<Longrightarrow> I (f s)) \<Longrightarrow> keeps I (updM f)"
  by (simp add: keeps_def updM_def)

lemma valid_keeps: "keeps I m \<Longrightarrow> (\<And>r s. I s \<Longrightarrow> Q r s) \<Longrightarrow> valid I m Q"
  by (simp add: keeps_def valid_def)

lemma valid_bind_keeps:
  assumes "keeps I m" "\<And>r s. I s \<Longrightarrow> Q r s" "\<And>a. valid I (f a) Q"
  shows "valid I (bindM m f) Q"
  by (rule valid_bind [where R = "\<lambda>_. I"], rule valid_keeps [OF assms(1)])
    (use assms(2,3) in \<open>auto simp: fails_with_def split: outcome.splits\<close>)

lemma keeps_valid: "valid I m (\<lambda>_. I) \<Longrightarrow> keeps I m"
  by (simp add: keeps_def valid_def)

text \<open>Run a computation for each element of a list; the first error ends the loop.\<close>

fun forM :: "'a list \<Rightarrow> ('a \<Rightarrow> ('s, unit) M) \<Rightarrow> ('s, unit) M" where
  "forM [] f = ret ()"
| "forM (x # xs) f = bindM (f x) (\<lambda>_. forM xs f)"

lemma keeps_forM [keeps_intro]: "(\<And>x. x \<in> set xs \<Longrightarrow> keeps I (f x)) \<Longrightarrow> keeps I (forM xs f)"
  by (induction xs) (auto intro!: keeps_intro)

section \<open>Strings\<close>

text \<open>
  A Go string is a sequence of bytes, modelled as \<^typ>\<open>string\<close>.  Comparison of strings is
  bytewise lexicographic, which is the order of \<open>List_Lexorder\<close> over \<open>Char_ord\<close>.
\<close>

text \<open>\<open>strings.HasPrefix\<close>.\<close>

fun HasPrefix :: "string \<Rightarrow> string \<Rightarrow> bool" where
  "HasPrefix s [] = True"
| "HasPrefix [] (p # ps) = False"
| "HasPrefix (c # cs) (p # ps) = (c = p \<and> HasPrefix cs ps)"

lemma HasPrefix_iff: "HasPrefix s p \<longleftrightarrow> (\<exists>t. s = p @ t)"
  by (induction s p rule: HasPrefix.induct) auto

lemma HasPrefix_append [simp]: "HasPrefix (p @ t) p"
  by (simp add: HasPrefix_iff)

text \<open>
  \<open>strings.SplitN(s, sep, 2)\<close> for a one-character separator: the part before the first
  separator and, when there is one, the part after it.
\<close>

fun SplitN2 :: "char \<Rightarrow> string \<Rightarrow> string \<times> string option" where
  "SplitN2 c [] = ([], None)"
| "SplitN2 c (x # xs) =
     (if x = c then ([], Some xs) else apfst (Cons x) (SplitN2 c xs))"

lemma SplitN2_whole [simp]: "c \<notin> set a \<Longrightarrow> SplitN2 c a = (a, None)"
  by (induction a) auto

lemma SplitN2_join [simp]: "c \<notin> set a \<Longrightarrow> SplitN2 c (a @ c # b) = (a, Some b)"
  by (induction a) auto

lemma SplitN2_None: "SplitN2 c s = (a, None) \<longleftrightarrow> c \<notin> set s \<and> a = s"
proof (cases "c \<in> set s")
  case True
  then obtain u v where "s = u @ c # v" "c \<notin> set u" by (meson split_list_first)
  then show ?thesis by simp
qed auto

lemma SplitN2_Some: "SplitN2 c s = (a, Some b) \<longleftrightarrow> s = a @ c # b \<and> c \<notin> set a"
proof (cases "c \<in> set s")
  case True
  then obtain u v where s: "s = u @ c # v" "c \<notin> set u" by (meson split_list_first)
  show ?thesis
  proof
    assume "SplitN2 c s = (a, Some b)"
    with s show "s = a @ c # b \<and> c \<notin> set a" by simp
  qed simp
qed auto

text \<open>\<open>strings.TrimSpace\<close> on ASCII input: the white space of Go's \<open>unicode.IsSpace\<close> below 128.\<close>

definition IsSpace :: "char \<Rightarrow> bool" where
  "IsSpace c \<longleftrightarrow> c \<in> set [CHR 0x09, CHR 0x0A, CHR 0x0B, CHR 0x0C, CHR 0x0D, CHR '' '']"

definition TrimSpace :: "string \<Rightarrow> string" where
  "TrimSpace s = rev (dropWhile IsSpace (rev (dropWhile IsSpace s)))"

lemma dropWhile_none: "\<forall>c \<in> set t. \<not> P c \<Longrightarrow> dropWhile P t = t"
  by (cases t) auto

lemma TrimSpace_id: "\<forall>c \<in> set s. \<not> IsSpace c \<Longrightarrow> TrimSpace s = s"
  by (simp add: TrimSpace_def dropWhile_none)

text \<open>\<open>strings.ToLower\<close> on ASCII input.\<close>

definition ToLowerChar :: "char \<Rightarrow> char" where
  "ToLowerChar c =
     (let n = of_char c :: nat in if 65 \<le> n \<and> n \<le> 90 then char_of (n + 32) else c)"

definition ToLower :: "string \<Rightarrow> string" where
  "ToLower s = map ToLowerChar s"

section \<open>Decimal numbers\<close>

text \<open>\<open>fmt.Sprintf("%d", n)\<close> and \<open>strconv.ParseUint(s, 10, _)\<close> without the range check.\<close>

definition digit_char :: "nat \<Rightarrow> char" where
  "digit_char d = char_of (48 + d)"

definition char_digit :: "char \<Rightarrow> nat option" where
  "char_digit c =
     (let n = of_char c :: nat in if 48 \<le> n \<and> n \<le> 57 then Some (n - 48) else None)"

lemma char_digit_inverse [simp]: "d < 10 \<Longrightarrow> char_digit (digit_char d) = Some d"
  by (simp add: char_digit_def digit_char_def Let_def)

fun show_nat :: "nat \<Rightarrow> string" where
  "show_nat n =
     (if n < 10 then [digit_char n] else show_nat (n div 10) @ [digit_char (n mod 10)])"

declare show_nat.simps [simp del]

fun parse_digits :: "nat \<Rightarrow> string \<Rightarrow> nat option" where
  "parse_digits acc [] = Some acc"
| "parse_digits acc (c # cs) =
     (case char_digit c of None \<Rightarrow> None | Some d \<Rightarrow> parse_digits (10 * acc + d) cs)"

definition parse_nat :: "string \<Rightarrow> nat option" where
  "parse_nat s = (if s = [] then None else parse_digits 0 s)"

lemma show_nat_nonempty [simp]: "show_nat n \<noteq> []"
  by (subst show_nat.simps) simp

lemma parse_digits_append:
  "parse_digits acc (u @ v) =
     (case parse_digits acc u of None \<Rightarrow> None | Some a \<Rightarrow> parse_digits a v)"
  by (induction u arbitrary: acc) (auto split: option.splits)

lemma parse_digits_show_nat: "parse_digits 0 (show_nat n) = Some n"
proof (induction n rule: show_nat.induct)
  case (1 n)
  show ?case
  proof (cases "n < 10")
    case True
    then show ?thesis by (simp add: show_nat.simps [of n])
  next
    case False
    with "1" have "parse_digits 0 (show_nat (n div 10)) = Some (n div 10)" by simp
    with False show ?thesis by (simp add: show_nat.simps [of n] parse_digits_append)
  qed
qed

lemma parse_show_nat [simp]: "parse_nat (show_nat n) = Some n"
  by (simp add: parse_nat_def parse_digits_show_nat)

section \<open>Maps and finite sets\<close>

lemma card_Collect_insert:
  assumes "finite S" "a \<notin> S" "P a"
  shows "card {c \<in> insert a S. P c} = Suc (card {c \<in> S. P c})"
proof -
  have "{c \<in> insert a S. P c} = insert a {c \<in> S. P c}" using assms by auto
  with assms show ?thesis by simp
qed

lemma card_Collect_remove:
  assumes "finite S" "a \<in> S" "P a"
  shows "card {c \<in> S. P c} = Suc (card {c \<in> S - {a}. P c})"
proof -
  have "{c \<in> S. P c} = insert a {c \<in> S - {a}. P c}" using assms by auto
  with assms show ?thesis by simp
qed

lemma ran_map_del_inj:
  assumes "m k = Some v" and "\<And>k'. m k' = Some v \<Longrightarrow> k' = k"
  shows "ran (m(k := None)) = ran m - {v}"
proof (intro set_eqI iffI)
  fix x
  assume "x \<in> ran (m(k := None))"
  then obtain j where "j \<noteq> k" "m j = Some x" by (auto simp: ran_def split: if_splits)
  with assms(2) show "x \<in> ran m - {v}" by (auto simp: ran_def)
next
  fix x
  assume "x \<in> ran m - {v}"
  then obtain j where "m j = Some x" "x \<noteq> v" by (auto simp: ran_def)
  with assms(1) have "j \<noteq> k" by auto
  with \<open>m j = Some x\<close> show "x \<in> ran (m(k := None))" by (auto simp: ran_def)
qed

end
