(* ===== verification/Container_Config.thy ===== *)
theory Container_Config
  imports Go_Prelude
begin

text \<open>
  The portable container configuration (\<open>api/types/container/config.go\<close>) and the merge of a
  user configuration with the image's (\<open>daemon/commit.go\<close>), used when a container is created
  and when it is committed.
\<close>

section \<open>Configurations\<close>

record HealthConfig =
  hcTest :: "string list"
  hcInterval :: int
  hcTimeout :: int
  hcStartPeriod :: int
  hcRetries :: int

text \<open>
  A port set and the volumes are Go maps to the empty struct.  The code distinguishes a nil
  slice from an empty one only for \<open>Entrypoint\<close>, which is therefore an option.
\<close>

record Config =
  Hostname :: string
  Domainname :: string
  User :: string
  AttachStdin :: bool
  AttachStdout :: bool
  AttachStderr :: bool
  ExposedPorts :: "string set"
  Tty :: bool
  OpenStdin :: bool
  StdinOnce :: bool
  Env :: "string list"
  Cmd :: "string list"
  Healthcheck :: "HealthConfig option"
  ArgsEscaped :: bool
  cfgImage :: string
  Volumes :: "string set"
  WorkingDir :: string
  Entrypoint :: "string list option"
  NetworkDisabled :: bool
  MacAddress :: string
  OnBuild :: "string list"
  Labels :: "string \<rightharpoonup> string"
  StopSignal :: string
  StopTimeout :: "int option"
  Shell :: "string list"

definition empty_Config :: Config where
  "empty_Config =
     \<lparr>Hostname = '''', Domainname = '''', User = '''', AttachStdin = False, AttachStdout = False,
      AttachStderr = False, ExposedPorts = {}, Tty = False, OpenStdin = False, StdinOnce = False,
      Env = [], Cmd = [], Healthcheck = None, ArgsEscaped = False, cfgImage = '''', Volumes = {},
      WorkingDir = '''', Entrypoint = None, NetworkDisabled = False, MacAddress = '''', OnBuild = [],
      Labels = Map.empty, StopSignal = '''', StopTimeout = None, Shell = []\<rparr>"

section \<open>Merging\<close>

definition envKey :: "string \<Rightarrow> string" where
  "envKey e = fst (SplitN2 CHR ''='' e)"

text \<open>The loop over the image's environment; the inner loop sees what was appended before.\<close>

fun mergeEnv :: "string list \<Rightarrow> string list \<Rightarrow> string list" where
  "mergeEnv userEnv [] = userEnv"
| "mergeEnv userEnv (imageEnv # rest) =
     (if list_ex (\<lambda>u. envKey imageEnv = envKey u) userEnv then mergeEnv userEnv rest
      else mergeEnv (userEnv @ [imageEnv]) rest)"

definition mergeHealth :: "HealthConfig option \<Rightarrow> HealthConfig option \<Rightarrow> HealthConfig option" where
  "mergeHealth user img =
     (case img of
        None \<Rightarrow> user
      | Some i \<Rightarrow>
          (case user of
             None \<Rightarrow> Some i
           | Some u \<Rightarrow>
               Some \<lparr>hcTest = (if hcTest u = [] then hcTest i else hcTest u),
                     hcInterval = (if hcInterval u = 0 then hcInterval i else hcInterval u),
                     hcTimeout = (if hcTimeout u = 0 then hcTimeout i else hcTimeout u),
                     hcStartPeriod = (if hcStartPeriod u = 0 then hcStartPeriod i else hcStartPeriod u),
                     hcRetries = (if hcRetries u = 0 then hcRetries i else hcRetries u)\<rparr>))"

definition emptyEntrypoint :: "string list option \<Rightarrow> bool" where
  "emptyEntrypoint ep \<longleftrightarrow> ep = None \<or> ep = Some []"

definition merge :: "Config \<Rightarrow> Config \<Rightarrow> Config" where
  "merge userConf imageConf =
     userConf
      \<lparr>User := (if User userConf = '''' then User imageConf else User userConf),
       ExposedPorts := (if ExposedPorts userConf = {} then ExposedPorts imageConf
                        else ExposedPorts userConf \<union> ExposedPorts imageConf),
       Env := (if Env userConf = [] then Env imageConf else mergeEnv (Env userConf) (Env imageConf)),
       Labels := (\<lambda>l. case Labels userConf l of Some v \<Rightarrow> Some v | None \<Rightarrow> Labels imageConf l),
       Cmd := (if emptyEntrypoint (Entrypoint userConf) \<and> Cmd userConf = [] then Cmd imageConf
               else Cmd userConf),
       ArgsEscaped := (if emptyEntrypoint (Entrypoint userConf) \<and> Cmd userConf = [] then ArgsEscaped imageConf
                       else ArgsEscaped userConf),
       Entrypoint := (if Entrypoint userConf = None then Entrypoint imageConf else Entrypoint userConf),
       Healthcheck := mergeHealth (Healthcheck userConf) (Healthcheck imageConf),
       WorkingDir := (if WorkingDir userConf = '''' then WorkingDir imageConf else WorkingDir userConf),
       Volumes := (if Volumes userConf = {} then Volumes imageConf
                   else Volumes userConf \<union> Volumes imageConf),
       StopSignal := (if StopSignal userConf = '''' then StopSignal imageConf else StopSignal userConf)\<rparr>"

section \<open>The merged environment\<close>

text \<open>The value a variable has in an environment list: the first entry with that key.\<close>

definition envEntry :: "string list \<Rightarrow> string \<Rightarrow> string option" where
  "envEntry env k = find (\<lambda>e. envKey e = k) env"

lemma find_append: "find P (xs @ ys) = (case find P xs of None \<Rightarrow> find P ys | Some x \<Rightarrow> Some x)"
  by (induction xs) auto

lemma envEntry_None: "envEntry env k = None \<longleftrightarrow> k \<notin> envKey ` set env"
  by (auto simp: envEntry_def find_None_iff)

lemma list_ex_envKey: "list_ex (\<lambda>u. envKey e = envKey u) env \<longleftrightarrow> envEntry env (envKey e) \<noteq> None"
  by (auto simp: envEntry_None list_ex_iff)

lemma mergeEnv_entry:
  "envEntry (mergeEnv user img) k = (case envEntry user k of Some e \<Rightarrow> Some e | None \<Rightarrow> envEntry img k)"
proof (induction user img rule: mergeEnv.induct)
  case (1 user)
  then show ?case by (simp add: envEntry_def split: option.split)
next
  case (2 user e rest)
  show ?case
  proof (cases "list_ex (\<lambda>u. envKey e = envKey u) user")
    case True
    then have "envKey e = k \<Longrightarrow> envEntry user k \<noteq> None" using list_ex_envKey by blast
    with True 2(1) show ?thesis by (auto simp: envEntry_def split: option.splits)
  next
    case False
    then show ?thesis using 2(2)
      by (auto simp: envEntry_def find_append split: option.splits)
  qed
qed

lemma mergeEnv_prefix: "\<exists>added. mergeEnv user img = user @ added \<and> set added \<subseteq> set img"
proof (induction user img rule: mergeEnv.induct)
  case (2 user e rest)
  then show ?case by (cases "list_ex (\<lambda>u. envKey e = envKey u) user") force+
qed simp

lemma mergeEnv_id: "\<forall>e \<in> set img. envKey e \<in> envKey ` set user \<Longrightarrow> mergeEnv user img = user"
  by (induction user img rule: mergeEnv.induct) (auto simp: list_ex_iff)

lemma mergeEnv_keys: "envKey ` set (mergeEnv user img) = envKey ` set user \<union> envKey ` set img"
proof -
  have "k \<in> envKey ` set (mergeEnv user img) \<longleftrightarrow> k \<in> envKey ` set user \<union> envKey ` set img" for k
    using mergeEnv_entry [of user img k] envEntry_None [of "mergeEnv user img" k] envEntry_None [of user k]
      envEntry_None [of img k] by (auto split: option.splits)
  then show ?thesis by blast
qed

lemma mergeEnv_idem: "mergeEnv (mergeEnv user img) img = mergeEnv user img"
  by (rule mergeEnv_id) (simp add: mergeEnv_keys)

lemma mergeEnv_self: "mergeEnv env env = env"
  by (rule mergeEnv_id) simp

lemma mergeHealth_idem: "mergeHealth (mergeHealth u i) i = mergeHealth u i"
  by (auto simp: mergeHealth_def split: option.splits)

section \<open>Properties\<close>

text \<open>
  C30: In the merged configuration a variable has the user's entry if the user set it and the
  image's otherwise; no other variables appear, and the user's entries keep their positions.
\<close>

theorem merge_env:
  "envEntry (Env (merge user img)) k = (case envEntry (Env user) k of Some e \<Rightarrow> Some e | None \<Rightarrow> envEntry (Env img) k) \<and>
   (\<exists>added. Env (merge user img) = Env user @ added \<and> set added \<subseteq> set (Env img))"
  using mergeEnv_entry [of "Env user" "Env img" k] mergeEnv_prefix [of "Env user" "Env img"]
  by (auto simp: merge_def envEntry_def)

text \<open>
  Merging is idempotent: merging the image's configuration into an already merged one
  changes nothing, so committing and re-creating a container does not accumulate defaults.
\<close>

lemma merge_idempotent: "merge (merge user img) img = merge user img"
proof (rule Config.equality)
  show "Env (merge (merge user img) img) = Env (merge user img)"
  proof (cases "Env user = []")
    case True
    then show ?thesis by (simp add: merge_def mergeEnv_self)
  next
    case False
    moreover have "mergeEnv (Env user) (Env img) \<noteq> []"
      using mergeEnv_prefix [of "Env user" "Env img"] False by auto
    ultimately show ?thesis by (simp add: merge_def mergeEnv_idem)
  qed
  show "Labels (merge (merge user img) img) = Labels (merge user img)"
    by (simp add: merge_def fun_eq_iff split: option.split)
  show "Healthcheck (merge (merge user img) img) = Healthcheck (merge user img)"
    by (simp add: merge_def mergeHealth_idem)
qed (auto simp: merge_def emptyEntrypoint_def)

end
