(* ===== verification/Layer_Filestore.thy ===== *)
theory Layer_Filestore
  imports Go_Prelude
begin

text \<open>
  The on-disk metadata of the layer store (\<open>engine/layer/filestore.go\<close>).  A layer directory
  \<open>root/<algorithm>/<hex>\<close> is determined by the chain ID, so the store is a map from chain
  IDs to directories, and a directory a map from file names to contents; mount directories
  are keyed by the mount name.  Everything outside the repository (graph driver, operating
  system, digest and JSON packages, the random source) is a field of the record
  \<open>env\<close>, threaded through an abstract world so that each call may behave
  differently from the previous one.
\<close>

section \<open>The environment\<close>

record descriptor =
  dMediaType :: string
  dSize :: "64 word"
  dDigest :: string
  dURLs :: "string list"

definition empty_descriptor :: descriptor where
  "empty_descriptor = \<lparr>dMediaType = '''', dSize = 0, dDigest = '''', dURLs = []\<rparr>"

record createOpts =
  coMountLabel :: string
  coStorageOpt :: "string \<rightharpoonup> string"

text \<open>
  Graph driver operations take the driver's identifiers and return an optional error.
  \<open>os_op op path\<close> is the operating system's answer to a file operation.
\<close>

record 'w env =
  drv_Create :: "string \<Rightarrow> string \<Rightarrow> 'w \<Rightarrow> go_error option \<times> 'w"
  drv_CreateReadWrite :: "string \<Rightarrow> string \<Rightarrow> createOpts \<Rightarrow> 'w \<Rightarrow> go_error option \<times> 'w"
  drv_Remove :: "string \<Rightarrow> 'w \<Rightarrow> go_error option \<times> 'w"
  drv_ApplyDiff :: "string \<Rightarrow> string \<Rightarrow> string \<Rightarrow> 'w \<Rightarrow> (go_error + 64 word) \<times> 'w"
  drv_Get :: "string \<Rightarrow> string \<Rightarrow> 'w \<Rightarrow> (go_error + string) \<times> 'w"
  drv_Put :: "string \<Rightarrow> 'w \<Rightarrow> go_error option \<times> 'w"
  drv_Diff :: "string \<Rightarrow> string \<Rightarrow> 'w \<Rightarrow> (go_error + string) \<times> 'w"
  os_op :: "string \<Rightarrow> string \<Rightarrow> 'w \<Rightarrow> go_error option \<times> 'w"
  FromBytes :: "string \<Rightarrow> string"
  ParseDigest :: "string \<Rightarrow> go_error + string"
  json_descriptor :: "descriptor \<Rightarrow> string"
  unjson_descriptor :: "string \<Rightarrow> go_error + descriptor"
  GenerateRandomID :: "'w \<Rightarrow> string \<times> 'w"

text \<open>\<open>os.IsNotExist\<close> recognises the error of a missing file.\<close>

definition ErrNotExist :: go_error where
  "ErrNotExist = Sentinel ''file does not exist''"

text \<open>The value of \<open>runtime.GOOS\<close>: the platform-specific files modelled are the Linux ones.\<close>

definition GOOS :: string where
  "GOOS = ''linux''"

section \<open>Sizes as text\<close>

definition show_int64 :: "64 word \<Rightarrow> string" where
  "show_int64 x =
     (if sint x < 0 then CHR ''-'' # show_nat (nat (- sint x)) else show_nat (nat (sint x)))"

text \<open>\<open>strconv.ParseInt(s, 10, 64)\<close>: an optional sign, digits, and the range check.\<close>

definition parse_int64 :: "string \<Rightarrow> 64 word option" where
  "parse_int64 s =
     (let (neg, t) = (case s of c # cs \<Rightarrow> if c = CHR ''-'' then (True, cs)
                                          else if c = CHR ''+'' then (False, cs) else (False, s)
                              | [] \<Rightarrow> (False, []))
      in case parse_nat t of
           None \<Rightarrow> None
         | Some n \<Rightarrow> let i = (if neg then - int n else int n) in
             if - (2 ^ 63) \<le> i \<and> i < 2 ^ 63 then Some (word_of_int i) else None)"

lemma char_digit_sign: "char_digit CHR ''-'' = None" "char_digit CHR ''+'' = None"
  by (simp_all add: char_digit_def)

lemma show_nat_hd: "\<exists>c cs. show_nat n = c # cs \<and> c \<noteq> CHR ''-'' \<and> c \<noteq> CHR ''+''"
proof (cases "show_nat n")
  case Nil
  then show ?thesis by simp
next
  case (Cons c cs)
  have "parse_digits 0 (c # cs) = Some n"
    using parse_digits_show_nat [of n] Cons by simp
  then have "char_digit c \<noteq> None" by (auto split: option.splits)
  then have "c \<noteq> CHR ''-'' \<and> c \<noteq> CHR ''+''" using char_digit_sign by auto
  with Cons show ?thesis by simp
qed

lemma parse_show_int64 [simp]: "parse_int64 (show_int64 x) = Some x"
proof (cases "sint x < 0")
  case True
  have "- (2 ^ 63) \<le> sint x" using sint_ge [of x] by simp
  with True show ?thesis by (simp add: show_int64_def parse_int64_def Let_def)
next
  case False
  obtain c cs where *: "show_nat (nat (sint x)) = c # cs" "c \<noteq> CHR ''-''" "c \<noteq> CHR ''+''"
    using show_nat_hd by blast
  have "sint x < 2 ^ 63" using sint_lt [of x] by simp
  moreover have "parse_nat (c # cs) = Some (nat (sint x))" using * parse_show_nat by metis
  ultimately show ?thesis using False * by (simp add: show_int64_def parse_int64_def Let_def)
qed

section \<open>The metadata store\<close>

type_synonym dir = "string \<rightharpoonup> string"

record fileMetadataStore =
  layerDirs :: "string \<rightharpoonup> dir"
  mountDirs :: "string \<rightharpoonup> dir"

definition empty_fms :: fileMetadataStore where
  "empty_fms = \<lparr>layerDirs = Map.empty, mountDirs = Map.empty\<rparr>"

subsection \<open>Transactions\<close>

text \<open>
  A transaction collects files in a temporary directory (\<open>ioutils.AtomicWriteSet\<close>) that
  \<open>Commit\<close> renames to the layer's directory.  The state of the statements below is the
  transaction's directory together with the world.
\<close>

type_synonym 'w tx = "dir \<times> 'w"

definition StartTransaction :: "'w env \<Rightarrow> 'w stmt" where
  "StartTransaction E = steps [os_op E ''MkdirAll'' ''tmp'', os_op E ''TempDir'' ''tmp'']"

definition ws_WriteFile :: "'w env \<Rightarrow> string \<Rightarrow> string \<Rightarrow> 'w tx stmt" where
  "ws_WriteFile E fname content = (\<lambda>(d, w).
     case os_op E ''WriteFile'' fname w of
       (Some e, w') \<Rightarrow> (Some e, (d, w'))
     | (None, w') \<Rightarrow> (None, (d(fname \<mapsto> content), w')))"

definition SetSize :: "'w env \<Rightarrow> 64 word \<Rightarrow> 'w tx stmt" where
  "SetSize E sz = ws_WriteFile E ''size'' (show_int64 sz)"

definition SetParent :: "'w env \<Rightarrow> string \<Rightarrow> 'w tx stmt" where
  "SetParent E parent = ws_WriteFile E ''parent'' parent"

definition SetDiffID :: "'w env \<Rightarrow> string \<Rightarrow> 'w tx stmt" where
  "SetDiffID E diff = ws_WriteFile E ''diff'' diff"

definition SetCacheID :: "'w env \<Rightarrow> string \<Rightarrow> 'w tx stmt" where
  "SetCacheID E cacheID = ws_WriteFile E ''cache-id'' cacheID"

definition SetDescriptor :: "'w env \<Rightarrow> descriptor \<Rightarrow> 'w tx stmt" where
  "SetDescriptor E ref = ws_WriteFile E ''descriptor.json'' (json_descriptor E ref)"

text \<open>
  \<open>TarSplitWriter\<close> opens the file that will hold the tar-split records; its content is not
  read by the modelled code, so only the opening is kept.
\<close>

definition TarSplitWriter :: "'w env \<Rightarrow> 'w tx stmt" where
  "TarSplitWriter E = ws_WriteFile E ''tar-split.json.gz'' ''''"

text \<open>On Linux \<open>setOS\<close> writes nothing and \<open>getOS\<close> answers \<open>runtime.GOOS\<close>.\<close>

definition setOS :: "'w env \<Rightarrow> string \<Rightarrow> 'w tx stmt" where
  "setOS E os = skip"

definition getOS :: "string \<Rightarrow> string" where
  "getOS layer = GOOS"

text \<open>
  \<open>Commit\<close>: the rename fails when the operating system reports an error and when the target
  directory exists and is not empty.
\<close>

definition tx_Commit :: "'w env \<Rightarrow> string \<Rightarrow> dir \<Rightarrow> (fileMetadataStore \<times> 'w) stmt" where
  "tx_Commit E layer d = (\<lambda>(ms, w).
     case steps [os_op E ''MkdirAll'' layer, os_op E ''Rename'' layer] w of
       (Some e, w') \<Rightarrow> (Some e, (ms, w'))
     | (None, w') \<Rightarrow>
         (if layerDirs ms layer \<noteq> None \<and> layerDirs ms layer \<noteq> Some Map.empty
          then (Some (Errorf ''file exists''), (ms, w'))
          else (None, (ms\<lparr>layerDirs := (layerDirs ms)(layer \<mapsto> d)\<rparr>, w'))))"

definition tx_Cancel :: "'w env \<Rightarrow> 'w stmt" where
  "tx_Cancel E = os_op E ''RemoveAll'' ''tmp''"

subsection \<open>Reading back\<close>

definition ReadFile :: "'w env \<Rightarrow> dir option \<Rightarrow> string \<Rightarrow> 'w \<Rightarrow> (go_error + string) \<times> 'w" where
  "ReadFile E d fname w =
     (case os_op E ''ReadFile'' fname w of
        (Some e, w') \<Rightarrow> (Inl e, w')
      | (None, w') \<Rightarrow>
          (case d of
             None \<Rightarrow> (Inl ErrNotExist, w')
           | Some m \<Rightarrow> (case m fname of None \<Rightarrow> (Inl ErrNotExist, w') | Some c \<Rightarrow> (Inr c, w'))))"

definition GetSize ::
  "'w env \<Rightarrow> fileMetadataStore \<Rightarrow> string \<Rightarrow> 'w \<Rightarrow> (go_error + 64 word) \<times> 'w" where
  "GetSize E ms layer w =
     (case ReadFile E (layerDirs ms layer) ''size'' w of
        (Inl e, w') \<Rightarrow> (Inl e, w')
      | (Inr content, w') \<Rightarrow>
          (case parse_int64 content of
             None \<Rightarrow> (Inl (Errorf (''strconv.ParseInt: parsing '' @ content)), w')
           | Some sz \<Rightarrow> (Inr sz, w')))"

definition read_digest :: "'w env \<Rightarrow> dir option \<Rightarrow> string \<Rightarrow> 'w \<Rightarrow> (go_error + string) \<times> 'w" where
  "read_digest E d fname w =
     (case ReadFile E d fname w of
        (Inl e, w') \<Rightarrow> (Inl e, w')
      | (Inr content, w') \<Rightarrow> (ParseDigest E (TrimSpace content), w'))"

text \<open>A missing parent file means the layer has no parent; any other read error is returned.\<close>

definition digest_or_empty :: "'w env \<Rightarrow> dir option \<Rightarrow> string \<Rightarrow> 'w \<Rightarrow> (go_error + string) \<times> 'w" where
  "digest_or_empty E d fname w =
     (case ReadFile E d fname w of
        (Inl e, w') \<Rightarrow> if e = ErrNotExist then (Inr '''', w') else (Inl e, w')
      | (Inr content, w') \<Rightarrow> (ParseDigest E (TrimSpace content), w'))"

definition GetParent ::
  "'w env \<Rightarrow> fileMetadataStore \<Rightarrow> string \<Rightarrow> 'w \<Rightarrow> (go_error + string) \<times> 'w" where
  "GetParent E ms layer = digest_or_empty E (layerDirs ms layer) ''parent''"

definition GetDiffID ::
  "'w env \<Rightarrow> fileMetadataStore \<Rightarrow> string \<Rightarrow> 'w \<Rightarrow> (go_error + string) \<times> 'w" where
  "GetDiffID E ms layer = read_digest E (layerDirs ms layer) ''diff''"

definition GetCacheID ::
  "'w env \<Rightarrow> fileMetadataStore \<Rightarrow> string \<Rightarrow> 'w \<Rightarrow> (go_error + string) \<times> 'w" where
  "GetCacheID E ms layer w =
     (case ReadFile E (layerDirs ms layer) ''cache-id'' w of
        (Inl e, w') \<Rightarrow> (Inl e, w')
      | (Inr bytes, w') \<Rightarrow>
          (let content = TrimSpace bytes in
           if content = '''' then (Inl (Errorf ''invalid cache id value''), w')
           else (Inr content, w')))"

definition GetDescriptor ::
  "'w env \<Rightarrow> fileMetadataStore \<Rightarrow> string \<Rightarrow> 'w \<Rightarrow> (go_error + descriptor) \<times> 'w" where
  "GetDescriptor E ms layer w =
     (case ReadFile E (layerDirs ms layer) ''descriptor.json'' w of
        (Inl e, w') \<Rightarrow> if e = ErrNotExist then (Inr empty_descriptor, w') else (Inl e, w')
      | (Inr content, w') \<Rightarrow> (unjson_descriptor E content, w'))"

subsection \<open>Mount metadata\<close>

text \<open>\<open>SetMountID\<close>, \<open>SetInitID\<close> and \<open>SetMountParent\<close> make the directory and write one file.\<close>

definition write_mount_file ::
  "'w env \<Rightarrow> string \<Rightarrow> string \<Rightarrow> string \<Rightarrow> (fileMetadataStore \<times> 'w) stmt" where
  "write_mount_file E mount fname content = (\<lambda>(ms, w).
     case os_op E ''MkdirAll'' mount w of
       (Some e, w1) \<Rightarrow> (Some e, (ms, w1))
     | (None, w1) \<Rightarrow>
         (let d = (case mountDirs ms mount of None \<Rightarrow> Map.empty | Some d \<Rightarrow> d);
              ms1 = ms\<lparr>mountDirs := (mountDirs ms)(mount \<mapsto> d)\<rparr>
          in case os_op E ''WriteFile'' fname w1 of
               (Some e, w2) \<Rightarrow> (Some e, (ms1, w2))
             | (None, w2) \<Rightarrow>
                 (None, (ms1\<lparr>mountDirs := (mountDirs ms1)(mount \<mapsto> d(fname \<mapsto> content))\<rparr>, w2))))"

definition SetMountID :: "'w env \<Rightarrow> string \<Rightarrow> string \<Rightarrow> (fileMetadataStore \<times> 'w) stmt" where
  "SetMountID E mount mountID = write_mount_file E mount ''mount-id'' mountID"

definition SetInitID :: "'w env \<Rightarrow> string \<Rightarrow> string \<Rightarrow> (fileMetadataStore \<times> 'w) stmt" where
  "SetInitID E mount init = write_mount_file E mount ''init-id'' init"

definition SetMountParent :: "'w env \<Rightarrow> string \<Rightarrow> string \<Rightarrow> (fileMetadataStore \<times> 'w) stmt" where
  "SetMountParent E mount parent = write_mount_file E mount ''parent'' parent"

text \<open>The pattern \<open>^[a-f0-9]{64}(-init)?$\<close>.\<close>

definition stringIDRegexp :: "string \<Rightarrow> bool" where
  "stringIDRegexp s \<longleftrightarrow>
     64 \<le> length s \<and> list_all (\<lambda>c. c \<in> set ''0123456789abcdef'') (take 64 s) \<and>
     (drop 64 s = '''' \<or> drop 64 s = ''-init'')"

definition GetMountID ::
  "'w env \<Rightarrow> fileMetadataStore \<Rightarrow> string \<Rightarrow> 'w \<Rightarrow> (go_error + string) \<times> 'w" where
  "GetMountID E ms mount w =
     (case ReadFile E (mountDirs ms mount) ''mount-id'' w of
        (Inl e, w') \<Rightarrow> (Inl e, w')
      | (Inr bytes, w') \<Rightarrow>
          (let content = TrimSpace bytes in
           if \<not> stringIDRegexp content then (Inl (Errorf ''invalid mount id value''), w')
           else (Inr content, w')))"

definition GetInitID ::
  "'w env \<Rightarrow> fileMetadataStore \<Rightarrow> string \<Rightarrow> 'w \<Rightarrow> (go_error + string) \<times> 'w" where
  "GetInitID E ms mount w =
     (case ReadFile E (mountDirs ms mount) ''init-id'' w of
        (Inl e, w') \<Rightarrow> if e = ErrNotExist then (Inr '''', w') else (Inl e, w')
      | (Inr bytes, w') \<Rightarrow>
          (let content = TrimSpace bytes in
           if \<not> stringIDRegexp content then (Inl (Errorf ''invalid init id value''), w')
           else (Inr content, w')))"

definition GetMountParent ::
  "'w env \<Rightarrow> fileMetadataStore \<Rightarrow> string \<Rightarrow> 'w \<Rightarrow> (go_error + string) \<times> 'w" where
  "GetMountParent E ms mount = digest_or_empty E (mountDirs ms mount) ''parent''"

definition ms_Remove :: "'w env \<Rightarrow> string \<Rightarrow> (fileMetadataStore \<times> 'w) stmt" where
  "ms_Remove E layer = (\<lambda>(ms, w).
     case os_op E ''RemoveAll'' layer w of
       (Some e, w') \<Rightarrow> (Some e, (ms, w'))
     | (None, w') \<Rightarrow> (None, (ms\<lparr>layerDirs := (layerDirs ms)(layer := None)\<rparr>, w')))"

definition ms_RemoveMount :: "'w env \<Rightarrow> string \<Rightarrow> (fileMetadataStore \<times> 'w) stmt" where
  "ms_RemoveMount E mount = (\<lambda>(ms, w).
     case os_op E ''RemoveAll'' mount w of
       (Some e, w') \<Rightarrow> (Some e, (ms, w'))
     | (None, w') \<Rightarrow> (None, (ms\<lparr>mountDirs := (mountDirs ms)(mount := None)\<rparr>, w')))"

end
