(* ===== verification/Layer_Store.thy ===== *)
theory Layer_Store
  imports Layer_Filestore
begin

text \<open>
  The layer store (\<open>engine/layer/layer.go\<close>, \<open>ro_layer.go\<close>, \<open>mounted_layer.go\<close>,
  \<open>layer_store.go\<close>).  Read-only layers are heap objects that share their parents through
  pointers, so the model has an explicit heap: addresses are natural numbers handed out in
  increasing order, and \<open>parent\<close> is an address.  The same counter numbers the reference
  objects that \<open>Get\<close> and \<open>Register\<close> hand out.  Each definition is one critical section of
  the code or a sequence of them; the locks themselves do not appear.
\<close>

section \<open>Chain IDs\<close>

fun createChainIDFromParent :: "(string \<Rightarrow> string) \<Rightarrow> string \<Rightarrow> string list \<Rightarrow> string" where
  "createChainIDFromParent fromBytes parent [] = parent"
| "createChainIDFromParent fromBytes parent (d # ds) =
     (if parent = '''' then createChainIDFromParent fromBytes d ds
      else createChainIDFromParent fromBytes (fromBytes (parent @ '' '' @ d)) ds)"

definition CreateChainID :: "(string \<Rightarrow> string) \<Rightarrow> string list \<Rightarrow> string" where
  "CreateChainID fromBytes dgsts = createChainIDFromParent fromBytes '''' dgsts"

lemma createChainID_append:
  "createChainIDFromParent f p (xs @ ys) = createChainIDFromParent f (createChainIDFromParent f p xs) ys"
  by (induction xs arbitrary: p) auto

lemma CreateChainID_snoc:
  "CreateChainID f (ds @ [d]) = createChainIDFromParent f (CreateChainID f ds) [d]"
  by (simp add: CreateChainID_def createChainID_append)

definition DigestSHA256EmptyTar :: string where
  "DigestSHA256EmptyTar =
     ''sha256:5f70bf18a086007016e948b04aed3b82103a36bea41755b6cddfaf10ace3c6ef''"

definition IsEmpty :: "string \<Rightarrow> bool" where
  "IsEmpty diffID \<longleftrightarrow> diffID = DigestSHA256EmptyTar"

section \<open>Layers and references\<close>

type_synonym addr = nat

text \<open>
  Values of the interface \<open>Layer\<close>: a plain pointer to a read-only layer (from \<open>Map\<close> and
  \<open>Parent\<close>), a reference object made by \<open>getReference\<close>, or the empty layer.
\<close>

datatype Layer = RoPtr addr | RefLayer nat addr | EmptyLayer

record roLayer =
  chainID :: string
  diffID :: string
  parent :: "addr option"
  cacheID :: string
  lsize :: "64 word"
  ldescriptor :: descriptor
  referenceCount :: int
  references :: "Layer set"

text \<open>
  A reference to a mounted layer (\<open>referencedRWLayer\<close>) embeds a pointer to the mounted
  layer; the fields read through it never change after creation and are copied here.
\<close>

datatype RWLayer =
  RWRef (rw_token: nat) (rw_name: string) (rw_mountID: string) (rw_cacheParent: string)

record mountedLayer =
  mname :: string
  mountID :: string
  initID :: string
  mparent :: "addr option"
  mreferences :: "RWLayer set"

record LayerMetadata =
  mdChainID :: string
  mdDiffID :: string
  mdSize :: "64 word"
  mdDiffSize :: "64 word"

record 'w layerStore =
  heap :: "addr \<rightharpoonup> roLayer"
  layerMap :: "string \<rightharpoonup> addr"
  mounts :: "string \<rightharpoonup> mountedLayer"
  fresh :: nat
  useTarSplit :: bool
  lsOS :: string
  meta :: fileMetadataStore
  world :: 'w

definition ErrLayerDoesNotExist :: go_error where
  "ErrLayerDoesNotExist = Sentinel ''layer does not exist''"

definition ErrLayerNotRetained :: go_error where
  "ErrLayerNotRetained = Sentinel ''layer not retained''"

definition ErrMountDoesNotExist :: go_error where
  "ErrMountDoesNotExist = Sentinel ''mount does not exist''"

definition ErrMountNameConflict :: go_error where
  "ErrMountNameConflict = Sentinel ''mount already exists with name''"

definition ErrMaxDepthExceeded :: go_error where
  "ErrMaxDepthExceeded = Sentinel ''max depth exceeded''"

definition maxLayerDepth :: nat where
  "maxLayerDepth = 125"

text \<open>Statements on the world and on the metadata store, lifted to the layer store.\<close>

definition onWorld :: "('w \<Rightarrow> 'r \<times> 'w) \<Rightarrow> 'w layerStore \<Rightarrow> 'r \<times> 'w layerStore" where
  "onWorld f ls = (case f (world ls) of (r, w) \<Rightarrow> (r, ls\<lparr>world := w\<rparr>))"

definition onMeta ::
  "(fileMetadataStore \<times> 'w \<Rightarrow> 'r \<times> (fileMetadataStore \<times> 'w)) \<Rightarrow> 'w layerStore \<Rightarrow> 'r \<times> 'w layerStore" where
  "onMeta f ls = (case f (meta ls, world ls) of (r, (ms, w)) \<Rightarrow> (r, ls\<lparr>meta := ms, world := w\<rparr>))"

subsection \<open>Operations on one read-only layer\<close>

definition setLayer :: "addr \<Rightarrow> roLayer \<Rightarrow> 'w layerStore \<Rightarrow> 'w layerStore" where
  "setLayer a l ls = ls\<lparr>heap := (heap ls)(a \<mapsto> l)\<rparr>"

text \<open>
  The recursions of \<open>Size\<close>, \<open>depth\<close> and \<open>TarStreamFrom\<close> follow the parent pointers.  A parent
  is allocated before its child, so addresses decrease along the chain; this is the
  termination measure, and the store invariant shows that the guard \<open>p < a\<close> always holds.
\<close>

function roLayer_Size :: "(addr \<rightharpoonup> roLayer) \<Rightarrow> addr \<Rightarrow> 64 word" where
  "roLayer_Size h a =
     (case h a of
        None \<Rightarrow> 0
      | Some l \<Rightarrow>
          (case parent l of
             None \<Rightarrow> lsize l
           | Some p \<Rightarrow> if p < a then roLayer_Size h p + lsize l else lsize l))"
  by pat_completeness auto
termination
  by (relation "measure snd") auto

function depth :: "(addr \<rightharpoonup> roLayer) \<Rightarrow> addr \<Rightarrow> nat" where
  "depth h a =
     (case h a of
        None \<Rightarrow> 0
      | Some l \<Rightarrow>
          (case parent l of
             None \<Rightarrow> 1
           | Some p \<Rightarrow> if p < a then depth h p + 1 else 1))"
  by pat_completeness auto
termination
  by (relation "measure snd") auto

declare roLayer_Size.simps [simp del] depth.simps [simp del]

definition getReference :: "addr \<Rightarrow> 'w layerStore \<Rightarrow> Layer \<times> 'w layerStore" where
  "getReference a ls =
     (case heap ls a of
        None \<Rightarrow> (RefLayer (fresh ls) a, ls)
      | Some l \<Rightarrow>
          (let ref = RefLayer (fresh ls) a in
           (ref, (setLayer a (l\<lparr>references := insert ref (references l)\<rparr>) ls)
                   \<lparr>fresh := Suc (fresh ls)\<rparr>)))"

definition hasReference :: "roLayer \<Rightarrow> Layer \<Rightarrow> bool" where
  "hasReference rl ref \<longleftrightarrow> ref \<in> references rl"

definition hasReferences :: "roLayer \<Rightarrow> bool" where
  "hasReferences rl \<longleftrightarrow> references rl \<noteq> {}"

definition deleteReference :: "roLayer \<Rightarrow> Layer \<Rightarrow> roLayer" where
  "deleteReference rl ref = rl\<lparr>references := references rl - {ref}\<rparr>"

text \<open>\<open>ChainID\<close> of a layer value; a reference object forwards to the layer it embeds.\<close>

definition Layer_ChainID :: "'w layerStore \<Rightarrow> Layer \<Rightarrow> string" where
  "Layer_ChainID ls l =
     (case l of
        RoPtr a \<Rightarrow> (case heap ls a of None \<Rightarrow> '''' | Some rl \<Rightarrow> chainID rl)
      | RefLayer t a \<Rightarrow> (case heap ls a of None \<Rightarrow> '''' | Some rl \<Rightarrow> chainID rl)
      | EmptyLayer \<Rightarrow> DigestSHA256EmptyTar)"

definition Layer_DiffID :: "'w layerStore \<Rightarrow> Layer \<Rightarrow> string" where
  "Layer_DiffID ls l =
     (case l of
        RoPtr a \<Rightarrow> (case heap ls a of None \<Rightarrow> '''' | Some rl \<Rightarrow> diffID rl)
      | RefLayer t a \<Rightarrow> (case heap ls a of None \<Rightarrow> '''' | Some rl \<Rightarrow> diffID rl)
      | EmptyLayer \<Rightarrow> DigestSHA256EmptyTar)"

definition storeLayer :: "'w env \<Rightarrow> string \<Rightarrow> string option \<Rightarrow> roLayer \<Rightarrow> 'w tx stmt" where
  "storeLayer E os parentChain layer =
     steps
      [SetDiffID E (diffID layer),
       SetSize E (lsize layer),
       SetCacheID E (cacheID layer),
       if dDigest (ldescriptor layer) \<noteq> '''' then SetDescriptor E (ldescriptor layer) else skip,
       (case parentChain of None \<Rightarrow> skip | Some c \<Rightarrow> SetParent E c),
       setOS E os]"

section \<open>Getting and releasing layers\<close>

definition getWithoutLock :: "string \<Rightarrow> 'w layerStore \<Rightarrow> addr option \<times> 'w layerStore" where
  "getWithoutLock c ls =
     (case layerMap ls c of
        None \<Rightarrow> (None, ls)
      | Some a \<Rightarrow>
          (case heap ls a of
             None \<Rightarrow> (None, ls)
           | Some l \<Rightarrow> (Some a, setLayer a (l\<lparr>referenceCount := referenceCount l + 1\<rparr>) ls)))"

definition ls_Get :: "string \<Rightarrow> 'w layerStore \<Rightarrow> Layer outcome \<times> 'w layerStore" where
  "ls_Get c ls =
     (case getWithoutLock c ls of
        (None, ls1) \<Rightarrow> (Err ErrLayerDoesNotExist, ls1)
      | (Some a, ls1) \<Rightarrow> (case getReference a ls1 of (ref, ls2) \<Rightarrow> (Ok ref, ls2)))"

definition ls_Map :: "'w layerStore \<Rightarrow> string \<rightharpoonup> Layer" where
  "ls_Map ls = (\<lambda>c. map_option RoPtr (layerMap ls c))"

definition deleteLayer ::
  "'w env \<Rightarrow> addr \<Rightarrow> roLayer \<Rightarrow> 'w layerStore \<Rightarrow> (go_error + LayerMetadata) \<times> 'w layerStore" where
  "deleteLayer E a layer ls =
     (case onWorld (drv_Remove E (cacheID layer)) ls of
        (Some e, ls1) \<Rightarrow> (Inl e, ls1)
      | (None, ls1) \<Rightarrow>
          (case onMeta (ms_Remove E (chainID layer)) ls1 of
             (Some e, ls2) \<Rightarrow> (Inl e, ls2)
           | (None, ls2) \<Rightarrow>
               (Inr \<lparr>mdChainID = chainID layer, mdDiffID = diffID layer,
                     mdSize = roLayer_Size (heap ls2) a, mdDiffSize = lsize layer\<rparr>, ls2)))"

text \<open>
  The loop of \<open>releaseLayer\<close>: drop one count of the layer; when it was the last one, delete
  the layer and go on with the parent, whose count the deleted layer held.
\<close>

function releaseLayer_loop ::
  "'w env \<Rightarrow> addr \<Rightarrow> nat \<Rightarrow> LayerMetadata list \<Rightarrow> 'w layerStore
     \<Rightarrow> LayerMetadata list outcome \<times> 'w layerStore" where
  "releaseLayer_loop E a dep removed ls =
     (case heap ls a of
        None \<Rightarrow> (Panic ''invalid memory address or nil pointer dereference'', ls)
      | Some l \<Rightarrow>
          (if referenceCount l = 0 then (Panic ''layer not retained'', ls)
           else
             let l1 = l\<lparr>referenceCount := referenceCount l - 1\<rparr>;
                 ls1 = setLayer a l1 ls
             in if referenceCount l1 \<noteq> 0 then (Ok removed, ls1)
                else if removed = [] \<and> dep > 0
                then (Panic ''cannot remove layer with child'', ls1)
                else if hasReferences l1
                then (Panic ''cannot delete referenced layer'', ls1)
                else
                  (case deleteLayer E a l1 ls1 of
                     (Inl e, ls2) \<Rightarrow> (Err e, ls2)
                   | (Inr md, ls2) \<Rightarrow>
                       (let ls3 = ls2\<lparr>layerMap := (layerMap ls2)(chainID l1 := None)\<rparr> in
                        case parent l1 of
                          None \<Rightarrow> (Ok (removed @ [md]), ls3)
                        | Some p \<Rightarrow>
                            if p < a then releaseLayer_loop E p (Suc dep) (removed @ [md]) ls3
                            else (Panic ''parent allocated after child'', ls3)))))"
  by pat_completeness auto
termination
  by (relation "measure (\<lambda>(E, a, dep, removed, ls). a)") auto

declare releaseLayer_loop.simps [simp del]

definition releaseLayer ::
  "'w env \<Rightarrow> addr \<Rightarrow> 'w layerStore \<Rightarrow> LayerMetadata list outcome \<times> 'w layerStore" where
  "releaseLayer E a ls = releaseLayer_loop E a 0 [] ls"

definition ls_Release ::
  "'w env \<Rightarrow> Layer \<Rightarrow> 'w layerStore \<Rightarrow> LayerMetadata list outcome \<times> 'w layerStore" where
  "ls_Release E l ls =
     (case layerMap ls (Layer_ChainID ls l) of
        None \<Rightarrow> (Ok [], ls)
      | Some a \<Rightarrow>
          (case heap ls a of
             None \<Rightarrow> (Panic ''invalid memory address or nil pointer dereference'', ls)
           | Some layer \<Rightarrow>
               (if \<not> hasReference layer l then (Err ErrLayerNotRetained, ls)
                else releaseLayer E a (setLayer a (deleteReference layer l) ls))))"

text \<open>
  The deferred \<open>if err != nil { releaseLayer(p) }\<close>: the result of the release is dropped,
  but a panic inside it is not.
\<close>

definition deferRelease ::
  "'w env \<Rightarrow> addr option \<Rightarrow> 'a outcome \<times> 'w layerStore \<Rightarrow> 'a outcome \<times> 'w layerStore" where
  "deferRelease E p r =
     (case p of
        None \<Rightarrow> r
      | Some a \<Rightarrow>
          (case releaseLayer E a (snd r) of
             (Panic m, ls) \<Rightarrow> (Panic m, ls)
           | (Ok _, ls) \<Rightarrow> (fst r, ls)
           | (Err _, ls) \<Rightarrow> (fst r, ls)))"

section \<open>Registering layers\<close>

definition layerCacheID :: "'w layerStore \<Rightarrow> addr option \<Rightarrow> string" where
  "layerCacheID ls p =
     (case p of
        None \<Rightarrow> ''''
      | Some a \<Rightarrow> (case heap ls a of None \<Rightarrow> '''' | Some l \<Rightarrow> cacheID l))"

definition layerChainID :: "'w layerStore \<Rightarrow> addr option \<Rightarrow> string option" where
  "layerChainID ls p =
     (case p of
        None \<Rightarrow> None
      | Some a \<Rightarrow> (case heap ls a of None \<Rightarrow> None | Some l \<Rightarrow> Some (chainID l)))"

text \<open>
  \<open>applyTar\<close> on the transaction and the world: the size reported by the driver and the
  digest of the tar stream, all of which is read through the digester.
\<close>

definition applyTar ::
  "'w env \<Rightarrow> bool \<Rightarrow> string \<Rightarrow> string \<Rightarrow> string \<Rightarrow> 'w tx \<Rightarrow> (go_error + 64 word \<times> string) \<times> 'w tx" where
  "applyTar E tarSplit ts pid cid = (\<lambda>(d, w).
     case (if tarSplit
           then steps [TarSplitWriter E,
                       \<lambda>(d, w). map_prod id (Pair d) (os_op E ''NewInputTarStream'' '''' w)] (d, w)
           else (None, (d, w))) of
       (Some e, t) \<Rightarrow> (Inl e, t)
     | (None, (d1, w1)) \<Rightarrow>
         (case drv_ApplyDiff E cid pid ts w1 of
            (Inl e, w2) \<Rightarrow> (Inl e, (d1, w2))
          | (Inr applySize, w2) \<Rightarrow> (Inr (applySize, FromBytes E ts), (d1, w2))))"

text \<open>The deferred cleanup of a failed registration; its own errors are only logged.\<close>

definition cleanupTx :: "'w env \<Rightarrow> string \<Rightarrow> 'a outcome \<times> 'w layerStore \<Rightarrow> 'a outcome \<times> 'w layerStore" where
  "cleanupTx E cid r =
     (fst r, snd (onWorld (tx_Cancel E) (snd (onWorld (drv_Remove E cid) (snd r)))))"

text \<open>
  The critical section at the end of \<open>registerWithDescriptor\<close>.  The new object becomes
  reachable here, so this is where the model allocates it.
\<close>

definition insertLayer :: "roLayer \<Rightarrow> 'w layerStore \<Rightarrow> addr \<times> 'w layerStore" where
  "insertLayer layer ls =
     (let a = fresh ls in
      (a, (setLayer a layer ls)\<lparr>fresh := Suc a, layerMap := (layerMap ls)(chainID layer \<mapsto> a)\<rparr>))"

definition register_commit ::
  "'w env \<Rightarrow> addr option \<Rightarrow> roLayer \<Rightarrow> dir \<Rightarrow> 'w layerStore \<Rightarrow> Layer outcome \<times> 'w layerStore" where
  "register_commit E p layer d ls =
     (case getWithoutLock (chainID layer) ls of
        (Some existing, ls1) \<Rightarrow>
          (case getReference existing ls1 of
             (ref, ls2) \<Rightarrow> deferRelease E p (cleanupTx E (cacheID layer) (Ok ref, ls2)))
      | (None, ls1) \<Rightarrow>
          (case onMeta (tx_Commit E (chainID layer) d) ls1 of
             (Some e, ls2) \<Rightarrow> deferRelease E p (cleanupTx E (cacheID layer) (Err e, ls2))
           | (None, ls2) \<Rightarrow>
               (case insertLayer layer ls2 of
                  (a, ls3) \<Rightarrow> (case getReference a ls3 of (ref, ls4) \<Rightarrow> (Ok ref, ls4)))))"

definition newLayer ::
  "'w env \<Rightarrow> 'w layerStore \<Rightarrow> addr option \<Rightarrow> string \<Rightarrow> 64 word \<Rightarrow> string \<Rightarrow> descriptor \<Rightarrow> roLayer" where
  "newLayer E ls p cid sz dgst desc =
     \<lparr>chainID = (case layerChainID ls p of
                   None \<Rightarrow> dgst
                 | Some c \<Rightarrow> createChainIDFromParent (FromBytes E) c [dgst]),
      diffID = dgst, parent = p, cacheID = cid, lsize = sz, ldescriptor = desc,
      referenceCount = 1, references = {}\<rparr>"

definition register_body ::
  "'w env \<Rightarrow> string \<Rightarrow> addr option \<Rightarrow> descriptor \<Rightarrow> 'w layerStore \<Rightarrow> Layer outcome \<times> 'w layerStore" where
  "register_body E ts p desc ls =
     (let pid = layerCacheID ls p in
      case onWorld (GenerateRandomID E) ls of (cid, ls1) \<Rightarrow>
      case onWorld (drv_Create E cid pid) ls1 of
        (Some e, ls2) \<Rightarrow> deferRelease E p (Err e, ls2)
      | (None, ls2) \<Rightarrow>
      case onWorld (StartTransaction E) ls2 of
        (Some e, ls3) \<Rightarrow> deferRelease E p (Err e, ls3)
      | (None, ls3) \<Rightarrow>
      case applyTar E (useTarSplit ls3) ts pid cid (Map.empty, world ls3) of
        (Inl e, (d, w)) \<Rightarrow> deferRelease E p (cleanupTx E cid (Err e, ls3\<lparr>world := w\<rparr>))
      | (Inr (sz, dgst), (d, w)) \<Rightarrow>
      let layer = newLayer E ls3 p cid sz dgst desc in
      case storeLayer E (lsOS ls3) (layerChainID ls3 p) layer (d, w) of
        (Some e, (d', w')) \<Rightarrow> deferRelease E p (cleanupTx E cid (Err e, ls3\<lparr>world := w'\<rparr>))
      | (None, (d', w')) \<Rightarrow> register_commit E p layer d' (ls3\<lparr>world := w'\<rparr>))"

definition registerWithDescriptor ::
  "'w env \<Rightarrow> string \<Rightarrow> string \<Rightarrow> descriptor \<Rightarrow> 'w layerStore \<Rightarrow> Layer outcome \<times> 'w layerStore" where
  "registerWithDescriptor E ts parentID desc ls =
     (if parentID \<noteq> '''' then
        (case getWithoutLock parentID ls of
           (None, ls1) \<Rightarrow> (Err ErrLayerDoesNotExist, ls1)
         | (Some p, ls1) \<Rightarrow>
             (if depth (heap ls1) p \<ge> maxLayerDepth
              then deferRelease E (Some p) (Err ErrMaxDepthExceeded, ls1)
              else register_body E ts (Some p) desc ls1))
      else register_body E ts None desc ls)"

definition ls_Register ::
  "'w env \<Rightarrow> string \<Rightarrow> string \<Rightarrow> 'w layerStore \<Rightarrow> Layer outcome \<times> 'w layerStore" where
  "ls_Register E ts parentID ls = registerWithDescriptor E ts parentID empty_descriptor ls"

section \<open>Mounted layers\<close>

definition cacheParent :: "'w layerStore \<Rightarrow> mountedLayer \<Rightarrow> string" where
  "cacheParent ls ml =
     (if initID ml \<noteq> '''' then initID ml else layerCacheID ls (mparent ml))"

definition m_getReference :: "string \<Rightarrow> mountedLayer \<Rightarrow> 'w layerStore \<Rightarrow> RWLayer \<times> 'w layerStore" where
  "m_getReference n ml ls =
     (let ref = RWRef (fresh ls) (mname ml) (mountID ml) (cacheParent ls ml) in
      (ref, ls\<lparr>mounts := (mounts ls)(n \<mapsto> ml\<lparr>mreferences := insert ref (mreferences ml)\<rparr>),
               fresh := Suc (fresh ls)\<rparr>))"

definition m_hasReferences :: "mountedLayer \<Rightarrow> bool" where
  "m_hasReferences ml \<longleftrightarrow> mreferences ml \<noteq> {}"

definition m_deleteReference :: "mountedLayer \<Rightarrow> RWLayer \<Rightarrow> go_error + mountedLayer" where
  "m_deleteReference ml ref =
     (if ref \<notin> mreferences ml then Inl ErrLayerNotRetained
      else Inr (ml\<lparr>mreferences := mreferences ml - {ref}\<rparr>))"

definition m_retakeReference :: "mountedLayer \<Rightarrow> RWLayer \<Rightarrow> mountedLayer" where
  "m_retakeReference ml r = ml\<lparr>mreferences := insert r (mreferences ml)\<rparr>"

definition rw_Mount :: "'w env \<Rightarrow> RWLayer \<Rightarrow> string \<Rightarrow> 'w layerStore \<Rightarrow> (go_error + string) \<times> 'w layerStore" where
  "rw_Mount E rl mountLabel = onWorld (drv_Get E (rw_mountID rl) mountLabel)"

definition rw_Unmount :: "'w env \<Rightarrow> RWLayer \<Rightarrow> 'w layerStore \<Rightarrow> go_error option \<times> 'w layerStore" where
  "rw_Unmount E rl = onWorld (drv_Put E (rw_mountID rl))"

definition rw_TarStream :: "'w env \<Rightarrow> RWLayer \<Rightarrow> 'w layerStore \<Rightarrow> (go_error + string) \<times> 'w layerStore" where
  "rw_TarStream E rl = onWorld (drv_Diff E (rw_mountID rl) (rw_cacheParent rl))"

record 'w CreateRWLayerOpts =
  optMountLabel :: string
  optInitFunc :: "(string \<Rightarrow> 'w stmt) option"
  optStorageOpt :: "string \<rightharpoonup> string"

definition no_opts :: "'w CreateRWLayerOpts" where
  "no_opts = \<lparr>optMountLabel = '''', optInitFunc = None, optStorageOpt = Map.empty\<rparr>"

definition saveMount :: "'w env \<Rightarrow> mountedLayer \<Rightarrow> 'w layerStore stmt" where
  "saveMount E m ls =
     (case steps
        [onMeta (SetMountID E (mname m) (mountID m)),
         if initID m \<noteq> '''' then onMeta (SetInitID E (mname m) (initID m)) else skip,
         (case layerChainID ls (mparent m) of
            None \<Rightarrow> skip
          | Some c \<Rightarrow> onMeta (SetMountParent E (mname m) c))] ls of
        (Some e, ls1) \<Rightarrow> (Some e, ls1)
      | (None, ls1) \<Rightarrow> (None, ls1\<lparr>mounts := (mounts ls1)(mname m \<mapsto> m)\<rparr>))"

definition initMount ::
  "'w env \<Rightarrow> string \<Rightarrow> string \<Rightarrow> string \<Rightarrow> (string \<Rightarrow> 'w stmt) \<Rightarrow> (string \<rightharpoonup> string)
     \<Rightarrow> 'w \<Rightarrow> (go_error + string) \<times> 'w" where
  "initMount E graphID parentID mountLabel initFunc storageOpt w =
     (let iid = graphID @ ''-init'' in
      case drv_CreateReadWrite E iid parentID
             \<lparr>coMountLabel = mountLabel, coStorageOpt = storageOpt\<rparr> w of
        (Some e, w1) \<Rightarrow> (Inl e, w1)
      | (None, w1) \<Rightarrow>
      case drv_Get E iid '''' w1 of
        (Inl e, w2) \<Rightarrow> (Inl e, w2)
      | (Inr root, w2) \<Rightarrow>
      case initFunc root w2 of
        (Some e, w3) \<Rightarrow> (Inl e, snd (drv_Put E iid w3))
      | (None, w3) \<Rightarrow>
      case drv_Put E iid w3 of
        (Some e, w4) \<Rightarrow> (Inl e, w4)
      | (None, w4) \<Rightarrow> (Inr iid, w4))"

text \<open>The end of \<open>CreateRWLayer\<close>: save the mount, and give up the parent when that fails.\<close>

definition mount_commit ::
  "'w env \<Rightarrow> mountedLayer \<Rightarrow> 'w layerStore \<Rightarrow> RWLayer outcome \<times> 'w layerStore" where
  "mount_commit E m ls =
     (case saveMount E m ls of
        (Some e, ls4) \<Rightarrow> deferRelease E (mparent m) (Err e, ls4)
      | (None, ls4) \<Rightarrow> (case m_getReference (mname m) m ls4 of (ref, ls5) \<Rightarrow> (Ok ref, ls5)))"

definition createRW_body ::
  "'w env \<Rightarrow> string \<Rightarrow> addr option \<Rightarrow> 'w CreateRWLayerOpts \<Rightarrow> 'w layerStore
     \<Rightarrow> RWLayer outcome \<times> 'w layerStore" where
  "createRW_body E name p opts ls =
     (let pid = layerCacheID ls p in
      case onWorld (GenerateRandomID E) ls of (mid, ls1) \<Rightarrow>
      case (case optInitFunc opts of
              None \<Rightarrow> (Inr ('''', pid), ls1)
            | Some f \<Rightarrow>
                (case onWorld (initMount E mid pid (optMountLabel opts) f (optStorageOpt opts)) ls1 of
                   (Inl e, ls2) \<Rightarrow> (Inl e, ls2)
                 | (Inr i, ls2) \<Rightarrow> (Inr (i, i), ls2))) of
        (Inl e, ls2) \<Rightarrow> deferRelease E p (Err e, ls2)
      | (Inr (iid, pid2), ls2) \<Rightarrow>
      case onWorld (drv_CreateReadWrite E mid pid2
             \<lparr>coMountLabel = '''', coStorageOpt = optStorageOpt opts\<rparr>) ls2 of
        (Some e, ls3) \<Rightarrow> deferRelease E p (Err e, ls3)
      | (None, ls3) \<Rightarrow>
      mount_commit E \<lparr>mname = name, mountID = mid, initID = iid, mparent = p, mreferences = {}\<rparr> ls3)"

definition ls_CreateRWLayer ::
  "'w env \<Rightarrow> string \<Rightarrow> string \<Rightarrow> 'w CreateRWLayerOpts option \<Rightarrow> 'w layerStore
     \<Rightarrow> RWLayer outcome \<times> 'w layerStore" where
  "ls_CreateRWLayer E name parentID opts ls =
     (let o' = (case opts of None \<Rightarrow> no_opts | Some os \<Rightarrow> os) in
      case mounts ls name of
        Some m \<Rightarrow> (Err ErrMountNameConflict, ls)
      | None \<Rightarrow>
          (if parentID \<noteq> '''' then
             (case getWithoutLock parentID ls of
                (None, ls1) \<Rightarrow> (Err ErrLayerDoesNotExist, ls1)
              | (Some p, ls1) \<Rightarrow> createRW_body E name (Some p) o' ls1)
           else createRW_body E name None o' ls))"

definition ls_GetRWLayer :: "string \<Rightarrow> 'w layerStore \<Rightarrow> RWLayer outcome \<times> 'w layerStore" where
  "ls_GetRWLayer n ls =
     (case mounts ls n of
        None \<Rightarrow> (Err ErrMountDoesNotExist, ls)
      | Some m \<Rightarrow> (case m_getReference n m ls of (ref, ls1) \<Rightarrow> (Ok ref, ls1)))"

definition ls_GetMountID :: "string \<Rightarrow> 'w layerStore \<Rightarrow> string outcome" where
  "ls_GetMountID n ls =
     (case mounts ls n of None \<Rightarrow> Err ErrMountDoesNotExist | Some m \<Rightarrow> Ok (mountID m))"

definition ls_ReleaseRWLayer ::
  "'w env \<Rightarrow> RWLayer \<Rightarrow> 'w layerStore \<Rightarrow> LayerMetadata list outcome \<times> 'w layerStore" where
  "ls_ReleaseRWLayer E l ls =
     (let n = rw_name l in
      case mounts ls n of
        None \<Rightarrow> (Ok [], ls)
      | Some m \<Rightarrow>
      case m_deleteReference m l of
        Inl e \<Rightarrow> (Err e, ls)
      | Inr m1 \<Rightarrow>
      let ls1 = ls\<lparr>mounts := (mounts ls)(n \<mapsto> m1)\<rparr> in
      if m_hasReferences m1 then (Ok [], ls1)
      else
        case steps
          [onWorld (drv_Remove E (mountID m1)),
           if initID m1 \<noteq> '''' then onWorld (drv_Remove E (initID m1)) else skip,
           onMeta (ms_RemoveMount E (mname m1))] ls1 of
          (Some e, ls2) \<Rightarrow>
            (Err e, ls2\<lparr>mounts := (mounts ls2)(n \<mapsto> m_retakeReference m1 l)\<rparr>)
        | (None, ls2) \<Rightarrow>
            (let ls3 = ls2\<lparr>mounts := (mounts ls2)(mname m1 := None)\<rparr> in
             case mparent m1 of
               None \<Rightarrow> (Ok [], ls3)
             | Some p \<Rightarrow> releaseLayer E p ls3))"

end
