(* ===== verification/Digest_Set.thy ===== *)
theory Digest_Set
  imports Go_Prelude
begin

text \<open>
  Digests (\<open>opencontainers/go-digest\<close>) and the set of digests that resolves short image IDs
  (\<open>docker/distribution/digestset/set.go\<close>), both vendored in the engine.  The set is a slice
  sorted by hex value and algorithm; all three operations locate a position by the binary
  search of \<open>sort.Search\<close>.
\<close>

section \<open>Binary search\<close>

text \<open>The loop of \<open>sort.Search\<close>; indices are far below the width of \<open>int\<close>.\<close>

function search_loop :: "(nat \<Rightarrow> bool) \<Rightarrow> nat \<Rightarrow> nat \<Rightarrow> nat" where
  "search_loop f i j =
     (if i < j then
        let h = (i + j) div 2 in
        if \<not> f h then search_loop f (h + 1) j else search_loop f i h
      else i)"
  by pat_completeness auto
termination
  by (relation "measure (\<lambda>(f, i, j). j - i)") auto

declare search_loop.simps [simp del]

definition sort_Search :: "nat \<Rightarrow> (nat \<Rightarrow> bool) \<Rightarrow> nat" where
  "sort_Search n f = search_loop f 0 n"

lemma search_loop_spec:
  assumes mono: "\<And>x y. x \<le> y \<Longrightarrow> y < n \<Longrightarrow> f x \<Longrightarrow> f y"
  shows "i \<le> j \<Longrightarrow> j \<le> n \<Longrightarrow> (\<forall>x<i. \<not> f x) \<Longrightarrow> (\<forall>x. j \<le> x \<and> x < n \<longrightarrow> f x) \<Longrightarrow>
    search_loop f i j \<le> n \<and> (\<forall>x < search_loop f i j. \<not> f x) \<and>
    (\<forall>x. search_loop f i j \<le> x \<and> x < n \<longrightarrow> f x)"
proof (induction "j - i" arbitrary: i j rule: less_induct)
  case less
  show ?case
  proof (cases "i < j")
    case False
    with less.prems show ?thesis by (simp add: search_loop.simps)
  next
    case True
    define h where "h = (i + j) div 2"
    have h: "i \<le> h" "h < j" using True by (auto simp: h_def)
    show ?thesis
    proof (cases "f h")
      case True
      have up: "\<forall>x. h \<le> x \<and> x < n \<longrightarrow> f x" using mono True by blast
      have "search_loop f i j = search_loop f i h"
        using True \<open>i < j\<close> by (simp add: search_loop.simps [of f i j] Let_def h_def)
      with less.hyps [of h i] h up less.prems show ?thesis by simp
    next
      case False
      have "\<not> f x" if "x \<le> h" for x using mono [of x h] that False h less.prems(2) by auto
      then have down: "\<forall>x < Suc h. \<not> f x" by simp
      have "search_loop f i j = search_loop f (Suc h) j"
        using False \<open>i < j\<close> by (simp add: search_loop.simps [of f i j] Let_def h_def)
      with less.hyps [of j "Suc h"] h down less.prems show ?thesis by simp
    qed
  qed
qed

lemma sort_Search_spec:
  assumes "\<And>x y. x \<le> y \<Longrightarrow> y < n \<Longrightarrow> f x \<Longrightarrow> f y"
  shows "sort_Search n f \<le> n" "x < sort_Search n f \<Longrightarrow> \<not> f x" "sort_Search n f \<le> x \<Longrightarrow> x < n \<Longrightarrow> f x"
proof -
  have "search_loop f 0 n \<le> n \<and> (\<forall>x < search_loop f 0 n. \<not> f x) \<and> (\<forall>x. search_loop f 0 n \<le> x \<and> x < n \<longrightarrow> f x)"
    by (rule search_loop_spec, rule assms) auto
  then show "sort_Search n f \<le> n" "x < sort_Search n f \<Longrightarrow> \<not> f x" "sort_Search n f \<le> x \<Longrightarrow> x < n \<Longrightarrow> f x"
    by (simp_all add: sort_Search_def)
qed

text \<open>On a sorted list, the position splits the list by an upward closed predicate.\<close>

lemma sort_Search_split:
  assumes "sorted_wrt R xs" "\<forall>x y. R x y \<longrightarrow> Q x \<longrightarrow> Q y"
  defines "k \<equiv> sort_Search (length xs) (\<lambda>i. Q (xs ! i))"
  shows "k \<le> length xs" "\<forall>x \<in> set (take k xs). \<not> Q x" "\<forall>x \<in> set (drop k xs). Q x"
proof -
  have mono: "\<And>x y. x \<le> y \<Longrightarrow> y < length xs \<Longrightarrow> Q (xs ! x) \<Longrightarrow> Q (xs ! y)"
    using assms(1,2) by (metis le_neq_implies_less sorted_wrt_nth_less)
  have mono': "\<And>x y. x \<le> y \<Longrightarrow> y < length xs \<Longrightarrow> (\<lambda>i. Q (xs ! i)) x \<Longrightarrow> (\<lambda>i. Q (xs ! i)) y"
    using mono by blast
  show "k \<le> length xs" unfolding k_def by (rule sort_Search_spec(1)) (rule mono')
  show "\<forall>x \<in> set (take k xs). \<not> Q x"
  proof
    fix x assume "x \<in> set (take k xs)"
    then obtain i where i: "i < k" "x = xs ! i" by (auto simp: in_set_conv_nth)
    from i(1) have "\<not> Q (xs ! i)" unfolding k_def by (rule sort_Search_spec(2) [rotated]) (rule mono')
    with i show "\<not> Q x" by simp
  qed
  show "\<forall>x \<in> set (drop k xs). Q x"
  proof
    fix x assume "x \<in> set (drop k xs)"
    then obtain j where j: "j < length (drop k xs)" "x = drop k xs ! j" by (metis in_set_conv_nth)
    define i where "i = k + j"
    have i: "k \<le> i" "i < length xs" "x = xs ! i" using j \<open>k \<le> length xs\<close> by (simp_all add: i_def)
    from i(1,2) have "Q (xs ! i)" unfolding k_def by (rule sort_Search_spec(3) [rotated]) (rule mono')
    with i show "Q x" by simp
  qed
qed

section \<open>Digests\<close>

definition ErrDigestInvalidFormat :: go_error where
  "ErrDigestInvalidFormat = Sentinel ''invalid checksum digest format''"

definition ErrDigestInvalidLength :: go_error where
  "ErrDigestInvalidLength = Sentinel ''invalid checksum digest length''"

definition ErrDigestUnsupported :: go_error where
  "ErrDigestUnsupported = Sentinel ''unsupported digest algorithm''"

text \<open>The digest size of an available algorithm, in bytes.\<close>

definition alg_Size :: "string \<Rightarrow> nat option" where
  "alg_Size a =
     (if a = ''sha256'' then Some 32 else if a = ''sha384'' then Some 48
      else if a = ''sha512'' then Some 64 else None)"

definition alg_Available :: "string \<Rightarrow> bool" where
  "alg_Available a \<longleftrightarrow> alg_Size a \<noteq> None"

definition lower_hex :: "string \<Rightarrow> bool" where
  "lower_hex s \<longleftrightarrow> list_all (\<lambda>c. c \<in> set ''0123456789abcdef'') s"

definition alg_Validate :: "string \<Rightarrow> string \<Rightarrow> go_error option" where
  "alg_Validate a encoded =
     (case alg_Size a of
        None \<Rightarrow> Some ErrDigestUnsupported
      | Some sz \<Rightarrow>
          (if sz * 2 \<noteq> length encoded then Some ErrDigestInvalidLength
           else if lower_hex encoded then None else Some ErrDigestInvalidFormat))"

text \<open>
  \<open>DigestRegexpAnchored\<close>: components of lower case letters and digits joined by single
  separators, a colon, and a non-empty encoded part.
\<close>

definition is_alnum_lower :: "char \<Rightarrow> bool" where
  "is_alnum_lower c \<longleftrightarrow> c \<in> set ''abcdefghijklmnopqrstuvwxyz0123456789''"

fun alg_components :: "bool \<Rightarrow> string \<Rightarrow> bool" where
  "alg_components prev_alnum [] = prev_alnum"
| "alg_components prev_alnum (c # cs) =
     (if is_alnum_lower c then alg_components True cs
      else prev_alnum \<and> c \<in> set ''.+_-'' \<and> alg_components False cs)"

definition DigestRegexpAnchored :: "string \<Rightarrow> bool" where
  "DigestRegexpAnchored s =
     (case SplitN2 CHR '':'' s of
        (a, None) \<Rightarrow> False
      | (a, Some enc) \<Rightarrow>
          alg_components False a \<and> enc \<noteq> [] \<and>
          list_all (\<lambda>c. is_alnum_lower c \<or> c \<in> set ''ABCDEFGHIJKLMNOPQRSTUVWXYZ=_-'') enc)"

definition Validate :: "string \<Rightarrow> go_error option" where
  "Validate s =
     (case SplitN2 CHR '':'' s of
        (a, None) \<Rightarrow> Some ErrDigestInvalidFormat
      | (a, Some encoded) \<Rightarrow>
          (if a = [] \<or> encoded = [] then Some ErrDigestInvalidFormat
           else if \<not> alg_Available a then
             (if \<not> DigestRegexpAnchored s then Some ErrDigestInvalidFormat
              else Some ErrDigestUnsupported)
           else alg_Validate a encoded))"

text \<open>
  The two parts of a digest.  \<open>sepIndex\<close> panics on a string without a colon; the callers
  below use the parts only when \<open>Validate\<close> did not report \<open>ErrDigestInvalidFormat\<close> for a
  missing colon.
\<close>

definition Algorithm :: "string \<Rightarrow> string" where
  "Algorithm d = fst (SplitN2 CHR '':'' d)"

definition Hex :: "string \<Rightarrow> string" where
  "Hex d = (case snd (SplitN2 CHR '':'' d) of None \<Rightarrow> '''' | Some h \<Rightarrow> h)"

definition NewDigestFromHex :: "string \<Rightarrow> string \<Rightarrow> string" where
  "NewDigestFromHex alg hex = alg @ '':'' @ hex"

lemma Validate_None:
  assumes "Validate d = None"
  shows "d = NewDigestFromHex (Algorithm d) (Hex d)" "CHR '':'' \<notin> set (Algorithm d)" "Algorithm d \<noteq> []" "lower_hex (Hex d)"
proof -
  obtain a o1 where sp: "SplitN2 CHR '':'' d = (a, o1)" by fastforce
  with assms obtain h where h: "o1 = Some h" by (cases o1) (simp_all add: Validate_def)
  have d: "d = a @ CHR '':'' # h" "CHR '':'' \<notin> set a" using sp h by (simp_all add: SplitN2_Some)
  have ne: "a \<noteq> []" and ok: "alg_Validate a h = None"
    using assms sp h by (auto simp: Validate_def split: if_splits)
  then have "lower_hex h" by (auto simp: alg_Validate_def split: option.splits if_splits)
  with ne d sp h show "d = NewDigestFromHex (Algorithm d) (Hex d)" "CHR '':'' \<notin> set (Algorithm d)"
    "Algorithm d \<noteq> []" "lower_hex (Hex d)"
    by (simp_all add: Algorithm_def Hex_def NewDigestFromHex_def)
qed

lemma Validate_sep:
  assumes "Validate d \<noteq> Some ErrDigestInvalidFormat"
  shows "CHR '':'' \<in> set d"
proof (rule ccontr)
  assume "CHR '':'' \<notin> set d"
  then have "SplitN2 CHR '':'' d = (d, None)" by simp
  with assms show False by (simp add: Validate_def)
qed

lemma digest_parts [simp]:
  "CHR '':'' \<notin> set a \<Longrightarrow> Algorithm (NewDigestFromHex a h) = a" "CHR '':'' \<notin> set a \<Longrightarrow> Hex (NewDigestFromHex a h) = h"
  by (simp_all add: Algorithm_def Hex_def NewDigestFromHex_def)


section \<open>The set\<close>

record digestEntry =
  deAlg :: string
  deVal :: string
  deDigest :: string

definition ErrDigestNotFound :: go_error where
  "ErrDigestNotFound = Sentinel ''digest not found''"

definition ErrDigestAmbiguous :: go_error where
  "ErrDigestAmbiguous = Sentinel ''ambiguous digest string''"

definition checkShortMatch :: "string \<Rightarrow> string \<Rightarrow> string \<Rightarrow> string \<Rightarrow> bool" where
  "checkShortMatch alg hex shortAlg shortHex =
     (if length hex = length shortHex then
        (if hex \<noteq> shortHex then False
         else if length shortAlg > 0 \<and> alg \<noteq> shortAlg then False
         else True)
      else if \<not> HasPrefix hex shortHex then False
      else if length shortAlg > 0 \<and> alg \<noteq> shortAlg then False
      else True)"

text \<open>The search predicate for a hex value and an algorithm.\<close>

definition entry_ge :: "string \<Rightarrow> string \<Rightarrow> digestEntry \<Rightarrow> bool" where
  "entry_ge hex alg e = (if deVal e = hex then alg \<le> deAlg e else hex \<le> deVal e)"

definition newEntry :: "string \<Rightarrow> digestEntry" where
  "newEntry d = \<lparr>deAlg = Algorithm d, deVal = Hex d, deDigest = d\<rparr>"

definition ds_Lookup :: "digestEntry list \<Rightarrow> string \<Rightarrow> go_error + string" where
  "ds_Lookup es d =
     (if es = [] then Inl ErrDigestNotFound
      else
        let invalid = (Validate d = Some ErrDigestInvalidFormat);
            hex = (if invalid then d else Hex d);
            alg = (if invalid then '''' else Algorithm d);
            searchFunc = (\<lambda>i. if invalid then d \<le> deVal (es ! i) else entry_ge hex alg (es ! i));
            idx = sort_Search (length es) searchFunc
        in
        if idx = length es \<or> \<not> checkShortMatch (deAlg (es ! idx)) (deVal (es ! idx)) alg hex
        then Inl ErrDigestNotFound
        else if deAlg (es ! idx) = alg \<and> deVal (es ! idx) = hex then Inr (deDigest (es ! idx))
        else if idx + 1 < length es \<and> checkShortMatch (deAlg (es ! (idx + 1))) (deVal (es ! (idx + 1))) alg hex
        then Inl ErrDigestAmbiguous
        else Inr (deDigest (es ! idx)))"

definition ds_Add :: "string \<Rightarrow> digestEntry list stmt" where
  "ds_Add d es =
     (case Validate d of
        Some e \<Rightarrow> (Some e, es)
      | None \<Rightarrow>
          let entry = newEntry d;
              idx = sort_Search (length es) (\<lambda>i. entry_ge (deVal entry) (deAlg entry) (es ! i))
          in if idx = length es then (None, es @ [entry])
             else if deDigest (es ! idx) = d then (None, es)
             else (None, take idx es @ entry # drop idx es))"

definition ds_Remove :: "string \<Rightarrow> digestEntry list stmt" where
  "ds_Remove d es =
     (case Validate d of
        Some e \<Rightarrow> (Some e, es)
      | None \<Rightarrow>
          let entry = newEntry d;
              idx = sort_Search (length es) (\<lambda>i. entry_ge (deVal entry) (deAlg entry) (es ! i))
          in if idx = length es \<or> deDigest (es ! idx) \<noteq> d then (None, es)
             else (None, take idx es @ drop (idx + 1) es))"

definition ds_All :: "digestEntry list \<Rightarrow> string list" where
  "ds_All es = map deDigest es"

section \<open>The invariant and the abstract set\<close>

definition entry_less :: "digestEntry \<Rightarrow> digestEntry \<Rightarrow> bool" where
  "entry_less e e' \<longleftrightarrow> deVal e < deVal e' \<or> deVal e = deVal e' \<and> deAlg e < deAlg e'"

definition ds_inv :: "digestEntry list \<Rightarrow> bool" where
  "ds_inv es \<longleftrightarrow> sorted_wrt entry_less es \<and>
     (\<forall>e \<in> set es. Validate (deDigest e) = None \<and> e = newEntry (deDigest e))"

definition ds_set :: "digestEntry list \<Rightarrow> string set" where
  "ds_set es = deDigest ` set es"

lemma ds_inv_Nil [simp]: "ds_inv []" "ds_set [] = {}"
  by (simp_all add: ds_inv_def ds_set_def)

lemma entry_ge_iff: "entry_ge h a e \<longleftrightarrow> \<not> entry_less e \<lparr>deAlg = a, deVal = h, deDigest = x\<rparr>"
  by (auto simp: entry_ge_def entry_less_def)

lemma entry_less_trans: "entry_less x y \<Longrightarrow> entry_less y z \<Longrightarrow> entry_less x z"
  by (auto simp: entry_less_def)

lemma entry_ge_mono: "\<forall>x y. entry_less x y \<longrightarrow> entry_ge h a x \<longrightarrow> entry_ge h a y"
  by (auto simp: entry_less_def entry_ge_def split: if_splits)

text \<open>Where the search for a valid digest ends: everything before is smaller, and the digest
  is in the set exactly when it is at the position found.\<close>

lemma ds_position:
  assumes inv: "ds_inv es" and d: "Validate d = None"
  defines "k \<equiv> sort_Search (length es) (\<lambda>i. entry_ge (Hex d) (Algorithm d) (es ! i))"
  shows "k \<le> length es" "\<forall>e \<in> set (take k es). entry_less e (newEntry d)"
    "\<forall>e \<in> set (drop k es). e = newEntry d \<or> entry_less (newEntry d) e"
    "d \<in> ds_set es \<longleftrightarrow> k < length es \<and> deDigest (es ! k) = d"
proof -
  have sorted: "sorted_wrt entry_less es" and ok: "\<And>e. e \<in> set es \<Longrightarrow> Validate (deDigest e) = None \<and> e = newEntry (deDigest e)"
    using inv by (auto simp: ds_inv_def)
  note sp = sort_Search_split [of entry_less es "entry_ge (Hex d) (Algorithm d)", OF sorted entry_ge_mono, folded k_def]
  show k: "k \<le> length es" by (rule sp(1))
  show small: "\<forall>e \<in> set (take k es). entry_less e (newEntry d)"
    using sp(2) entry_ge_iff [of "Hex d" "Algorithm d" _ d] by (simp add: newEntry_def)
  have eq: "e = newEntry d" if "e \<in> set es" "deVal e = Hex d" "deAlg e = Algorithm d" for e
  proof -
    have "deDigest e = NewDigestFromHex (deAlg e) (deVal e)"
      using ok [OF that(1)] Validate_None(1) [of "deDigest e"] by (metis digestEntry.select_convs(1,2) newEntry_def)
    then have "deDigest e = d" using that(2,3) Validate_None(1) [OF d] by simp
    with ok [OF that(1)] show ?thesis by simp
  qed
  show big: "\<forall>e \<in> set (drop k es). e = newEntry d \<or> entry_less (newEntry d) e"
  proof
    fix e assume e: "e \<in> set (drop k es)"
    then have es: "e \<in> set es" using in_set_dropD by fast
    have "entry_ge (Hex d) (Algorithm d) e" using sp(3) e by blast
    then show "e = newEntry d \<or> entry_less (newEntry d) e"
      using eq [OF es] by (fastforce simp: entry_ge_def entry_less_def newEntry_def split: if_splits)
  qed
  have irrefl: "\<not> entry_less e e" for e by (simp add: entry_less_def)
  show "d \<in> ds_set es \<longleftrightarrow> k < length es \<and> deDigest (es ! k) = d"
  proof
    assume "d \<in> ds_set es"
    then obtain e where e: "e \<in> set es" "e = newEntry d" using ok by (force simp: ds_set_def)
    then have "e \<in> set (drop k es)"
      using small irrefl by (metis Un_iff append_take_drop_id set_append)
    then have "drop k es \<noteq> []" by auto
    then have kl: "k < length es" by simp
    then have hd: "drop k es = es ! k # drop (Suc k) es" by (simp add: Cons_nth_drop_Suc)
    have "sorted_wrt entry_less (drop k es)" using sorted by (rule sorted_wrt_drop)
    then have "es ! k = newEntry d"
      using big e \<open>e \<in> set (drop k es)\<close> irrefl entry_less_trans unfolding hd
      by (metis list.set_intros(1) set_ConsD sorted_wrt.simps(2))
    with kl show "k < length es \<and> deDigest (es ! k) = d" by (simp add: newEntry_def)
  next
    assume "k < length es \<and> deDigest (es ! k) = d"
    then show "d \<in> ds_set es" by (force simp: ds_set_def)
  qed
qed

lemma ds_Add_refines:
  assumes inv: "ds_inv es" and d: "Validate d = None"
  shows "\<exists>es'. ds_Add d es = (None, es') \<and> ds_inv es' \<and> ds_set es' = insert d (ds_set es)"
proof -
  define k where "k = sort_Search (length es) (\<lambda>i. entry_ge (Hex d) (Algorithm d) (es ! i))"
  note pos = ds_position [OF inv d, folded k_def]
  define es' where "es' = (if d \<in> ds_set es then es else take k es @ newEntry d # drop k es)"
  have new: "newEntry d \<notin> set (drop k es)" if "d \<notin> ds_set es"
    using that by (force simp: ds_set_def newEntry_def dest: in_set_dropD)
  have run: "ds_Add d es = (None, es')"
    using pos(1,4) d by (auto simp: ds_Add_def Let_def newEntry_def k_def [symmetric] es'_def)
  have "sorted_wrt entry_less (take k es)" "sorted_wrt entry_less (drop k es)"
    using inv by (simp_all add: ds_inv_def sorted_wrt_take sorted_wrt_drop)
  moreover have "\<forall>e \<in> set (drop k es). entry_less (newEntry d) e" if "d \<notin> ds_set es" using pos(3) new [OF that] by auto
  ultimately have "sorted_wrt entry_less es'"
    using pos(2) inv by (auto simp: es'_def ds_inv_def sorted_wrt_append intro: entry_less_trans)
  moreover have set': "set es' = insert (newEntry d) (set es)" if "d \<notin> ds_set es"
    using that by (simp add: es'_def) (metis append_take_drop_id set_append)
  ultimately have "ds_inv es'"
    using inv d by (cases "d \<in> ds_set es") (auto simp: ds_inv_def es'_def newEntry_def dest: in_set_takeD in_set_dropD)
  moreover have "ds_set es' = insert d (ds_set es)"
    using set' by (cases "d \<in> ds_set es") (auto simp: ds_set_def es'_def newEntry_def)
  ultimately show ?thesis using run by blast
qed

lemma ds_Remove_refines:
  assumes inv: "ds_inv es" and d: "Validate d = None"
  shows "\<exists>es'. ds_Remove d es = (None, es') \<and> ds_inv es' \<and> ds_set es' = ds_set es - {d}"
proof -
  define k where "k = sort_Search (length es) (\<lambda>i. entry_ge (Hex d) (Algorithm d) (es ! i))"
  note pos = ds_position [OF inv d, folded k_def]
  show ?thesis
  proof (cases "d \<in> ds_set es")
    case False
    then have "ds_Remove d es = (None, es)"
      using pos(1,4) d by (auto simp: ds_Remove_def Let_def newEntry_def k_def [symmetric])
    with inv False show ?thesis by auto
  next
    case True
    then have k: "k < length es" "deDigest (es ! k) = d" using pos(4) by auto
    define es' where "es' = take k es @ drop (k + 1) es"
    have run: "ds_Remove d es = (None, es')"
      using k d by (simp add: ds_Remove_def Let_def newEntry_def k_def [symmetric] es'_def)
    have split: "es = take k es @ es ! k # drop (k + 1) es" using k(1) by (simp add: id_take_nth_drop)
    have srt: "sorted_wrt entry_less (take k es @ es ! k # drop (k + 1) es)" using inv split by (metis ds_inv_def)
    then have "sorted_wrt entry_less es'" by (simp add: es'_def sorted_wrt_append)
    then have "ds_inv es'" using inv by (auto simp: ds_inv_def es'_def dest: in_set_takeD in_set_dropD)
    moreover have "es ! k \<notin> set es'"
      using srt by (force simp: es'_def sorted_wrt_append entry_less_def)
    then have "ds_set es' = ds_set es - {d}"
    proof -
      have ok: "e = newEntry (deDigest e)" if "e \<in> set es" for e using inv that by (simp add: ds_inv_def)
      have "set es = insert (es ! k) (set es')" using arg_cong [OF split, of set] by (simp add: es'_def)
      moreover have "deDigest e \<noteq> d" if "e \<in> set es'" for e
        using ok [of e] ok [of "es ! k"] that k \<open>es ! k \<notin> set es'\<close> calculation by (metis insertCI nth_mem)
      ultimately show ?thesis using k(2) by (auto simp: ds_set_def)
    qed
    ultimately show ?thesis using run by blast
  qed
qed

section \<open>Resolving short identifiers\<close>

lemma prefix_le: "HasPrefix v d \<Longrightarrow> d \<le> v"
  by (induction v d rule: HasPrefix.induct) auto

lemma prefix_between: "HasPrefix u d \<Longrightarrow> d \<le> v \<Longrightarrow> v \<le> u \<Longrightarrow> HasPrefix v d"
proof (induction u d arbitrary: v rule: HasPrefix.induct)
  case (3 c cs p ps)
  then show ?case by (cases v) auto
qed auto

lemma checkShortMatch_short: "checkShortMatch alg hex '''' short \<longleftrightarrow> HasPrefix hex short"
  by (auto simp: checkShortMatch_def HasPrefix_iff)

text \<open>The entries whose hex value starts with \<open>d\<close> follow each other from the position found.\<close>

lemma short_position:
  fixes d :: string
  assumes inv: "ds_inv es"
  defines "k \<equiv> sort_Search (length es) (\<lambda>i. d \<le> deVal (es ! i))"
  shows "k \<le> length es" "\<forall>e \<in> set (take k es). \<not> HasPrefix (deVal e) d"
    "sorted_wrt entry_less (drop k es)" "\<forall>e \<in> set (drop k es). d \<le> deVal e"
proof -
  have sorted: "sorted_wrt entry_less es" using inv by (simp add: ds_inv_def)
  have mono: "\<forall>x y. entry_less x y \<longrightarrow> d \<le> deVal x \<longrightarrow> d \<le> deVal y" by (auto simp: entry_less_def)
  note sp = sort_Search_split [of entry_less es "\<lambda>e. d \<le> deVal e", OF sorted mono, folded k_def]
  from sp show "k \<le> length es" "\<forall>e \<in> set (drop k es). d \<le> deVal e" by blast+
  show "\<forall>e \<in> set (take k es). \<not> HasPrefix (deVal e) d" using sp(2) prefix_le by blast
  show "sorted_wrt entry_less (drop k es)" using sorted by (rule sorted_wrt_drop)
qed

lemma no_later_match:
  assumes "sorted_wrt entry_less (e # es)" "d \<le> deVal e" "\<not> HasPrefix (deVal e) d"
  shows "\<forall>f \<in> set es. \<not> HasPrefix (deVal f) d"
proof
  fix f assume "f \<in> set es"
  then have "deVal e \<le> deVal f" using assms(1) by (auto simp: entry_less_def)
  then show "\<not> HasPrefix (deVal f) d" using prefix_between [of "deVal f" d "deVal e"] assms(2,3) by blast
qed

definition short_matches :: "digestEntry list \<Rightarrow> string \<Rightarrow> digestEntry list" where
  "short_matches es d = filter (\<lambda>e. HasPrefix (deVal e) d) es"

text \<open>\<open>Lookup\<close> of a string that is not a digest, in terms of all the entries it matches.\<close>

lemma ds_Lookup_short:
  assumes inv: "ds_inv es" and d: "Validate d = Some ErrDigestInvalidFormat"
  shows "ds_Lookup es d =
    (case short_matches es d of [] \<Rightarrow> Inl ErrDigestNotFound | [e] \<Rightarrow> Inr (deDigest e) | _ \<Rightarrow> Inl ErrDigestAmbiguous)"
proof -
  define k where "k = sort_Search (length es) (\<lambda>i. d \<le> deVal (es ! i))"
  note pos = short_position [OF inv, of d, folded k_def]
  have m: "short_matches es d = filter (\<lambda>e. HasPrefix (deVal e) d) (drop k es)"
    using pos(2) append_take_drop_id [of k es]
    by (metis (no_types, lifting) append_self_conv2 filter_False filter_append short_matches_def)
  have alg: "deAlg e \<noteq> ''''" if "e \<in> set es" for e
    using inv that Validate_None(3) by (metis digestEntry.select_convs(1) ds_inv_def newEntry_def)
  have run: "ds_Lookup es d =
      (if k = length es \<or> \<not> HasPrefix (deVal (es ! k)) d then Inl ErrDigestNotFound
       else if k + 1 < length es \<and> HasPrefix (deVal (es ! (k + 1))) d then Inl ErrDigestAmbiguous
       else Inr (deDigest (es ! k)))"
  proof (cases "es = []")
    case True
    then have "k = length es" using pos(1) by simp
    with True show ?thesis by (simp add: ds_Lookup_def)
  next
    case False
    have "deAlg (es ! k) \<noteq> ''''" if "k \<noteq> length es" using alg that pos(1) by simp
    with False d show ?thesis
      by (simp add: ds_Lookup_def Let_def k_def [symmetric] checkShortMatch_short)
  qed
  show ?thesis
  proof (cases "drop k es")
    case Nil
    then have "k = length es" using pos(1) by simp
    with Nil m run show ?thesis by simp
  next
    case (Cons e rest)
    then have k: "k < length es" "es ! k = e" "rest = drop (k + 1) es"
      by (metis drop_all leI list.distinct(1), metis Cons_nth_drop_Suc drop_all leI list.distinct(1) list.inject local.Cons,
        metis drop_Suc list.sel(3) Suc_eq_plus1 drop_Suc tl_drop local.Cons)
    note sorted = pos(3) [unfolded Cons]
    show ?thesis
    proof (cases "HasPrefix (deVal e) d")
      case False
      with no_later_match [OF sorted _ False] pos(4) Cons have "short_matches es d = []" by (simp add: m filter_empty_conv)
      with False k run show ?thesis by simp
    next
      case True
      show ?thesis
      proof (cases rest)
        case Nil
        then have "\<not> k + 1 < length es" using k(3) by simp
        with True Nil Cons k run m show ?thesis by simp
      next
        case (Cons f more)
        then have f: "k + 1 < length es" "es ! (k + 1) = f" using k(3)
          by (metis drop_all leI list.distinct(1), metis nth_via_drop)
        show ?thesis
        proof (cases "HasPrefix (deVal f) d")
          case True
          with \<open>HasPrefix (deVal e) d\<close> \<open>drop k es = e # rest\<close> Cons f k run m show ?thesis by simp
        next
          case False
          have "filter (\<lambda>e. HasPrefix (deVal e) d) rest = []"
            using no_later_match [of f more d] sorted pos(4) \<open>drop k es = e # rest\<close> Cons False
            by (simp add: filter_empty_conv)
          with \<open>HasPrefix (deVal e) d\<close> \<open>drop k es = e # rest\<close> False f k run m show ?thesis by simp
        qed
      qed
    qed
  qed
qed

lemma checkShortMatch_refl [simp]: "checkShortMatch a h a h"
  by (simp add: checkShortMatch_def)

lemma Validate_length:
  assumes "Validate d = None"
  shows "alg_Size (Algorithm d) = Some n \<Longrightarrow> length (Hex d) = n * 2" "alg_Size (Algorithm d) \<noteq> None"
proof -
  obtain a o1 where sp: "SplitN2 CHR '':'' d = (a, o1)" by fastforce
  with assms obtain h where h: "o1 = Some h" by (cases o1) (simp_all add: Validate_def)
  have "alg_Validate a h = None"
    using assms sp h by (auto simp: Validate_def split: if_splits)
  then show "alg_Size (Algorithm d) = Some n \<Longrightarrow> length (Hex d) = n * 2" "alg_Size (Algorithm d) \<noteq> None"
    using sp h by (auto simp: alg_Validate_def Algorithm_def Hex_def split: option.splits if_splits)
qed

text \<open>\<open>Lookup\<close> of a full digest is membership.\<close>

lemma ds_Lookup_full:
  assumes inv: "ds_inv es" and d: "Validate d = None"
  shows "ds_Lookup es d = (if d \<in> ds_set es then Inr d else Inl ErrDigestNotFound)"
proof (cases "es = []")
  case True
  then show ?thesis by (simp add: ds_Lookup_def)
next
  case False
  define k where "k = sort_Search (length es) (\<lambda>i. entry_ge (Hex d) (Algorithm d) (es ! i))"
  note pos = ds_position [OF inv d, folded k_def]
  have nomatch: "\<not> checkShortMatch (deAlg (es ! k)) (deVal (es ! k)) (Algorithm d) (Hex d)"
    if k: "k < length es" "deDigest (es ! k) \<noteq> d"
  proof
    let ?x = "deDigest (es ! k)"
    assume m: "checkShortMatch (deAlg (es ! k)) (deVal (es ! k)) (Algorithm d) (Hex d)"
    have ok: "Validate ?x = None" and e0: "es ! k = newEntry ?x"
      using inv nth_mem [OF k(1)] unfolding ds_inv_def by blast+
    have e: "deAlg (es ! k) = Algorithm ?x" "deVal (es ! k) = Hex ?x"
      using arg_cong [OF e0, of deAlg] arg_cong [OF e0, of deVal] unfolding newEntry_def by simp_all
    have "Algorithm d \<noteq> ''''" using Validate_None(3) [OF d] .
    with m have alg: "Algorithm ?x = Algorithm d" by (auto simp: checkShortMatch_def e split: if_splits)
    then have "length (Hex ?x) = length (Hex d)" using Validate_length [OF ok] Validate_length [OF d] by auto
    with m have "Hex ?x = Hex d" by (auto simp: checkShortMatch_def e split: if_splits)
    with alg have "?x = d" using Validate_None(1) [OF ok] Validate_None(1) [OF d] by simp
    with k(2) show False ..
  qed
  have hit: "checkShortMatch (deAlg (es ! k)) (deVal (es ! k)) (Algorithm d) (Hex d) \<and>
      deAlg (es ! k) = Algorithm d \<and> deVal (es ! k) = Hex d" if k: "k < length es" "deDigest (es ! k) = d"
  proof -
    have "es ! k = newEntry d" using inv nth_mem [OF k(1)] k(2) by (metis ds_inv_def)
    then show ?thesis by (simp add: newEntry_def checkShortMatch_def)
  qed
  show ?thesis
  proof (cases "d \<in> ds_set es")
    case True
    then have k: "k < length es" "deDigest (es ! k) = d" using pos(4) by auto
    with hit [OF k] True False d show ?thesis by (simp add: ds_Lookup_def Let_def k_def [symmetric])
  next
    case notin: False
    then have "k = length es \<or> \<not> checkShortMatch (deAlg (es ! k)) (deVal (es ! k)) (Algorithm d) (Hex d)"
      using pos(1,4) nomatch by force
    with notin False d show ?thesis by (simp add: ds_Lookup_def Let_def k_def [symmetric])
  qed
qed

section \<open>The interface of a digest set\<close>

text \<open>What a client relies on: a set of valid digests with exact lookup.\<close>

locale digest_index =
  fixes add remove :: "string \<Rightarrow> 's stmt" and lookup :: "'s \<Rightarrow> string \<Rightarrow> go_error + string"
    and inv :: "'s \<Rightarrow> bool" and elems :: "'s \<Rightarrow> string set"
  assumes add_law: "inv s \<Longrightarrow> Validate d = None \<Longrightarrow> \<exists>s'. add d s = (None, s') \<and> inv s' \<and> elems s' = insert d (elems s)"
    and remove_law: "inv s \<Longrightarrow> Validate d = None \<Longrightarrow> \<exists>s'. remove d s = (None, s') \<and> inv s' \<and> elems s' = elems s - {d}"
    and lookup_law: "inv s \<Longrightarrow> Validate d = None \<Longrightarrow> lookup s d = (if d \<in> elems s then Inr d else Inl ErrDigestNotFound)"
begin

lemma add_then_lookup:
  "inv s \<Longrightarrow> Validate d = None \<Longrightarrow> Validate d' = None \<Longrightarrow>
   lookup (snd (add d s)) d' = (if d' = d then Inr d else lookup s d')"
  using add_law [of s d] lookup_law by fastforce

lemma remove_then_lookup:
  "inv s \<Longrightarrow> Validate d = None \<Longrightarrow> Validate d' = None \<Longrightarrow>
   lookup (snd (remove d s)) d' = (if d' = d then Inl ErrDigestNotFound else lookup s d')"
  using remove_law [of s d] lookup_law by fastforce

end

interpretation dsi: digest_index ds_Add ds_Remove ds_Lookup ds_inv ds_set
  by unfold_locales (fact ds_Add_refines ds_Remove_refines ds_Lookup_full)+

section \<open>Properties\<close>

text \<open>
  C29: The sorted slice behaves as a set of digests: from any well-formed slice, adding or
  removing a valid digest succeeds, keeps the slice sorted and free of duplicates and has
  the effect of set insertion or deletion, and looking up a full digest is membership.
\<close>

theorem digest_set_refines:
  assumes "ds_inv es" and "Validate d = None"
  shows "(\<exists>es'. ds_Add d es = (None, es') \<and> ds_inv es' \<and> ds_set es' = insert d (ds_set es)) \<and>
    (\<exists>es'. ds_Remove d es = (None, es') \<and> ds_inv es' \<and> ds_set es' = ds_set es - {d}) \<and>
    ds_Lookup es d = (if d \<in> ds_set es then Inr d else Inl ErrDigestNotFound)"
  using assms by (auto intro: dsi.add_law dsi.remove_law simp: dsi.lookup_law)

definition demo_hex :: "char \<Rightarrow> string" where
  "demo_hex c = ''sha256:'' @ replicate 64 c"

lemma demo_hex_valid: "Validate (demo_hex CHR ''a'') = None" "Validate (demo_hex CHR ''b'') = None"
  by (simp_all add: demo_hex_def Validate_def alg_Available_def alg_Size_def alg_Validate_def lower_hex_def
      list_all_iff)

theorem digest_set_refines_witness:
  "ds_Lookup (snd (ds_Add (demo_hex CHR ''b'') [newEntry (demo_hex CHR ''a'')])) (demo_hex CHR ''a'') = Inr (demo_hex CHR ''a'')"
proof -
  have inv: "ds_inv [newEntry (demo_hex CHR ''a'')]" by (simp add: ds_inv_def newEntry_def demo_hex_valid)
  obtain es' where es': "ds_Add (demo_hex CHR ''b'') [newEntry (demo_hex CHR ''a'')] = (None, es')" "ds_inv es'"
    "ds_set es' = insert (demo_hex CHR ''b'') (ds_set [newEntry (demo_hex CHR ''a'')])"
    using digest_set_refines [OF inv demo_hex_valid(2)] by blast
  have "demo_hex CHR ''a'' \<in> ds_set es'" unfolding es'(3) by (simp add: ds_set_def newEntry_def)
  with digest_set_refines [OF es'(2) demo_hex_valid(1)] es'(1) show ?thesis by simp
qed

text \<open>
  C23: A short identifier resolves to a digest exactly when it is a prefix of the hex value of
  that digest and of no other; it is reported as unknown when it matches none and as
  ambiguous when it matches several.
\<close>

theorem short_id_lookup:
  assumes "ds_inv es" and "Validate d = Some ErrDigestInvalidFormat"
  shows "ds_Lookup es d =
    (case short_matches es d of [] \<Rightarrow> Inl ErrDigestNotFound | [e] \<Rightarrow> Inr (deDigest e) | _ \<Rightarrow> Inl ErrDigestAmbiguous)"
  by (rule ds_Lookup_short [OF assms])

lemma demo_hex_Hex: "Hex (demo_hex c) = c # c # replicate 62 c"
  by (simp add: demo_hex_def Hex_def numeral_eq_Suc)

lemma demo_ds_inv: "ds_inv [newEntry (demo_hex CHR ''a''), newEntry (demo_hex CHR ''b'')]"
  by (simp add: ds_inv_def newEntry_def demo_hex_valid entry_less_def demo_hex_Hex less_char_def)

theorem short_id_lookup_witness:
  "ds_Lookup [newEntry (demo_hex CHR ''a''), newEntry (demo_hex CHR ''b'')] ''bb'' = Inr (demo_hex CHR ''b'')"
proof -
  have d: "Validate ''bb'' = Some ErrDigestInvalidFormat" by (simp add: Validate_def)
  show ?thesis unfolding short_id_lookup [OF demo_ds_inv d]
    by (simp add: short_matches_def newEntry_def demo_hex_Hex)
qed

end
