(* ===== verification/Image_Config.thy ===== *)
theory Image_Config
  imports Container_Config Layer_Store Digest_Set
begin

text \<open>
  Image configurations (\<open>engine/image/image.go\<close>, \<open>rootfs.go\<close>) and the operating system check
  of \<open>pkg/system/lcow.go\<close>.  The JSON package is outside the model: it appears as a
  parameter where a configuration is read or written.
\<close>

section \<open>Images\<close>

record History =
  hCreated :: string
  hAuthor :: string
  hCreatedBy :: string
  hComment :: string
  hEmptyLayer :: bool

record RootFS =
  rType :: string
  DiffIDs :: "string list"

record Image =
  imgID :: string
  v1Parent :: string
  imgComment :: string
  imgCreated :: string
  imgContainer :: string
  imgContainerConfig :: Config
  DockerVersion :: string
  imgAuthor :: string
  imgConfig :: "Config option"
  Architecture :: string
  imgOS :: string
  imgSize :: int
  imgParent :: string
  imgRootFS :: "RootFS option"
  imgHistory :: "History list"
  OSVersion :: string
  OSFeatures :: "string list"
  rawJSON :: string
  computedID :: string

definition TypeLayers :: string where
  "TypeLayers = ''layers''"

definition NewRootFS :: RootFS where
  "NewRootFS = \<lparr>rType = TypeLayers, DiffIDs = []\<rparr>"

text \<open>The zero value of the struct, which \<open>new(image.Image)\<close> yields.\<close>

definition zero_Image :: Image where
  "zero_Image =
     \<lparr>imgID = '''', v1Parent = '''', imgComment = '''', imgCreated = '''', imgContainer = '''',
      imgContainerConfig = empty_Config, DockerVersion = '''', imgAuthor = '''', imgConfig = None,
      Architecture = '''', imgOS = '''', imgSize = 0, imgParent = '''', imgRootFS = None,
      imgHistory = [], OSVersion = '''', OSFeatures = [], rawJSON = '''', computedID = ''''\<rparr>"

definition RootFS_Append :: "RootFS \<Rightarrow> string \<Rightarrow> RootFS" where
  "RootFS_Append r d = r\<lparr>DiffIDs := DiffIDs r @ [d]\<rparr>"

text \<open>\<open>Clone\<close> as a value; the slice it returns shares its array with the original's.\<close>

definition RootFS_Clone :: "RootFS \<Rightarrow> RootFS" where
  "RootFS_Clone r = NewRootFS\<lparr>rType := rType r, DiffIDs := DiffIDs r\<rparr>"

definition RootFS_ChainID :: "(string \<Rightarrow> string) \<Rightarrow> RootFS \<Rightarrow> string" where
  "RootFS_ChainID fromBytes r =
     (if GOOS = ''windows'' \<and> rType r = ''layers+base'' then '''' else CreateChainID fromBytes (DiffIDs r))"

definition GOARCH :: string where
  "GOARCH = ''amd64''"

definition BaseImgArch :: "Image \<Rightarrow> string" where
  "BaseImgArch i = (if Architecture i = '''' then GOARCH else Architecture i)"

definition OperatingSystem :: "Image \<Rightarrow> string" where
  "OperatingSystem i = (if imgOS i = '''' then GOOS else imgOS i)"

text \<open>\<open>strings.EqualFold\<close> on ASCII input, and the check on a Linux daemon.\<close>

definition EqualFold :: "string \<Rightarrow> string \<Rightarrow> bool" where
  "EqualFold s t \<longleftrightarrow> ToLower s = ToLower t"

definition LCOWSupported :: bool where
  "LCOWSupported = False"

definition IsOSSupported :: "string \<Rightarrow> bool" where
  "IsOSSupported os \<longleftrightarrow> EqualFold GOOS os \<or> (LCOWSupported \<and> EqualFold os ''linux'')"

definition NewHistory :: "string \<Rightarrow> string \<Rightarrow> string \<Rightarrow> string \<Rightarrow> bool \<Rightarrow> History" where
  "NewHistory now author comment createdBy isEmptyLayer =
     \<lparr>hCreated = now, hAuthor = author, hCreatedBy = createdBy, hComment = comment,
      hEmptyLayer = isEmptyLayer\<rparr>"

record ChildConfig =
  ccContainerID :: string
  ccAuthor :: string
  ccComment :: string
  ccDiffID :: string
  ccContainerConfig :: Config
  ccConfig :: "Config option"

fun join_space :: "string list \<Rightarrow> string" where
  "join_space [] = ''''"
| "join_space [x] = x"
| "join_space (x # xs) = x @ '' '' @ join_space xs"

definition NewChildImage :: "string \<Rightarrow> string \<Rightarrow> Image \<Rightarrow> ChildConfig \<Rightarrow> string \<Rightarrow> Image" where
  "NewChildImage version now img child platform =
     (let isEmptyLayer = IsEmpty (ccDiffID child);
          rootFS0 = (case imgRootFS img of Some r \<Rightarrow> RootFS_Clone r | None \<Rightarrow> NewRootFS);
          rootFS = (if \<not> isEmptyLayer then RootFS_Append rootFS0 (ccDiffID child) else rootFS0);
          h = NewHistory now (ccAuthor child) (ccComment child) (join_space (Cmd (ccContainerConfig child))) isEmptyLayer
      in zero_Image
          \<lparr>DockerVersion := version, imgConfig := ccConfig child, Architecture := BaseImgArch img,
           imgOS := platform, imgContainer := ccContainerID child, imgContainerConfig := ccContainerConfig child,
           imgAuthor := ccAuthor child, imgCreated := hCreated h, imgRootFS := Some rootFS,
           imgHistory := imgHistory img @ [h], OSFeatures := OSFeatures img, OSVersion := OSVersion img\<rparr>)"

definition NewFromJSON :: "(string \<Rightarrow> go_error + Image) \<Rightarrow> string \<Rightarrow> go_error + Image" where
  "NewFromJSON unmarshal src =
     (case unmarshal src of
        Inl e \<Rightarrow> Inl e
      | Inr img \<Rightarrow>
          (if imgRootFS img = None then Inl (Errorf ''invalid image JSON, no RootFS key'')
           else Inr (img\<lparr>rawJSON := src\<rparr>)))"

section \<open>History and layers of a child image\<close>

text \<open>The number of history entries that stand for a layer.\<close>

definition layerCount :: "History list \<Rightarrow> nat" where
  "layerCount hs = length (filter (\<lambda>h. \<not> hEmptyLayer h) hs)"

definition diffIDs_of :: "Image \<Rightarrow> string list" where
  "diffIDs_of img = (case imgRootFS img of None \<Rightarrow> [] | Some r \<Rightarrow> DiffIDs r)"

lemma NewChildImage_diffIDs:
  "diffIDs_of (NewChildImage v now img child os) =
     diffIDs_of img @ (if IsEmpty (ccDiffID child) then [] else [ccDiffID child])"
  by (auto simp: diffIDs_of_def NewChildImage_def Let_def RootFS_Append_def RootFS_Clone_def NewRootFS_def
      split: option.split)

lemma NewChildImage_layerCount:
  "layerCount (imgHistory (NewChildImage v now img child os)) =
     layerCount (imgHistory img) + (if IsEmpty (ccDiffID child) then 0 else 1)"
  by (simp add: layerCount_def NewChildImage_def Let_def NewHistory_def)

lemma NewChildImage_os [simp]: "imgOS (NewChildImage v now img child os) = os"
  by (simp add: NewChildImage_def Let_def)


definition demo_child :: ChildConfig where
  "demo_child =
     \<lparr>ccContainerID = ''c'', ccAuthor = '''', ccComment = '''', ccDiffID = ''sha256:a'',
      ccContainerConfig = empty_Config, ccConfig = None\<rparr>"

lemma demo_child_facts:
  "diffIDs_of zero_Image = []" "layerCount (imgHistory zero_Image) = 0" "\<not> IsEmpty (ccDiffID demo_child)"
  by (simp_all add: diffIDs_of_def layerCount_def zero_Image_def demo_child_def IsEmpty_def DigestSHA256EmptyTar_def)


end
