(* ===== verification/Image_FS.thy ===== *)
theory Image_FS
  imports Image_Config
begin

text \<open>
  The file system backend of the image store (\<open>engine/image/fs.go\<close>) and the interface
  \<open>StoreBackend\<close> it implements.  Content files and metadata directories are named by the
  digest, so the state is two maps keyed by digests and the outside world.
\<close>

section \<open>The interface\<close>

text \<open>
  A value of the Go interface is a record of its methods.  \<open>Walk\<close> lists the directory before
  it calls back, so it is given as the list of valid digests it iterates over.
\<close>

record 's StoreBackend =
  be_Walk :: "'s \<Rightarrow> string list outcome \<times> 's"
  be_Get :: "string \<Rightarrow> 's \<Rightarrow> string outcome \<times> 's"
  be_Set :: "string \<Rightarrow> 's \<Rightarrow> string outcome \<times> 's"
  be_Delete :: "string \<Rightarrow> 's \<Rightarrow> unit outcome \<times> 's"
  be_SetMetadata :: "string \<Rightarrow> string \<Rightarrow> string \<Rightarrow> 's \<Rightarrow> unit outcome \<times> 's"
  be_GetMetadata :: "string \<Rightarrow> string \<Rightarrow> 's \<Rightarrow> string outcome \<times> 's"
  be_DeleteMetadata :: "string \<Rightarrow> string \<Rightarrow> 's \<Rightarrow> unit outcome \<times> 's"

section \<open>The file system implementation\<close>

text \<open>Content names are kept as the list a directory listing returns, in sorted order.\<close>

record 'w imageFS =
  content :: "string \<rightharpoonup> string"
  listing :: "string list"
  imetadata :: "string \<Rightarrow> string \<rightharpoonup> string"
  fsWorld :: 'w

definition fs_os :: "'w env \<Rightarrow> string \<Rightarrow> string \<Rightarrow> 'w imageFS \<Rightarrow> go_error option \<times> 'w imageFS" where
  "fs_os E op path s = (case os_op E op path (fsWorld s) of (r, w) \<Rightarrow> (r, s\<lparr>fsWorld := w\<rparr>))"

text \<open>\<open>contentFile\<close> and \<open>metadataDir\<close> take the digest apart and panic without a separator.\<close>

definition noSep :: "string \<Rightarrow> bool" where
  "noSep dgst \<longleftrightarrow> CHR '':'' \<notin> set dgst"

definition sepPanic :: "'a outcome" where
  "sepPanic = Panic ''no ':' separator in digest''"

definition fs_get :: "'w env \<Rightarrow> string \<Rightarrow> 'w imageFS \<Rightarrow> string outcome \<times> 'w imageFS" where
  "fs_get E dgst s =
     (if noSep dgst then (sepPanic, s)
      else case fs_os E ''ReadFile'' dgst s of
        (Some e, s1) \<Rightarrow> (Err (Wrap (''failed to get digest '' @ dgst) e), s1)
      | (None, s1) \<Rightarrow>
          (case content s1 dgst of
             None \<Rightarrow> (Err (Wrap (''failed to get digest '' @ dgst) ErrNotExist), s1)
           | Some c \<Rightarrow>
               (if FromBytes E c \<noteq> dgst then (Err (Errorf (''failed to verify: '' @ dgst)), s1)
                else (Ok c, s1))))"

definition fs_Set :: "'w env \<Rightarrow> string \<Rightarrow> 'w imageFS \<Rightarrow> string outcome \<times> 'w imageFS" where
  "fs_Set E data s =
     (if data = '''' then (Err (Errorf ''invalid empty data''), s)
      else
        let dgst = FromBytes E data in
        if noSep dgst then (sepPanic, s)
        else case fs_os E ''AtomicWriteFile'' dgst s of
          (Some e, s1) \<Rightarrow> (Err (Wrap ''failed to write digest data'' e), s1)
        | (None, s1) \<Rightarrow>
            (Ok dgst, s1\<lparr>content := (content s1)(dgst \<mapsto> data),
                        listing := (if dgst \<in> set (listing s1) then listing s1 else insort dgst (listing s1))\<rparr>))"

definition fs_Delete :: "'w env \<Rightarrow> string \<Rightarrow> 'w imageFS \<Rightarrow> unit outcome \<times> 'w imageFS" where
  "fs_Delete E dgst s =
     (if noSep dgst then (sepPanic, s)
      else case fs_os E ''RemoveAll'' dgst s of
        (Some e, s1) \<Rightarrow> (Err e, s1)
      | (None, s1) \<Rightarrow>
          (let s2 = s1\<lparr>imetadata := (imetadata s1)(dgst := Map.empty)\<rparr> in
           case fs_os E ''Remove'' dgst s2 of
             (Some e, s3) \<Rightarrow> (Err e, s3)
           | (None, s3) \<Rightarrow>
               (case content s3 dgst of
                  None \<Rightarrow> (Err ErrNotExist, s3)
                | Some c \<Rightarrow>
                    (Ok (), s3\<lparr>content := (content s3)(dgst := None), listing := removeAll dgst (listing s3)\<rparr>))))"

definition fs_SetMetadata :: "'w env \<Rightarrow> string \<Rightarrow> string \<Rightarrow> string \<Rightarrow> 'w imageFS \<Rightarrow> unit outcome \<times> 'w imageFS" where
  "fs_SetMetadata E dgst key data s =
     (case fs_get E dgst s of
        (Panic m, s1) \<Rightarrow> (Panic m, s1)
      | (Err e, s1) \<Rightarrow> (Err e, s1)
      | (Ok c, s1) \<Rightarrow>
          (case fs_os E ''MkdirAll'' dgst s1 of
             (Some e, s2) \<Rightarrow> (Err e, s2)
           | (None, s2) \<Rightarrow>
               (case fs_os E ''AtomicWriteFile'' key s2 of
                  (Some e, s3) \<Rightarrow> (Err e, s3)
                | (None, s3) \<Rightarrow>
                    (Ok (), s3\<lparr>imetadata := (imetadata s3)(dgst := (imetadata s3 dgst)(key \<mapsto> data))\<rparr>))))"

definition fs_GetMetadata :: "'w env \<Rightarrow> string \<Rightarrow> string \<Rightarrow> 'w imageFS \<Rightarrow> string outcome \<times> 'w imageFS" where
  "fs_GetMetadata E dgst key s =
     (case fs_get E dgst s of
        (Panic m, s1) \<Rightarrow> (Panic m, s1)
      | (Err e, s1) \<Rightarrow> (Err e, s1)
      | (Ok c, s1) \<Rightarrow>
          (case fs_os E ''ReadFile'' key s1 of
             (Some e, s2) \<Rightarrow> (Err (Wrap ''failed to read metadata'' e), s2)
           | (None, s2) \<Rightarrow>
               (case imetadata s2 dgst key of
                  None \<Rightarrow> (Err (Wrap ''failed to read metadata'' ErrNotExist), s2)
                | Some v \<Rightarrow> (Ok v, s2))))"

definition fs_DeleteMetadata :: "'w env \<Rightarrow> string \<Rightarrow> string \<Rightarrow> 'w imageFS \<Rightarrow> unit outcome \<times> 'w imageFS" where
  "fs_DeleteMetadata E dgst key s =
     (if noSep dgst then (sepPanic, s)
      else case fs_os E ''RemoveAll'' key s of
        (Some e, s1) \<Rightarrow> (Err e, s1)
      | (None, s1) \<Rightarrow> (Ok (), s1\<lparr>imetadata := (imetadata s1)(dgst := (imetadata s1 dgst)(key := None))\<rparr>))"

definition fs_Walk :: "'w env \<Rightarrow> 'w imageFS \<Rightarrow> string list outcome \<times> 'w imageFS" where
  "fs_Walk E s =
     (case fs_os E ''ReadDir'' ''content'' s of
        (Some e, s1) \<Rightarrow> (Err e, s1)
      | (None, s1) \<Rightarrow> (Ok (filter (\<lambda>d. Algorithm d = ''sha256'' \<and> Validate d = None) (listing s1)), s1))"

definition fs_backend :: "'w env \<Rightarrow> 'w imageFS StoreBackend" where
  "fs_backend E =
     \<lparr>be_Walk = fs_Walk E, be_Get = fs_get E, be_Set = fs_Set E, be_Delete = fs_Delete E,
      be_SetMetadata = fs_SetMetadata E, be_GetMetadata = fs_GetMetadata E,
      be_DeleteMetadata = fs_DeleteMetadata E\<rparr>"

section \<open>The contract of a backend\<close>

text \<open>
  What the image store relies on.  \<open>body\<close> and \<open>attr\<close> are the stored contents and metadata; a
  read changes neither and returns what is stored, contents match their digest, and a write
  that reports success has taken effect, while one that fails changes nothing.
\<close>

locale store_backend =
  fixes B :: "'s StoreBackend" and fromBytes :: "string \<Rightarrow> string"
    and body :: "'s \<Rightarrow> string \<rightharpoonup> string" and attr :: "'s \<Rightarrow> string \<Rightarrow> string \<rightharpoonup> string"
  assumes get_frame: "be_Get B d s = (r, s') \<Longrightarrow> body s' = body s \<and> attr s' = attr s"
    and get_ok: "be_Get B d s = (Ok c, s') \<Longrightarrow> body s d = Some c \<and> fromBytes c = d"
    and set_ok: "be_Set B c s = (Ok d, s') \<Longrightarrow> d = fromBytes c \<and> body s' = (body s)(d \<mapsto> c) \<and> attr s' = attr s"
    and set_err: "be_Set B c s = (Err e, s') \<Longrightarrow> body s' = body s \<and> attr s' = attr s"
    and getmd_frame: "be_GetMetadata B d k s = (r, s') \<Longrightarrow> body s' = body s \<and> attr s' = attr s"
    and getmd_ok: "be_GetMetadata B d k s = (Ok v, s') \<Longrightarrow> attr s d k = Some v"
    and setmd_ok: "be_SetMetadata B d k v s = (Ok (), s') \<Longrightarrow>
        body s' = body s \<and> attr s' = (attr s)(d := (attr s d)(k \<mapsto> v)) \<and> d \<in> dom (body s)"
    and setmd_err: "be_SetMetadata B d k v s = (Err e, s') \<Longrightarrow> body s' = body s \<and> attr s' = attr s"
begin

text \<open>Content-addressed storage: what \<open>Get\<close> returns is determined by the digest.\<close>

lemma get_determined:
  assumes "inj fromBytes" "be_Get B d s = (Ok c, s1)" "be_Get B d t = (Ok c', t1)"
  shows "c = c'"
  using get_ok [OF assms(2)] get_ok [OF assms(3)] assms(1) by (metis injD)

lemma set_then_get:
  assumes "be_Set B c s = (Ok d, s1)" "be_Get B d s1 = (Ok c', s2)"
  shows "c' = c"
  using set_ok [OF assms(1)] get_ok [OF assms(2)] by (metis fun_upd_same option.inject)

lemma setmd_then_getmd:
  assumes "be_SetMetadata B d k v s = (Ok (), s1)" "be_GetMetadata B d k s1 = (Ok v', s2)"
  shows "v' = v"
  using setmd_ok [OF assms(1)] getmd_ok [OF assms(2)] by (metis fun_upd_same option.inject)

end

lemma fs_os_eq:
  "fs_os E op p s = (fst (os_op E op p (fsWorld s)), s\<lparr>fsWorld := snd (os_op E op p (fsWorld s))\<rparr>)"
  by (simp add: fs_os_def split: prod.split)

lemmas fs_unfold = fs_backend_def fs_os_eq Let_def sepPanic_def fs_get_def fs_Set_def fs_SetMetadata_def
  fs_GetMetadata_def

lemmas fs_splits = option.splits if_splits

interpretation ifs: store_backend "fs_backend E" "FromBytes E" content imetadata for E :: "'w env"
proof unfold_locales
  fix d s r s' assume "be_Get (fs_backend E) d s = (r, s')"
  then show "content s' = content s \<and> imetadata s' = imetadata s" by (auto simp: fs_unfold split: fs_splits)
next
  fix d s c s' assume "be_Get (fs_backend E) d s = (Ok c, s')"
  then show "content s d = Some c \<and> FromBytes E c = d" by (auto simp: fs_unfold split: fs_splits)
next
  fix c s d s' assume "be_Set (fs_backend E) c s = (Ok d, s')"
  then show "d = FromBytes E c \<and> content s' = (content s)(d \<mapsto> c) \<and> imetadata s' = imetadata s"
    by (auto simp: fs_unfold split: fs_splits)
next
  fix c s e s' assume "be_Set (fs_backend E) c s = (Err e, s')"
  then show "content s' = content s \<and> imetadata s' = imetadata s" by (auto simp: fs_unfold split: fs_splits)
next
  fix d k s r s' assume "be_GetMetadata (fs_backend E) d k s = (r, s')"
  then show "content s' = content s \<and> imetadata s' = imetadata s" by (auto simp: fs_unfold split: fs_splits)
next
  fix d k s v s' assume "be_GetMetadata (fs_backend E) d k s = (Ok v, s')"
  then show "imetadata s d k = Some v" by (auto simp: fs_unfold split: fs_splits)
next
  fix d k v s s' assume "be_SetMetadata (fs_backend E) d k v s = (Ok (), s')"
  then show "content s' = content s \<and> imetadata s' = (imetadata s)(d := (imetadata s d)(k \<mapsto> v)) \<and> d \<in> dom (content s)"
    by (auto simp: fs_unfold split: fs_splits)
next
  fix d k v s e s' assume "be_SetMetadata (fs_backend E) d k v s = (Err e, s')"
  then show "content s' = content s \<and> imetadata s' = imetadata s" by (auto simp: fs_unfold split: fs_splits)
qed

end
