(* ===== verification/Layer_Invariant.thy ===== *)
theory Layer_Invariant
  imports Layer_Store
begin

text \<open>
  The invariant of the layer store and its preservation.  The reference count of every
  layer in the map is the number of reference objects handed out for it, plus the number of
  layers in the map that have it as parent, plus the number of mounts on it, plus the
  pending holds \<open>P\<close>: counts taken by an operation that is between two critical sections.
\<close>

named_theorems store_defs \<open>definitions unfolded in the proofs of the store invariant\<close>

section \<open>The invariant\<close>

definition lay :: "'w layerStore \<Rightarrow> addr \<Rightarrow> roLayer" where
  "lay ls a = the (heap ls a)"

abbreviation live :: "'w layerStore \<Rightarrow> addr set" where
  "live ls \<equiv> ran (layerMap ls)"

definition kids :: "'w layerStore \<Rightarrow> addr \<Rightarrow> addr set" where
  "kids ls a = {c \<in> live ls. parent (lay ls c) = Some a}"

definition mountsOn :: "'w layerStore \<Rightarrow> addr \<Rightarrow> string set" where
  "mountsOn ls a = {n \<in> dom (mounts ls). mparent (the (mounts ls n)) = Some a}"

definition chain_eq :: "'w env \<Rightarrow> 'w layerStore \<Rightarrow> roLayer \<Rightarrow> bool" where
  "chain_eq E ls l \<longleftrightarrow>
     (parent l = None \<longrightarrow> chainID l = diffID l) \<and>
     (\<forall>p. parent l = Some p \<longrightarrow>
        chainID l = createChainIDFromParent (FromBytes E) (chainID (lay ls p)) [diffID l])"

definition layer_wf :: "'w env \<Rightarrow> 'w layerStore \<Rightarrow> addr \<Rightarrow> roLayer \<Rightarrow> bool" where
  "layer_wf E ls a l \<longleftrightarrow>
     finite (references l) \<and> (\<forall>r \<in> references l. \<exists>t < fresh ls. r = RefLayer t a) \<and>
     chain_eq E ls l \<and> depth (heap ls) a \<le> maxLayerDepth \<and>
     (\<forall>p. parent l = Some p \<longrightarrow> p < a \<and> p \<in> live ls)"

definition wf_store :: "'w env \<Rightarrow> 'w layerStore \<Rightarrow> bool" where
  "wf_store E ls \<longleftrightarrow>
     finite (dom (layerMap ls)) \<and> finite (dom (mounts ls)) \<and>
     (\<forall>a. fresh ls \<le> a \<longrightarrow> heap ls a = None) \<and>
     (\<forall>c a. layerMap ls c = Some a \<longrightarrow>
        (\<exists>l. heap ls a = Some l \<and> chainID l = c \<and> layer_wf E ls a l)) \<and>
     (\<forall>n m. mounts ls n = Some m \<longrightarrow>
        mname m = n \<and> (\<forall>p. mparent m = Some p \<longrightarrow> p \<in> live ls))"

definition total_refs :: "(addr \<Rightarrow> nat) \<Rightarrow> 'w layerStore \<Rightarrow> addr \<Rightarrow> nat" where
  "total_refs P ls a =
     card (references (lay ls a)) + card (kids ls a) + card (mountsOn ls a) + P a"

definition counts_ok :: "(addr \<Rightarrow> nat) \<Rightarrow> 'w layerStore \<Rightarrow> bool" where
  "counts_ok P ls \<longleftrightarrow>
     (\<forall>a \<in> live ls. referenceCount (lay ls a) = int (total_refs P ls a)) \<and>
     (\<forall>a. 0 < P a \<longrightarrow> a \<in> live ls)"

definition store_inv :: "'w env \<Rightarrow> (addr \<Rightarrow> nat) \<Rightarrow> 'w layerStore \<Rightarrow> bool" where
  "store_inv E P ls \<longleftrightarrow> wf_store E ls \<and> counts_ok P ls"

abbreviation no_pending :: "addr \<Rightarrow> nat" where
  "no_pending \<equiv> \<lambda>_. 0"

definition hold :: "addr option \<Rightarrow> (addr \<Rightarrow> nat) \<Rightarrow> addr \<Rightarrow> nat" where
  "hold p P = (case p of None \<Rightarrow> P | Some a \<Rightarrow> P(a := Suc (P a)))"

lemma hold_simps [simp]:
  "hold None P = P" "hold (Some a) P a = Suc (P a)" "b \<noteq> a \<Longrightarrow> hold (Some a) P b = P b"
  by (simp_all add: hold_def)

lemmas inv_defs = store_inv_def wf_store_def counts_ok_def layer_wf_def chain_eq_def
  total_refs_def kids_def mountsOn_def lay_def

subsection \<open>Irrelevance of the world and the metadata files\<close>

lemma store_inv_world [simp]: "store_inv E P (ls\<lparr>world := w\<rparr>) = store_inv E P ls"
  unfolding inv_defs by simp

lemma store_inv_meta [simp]: "store_inv E P (ls\<lparr>meta := ms\<rparr>) = store_inv E P ls"
  unfolding inv_defs by simp

lemma onWorld_cases: "\<exists>w. snd (onWorld f ls) = ls\<lparr>world := w\<rparr>"
  by (auto simp: onWorld_def split: prod.splits)

lemma onMeta_cases: "\<exists>ms w. snd (onMeta f ls) = ls\<lparr>meta := ms, world := w\<rparr>"
  by (auto simp: onMeta_def split: prod.splits)

lemma onWorld_inv [simp]: "store_inv E P (snd (onWorld f ls)) = store_inv E P ls"
  by (metis onWorld_cases store_inv_world)

lemma onMeta_inv [simp]: "store_inv E P (snd (onMeta f ls)) = store_inv E P ls"
  by (metis onMeta_cases store_inv_world store_inv_meta)

subsection \<open>Reading the invariant\<close>

lemma wf_liveE:
  assumes "wf_store E ls" "a \<in> live ls"
  obtains l where "heap ls a = Some l" "layerMap ls (chainID l) = Some a" "layer_wf E ls a l"
  using assms by (fastforce simp: wf_store_def ran_def)

lemma wf_layerMapE:
  assumes "wf_store E ls" "layerMap ls c = Some a"
  obtains l where "heap ls a = Some l" "chainID l = c" "layer_wf E ls a l" "a \<in> live ls"
  using assms by (fastforce simp: wf_store_def ran_def)

lemma wf_inj: "wf_store E ls \<Longrightarrow> layerMap ls c = Some a \<Longrightarrow> layerMap ls c' = Some a \<Longrightarrow> c = c'"
  by (metis wf_layerMapE option.inject)

lemma wf_live_fresh: "wf_store E ls \<Longrightarrow> a \<in> live ls \<Longrightarrow> a < fresh ls"
  by (metis wf_liveE wf_store_def not_le option.distinct(1))

lemma wf_finite_live: "wf_store E ls \<Longrightarrow> finite (live ls)"
  by (simp add: wf_store_def finite_ran)

lemma inv_wf: "store_inv E P ls \<Longrightarrow> wf_store E ls"
  by (simp add: store_inv_def)

lemma inv_count: "store_inv E P ls \<Longrightarrow> a \<in> live ls \<Longrightarrow> referenceCount (lay ls a) = int (total_refs P ls a)"
  by (simp add: store_inv_def counts_ok_def)

lemma inv_pending_live: "store_inv E P ls \<Longrightarrow> 0 < P a \<Longrightarrow> a \<in> live ls"
  by (simp add: store_inv_def counts_ok_def)

lemma depth_cong:
  "(\<And>b. b \<le> a \<Longrightarrow> map_option parent (h b) = map_option parent (h' b)) \<Longrightarrow> depth h a = depth h' a"
proof (induction a rule: less_induct)
  case (less a)
  have eq: "map_option parent (h a) = map_option parent (h' a)" using less.prems by simp
  show ?case
  proof (cases "h a")
    case None
    with eq show ?thesis by (simp add: depth.simps)
  next
    case (Some l)
    with eq obtain l' where l': "h' a = Some l'" "parent l' = parent l" by (cases "h' a") auto
    have "p < a \<Longrightarrow> depth h p = depth h' p" for p using less by simp
    with Some l' show ?thesis
      by (simp add: depth.simps [of h a] depth.simps [of h' a] split: option.split)
  qed
qed

section \<open>Changing the counts of one layer\<close>

text \<open>
  Every change of a count or a reference set is an instance of this lemma: the layer keeps
  its identity, and the new count matches the new references and pending holds.
\<close>

lemma update_counts:
  assumes inv: "store_inv E P ls" and l: "heap ls a = Some l" and a: "a \<in> live ls"
    and R: "finite R" "\<forall>r \<in> R. \<exists>t < f. r = RefLayer t a" and f: "fresh ls \<le> f"
    and n: "n = int (card R + card (kids ls a) + card (mountsOn ls a) + P' a)"
    and P': "\<And>b. b \<noteq> a \<Longrightarrow> P' b = P b"
  shows "store_inv E P' (ls\<lparr>heap := (heap ls)(a \<mapsto> l\<lparr>referenceCount := n, references := R\<rparr>), fresh := f\<rparr>)"
    (is "store_inv E P' ?ls")
proof -
  have wf: "wf_store E ls" using inv by (rule inv_wf)
  have par: "parent (lay ?ls b) = parent (lay ls b)" "chainID (lay ?ls b) = chainID (lay ls b)" for b
    using l by (simp_all add: lay_def)
  have kids: "kids ?ls b = kids ls b" for b using par by (simp add: kids_def)
  have mnt: "mountsOn ?ls b = mountsOn ls b" for b by (simp add: mountsOn_def)
  have dep: "depth (heap ?ls) b = depth (heap ls) b" for b
    by (rule depth_cong) (simp add: l)
  have wf': "layer_wf E ?ls b (lay ?ls b)" if b: "b \<in> live ls" for b
  proof -
    obtain k where k: "heap ls b = Some k" "layer_wf E ls b k" using wf_liveE [OF wf b] by metis
    show ?thesis
    proof (cases "b = a")
      case True
      with k l R dep par show ?thesis by (simp add: layer_wf_def chain_eq_def lay_def split: option.splits)
    next
      case False
      with k f dep par show ?thesis
        by (fastforce simp: layer_wf_def chain_eq_def lay_def l split: option.splits)
    qed
  qed
  have "wf_store E ?ls"
    unfolding wf_store_def
  proof (intro conjI allI impI)
    show "finite (dom (layerMap ?ls))" "finite (dom (mounts ?ls))" using wf by (simp_all add: wf_store_def)
  next
    fix b assume "fresh ?ls \<le> b"
    with f wf a wf_live_fresh [OF wf a] show "heap ?ls b = None" by (auto simp: wf_store_def)
  next
    fix c b assume "layerMap ?ls c = Some b"
    then have c: "layerMap ls c = Some b" by simp
    then obtain k where k: "heap ls b = Some k" "chainID k = c" "b \<in> live ls" using wf_layerMapE [OF wf c] by metis
    then have "heap ?ls b = Some (lay ?ls b)" "chainID (lay ?ls b) = c" using l by (auto simp: lay_def)
    with wf' [OF \<open>b \<in> live ls\<close>] show "\<exists>l. heap ?ls b = Some l \<and> chainID l = c \<and> layer_wf E ?ls b l" by blast
  next
    fix n m assume "mounts ?ls n = Some m"
    with wf show "mname m = n" by (auto simp: wf_store_def)
  next
    fix n m p assume "mounts ?ls n = Some m" "mparent m = Some p"
    with wf show "p \<in> live ?ls" by (auto simp: wf_store_def)
  qed
  moreover have "counts_ok P' ?ls"
    unfolding counts_ok_def
  proof (intro conjI ballI allI impI)
    fix b assume b: "b \<in> live ?ls"
    show "referenceCount (lay ?ls b) = int (total_refs P' ?ls b)"
    proof (cases "b = a")
      case True
      then show ?thesis unfolding total_refs_def kids mnt using n by (simp add: lay_def)
    next
      case False
      then show ?thesis unfolding total_refs_def kids mnt
        using inv_count [OF inv, of b] b P' by (simp add: lay_def total_refs_def)
    qed
  next
    fix b assume "0 < P' b"
    then show "b \<in> live ?ls"
      using a P' inv_pending_live [OF inv, of b] by (cases "b = a") auto
  qed
  ultimately show ?thesis by (simp add: store_inv_def)
qed

lemma getWithoutLock_None: "getWithoutLock c ls = (None, ls') \<Longrightarrow> ls' = ls"
  by (auto simp: getWithoutLock_def split: option.splits)

lemma getWithoutLock_Some:
  assumes inv: "store_inv E P ls" and get: "getWithoutLock c ls = (Some a, ls')"
  shows "store_inv E (hold (Some a) P) ls'" "layerMap ls c = Some a"
    "layerMap ls' = layerMap ls" "mounts ls' = mounts ls" "fresh ls' = fresh ls"
    "meta ls' = meta ls" "world ls' = world ls" "map_option parent (heap ls' b) = map_option parent (heap ls b)"
proof -
  from get obtain l where l: "layerMap ls c = Some a" "heap ls a = Some l"
    and ls': "ls' = setLayer a (l\<lparr>referenceCount := referenceCount l + 1\<rparr>) ls"
    by (auto simp: getWithoutLock_def split: option.splits)
  have a: "a \<in> live ls" using l(1) by (auto simp: ran_def)
  obtain l' where "heap ls a = Some l'" "layer_wf E ls a l'" using wf_liveE [OF inv_wf [OF inv] a] by metis
  with l have wf: "layer_wf E ls a l" by simp
  have cnt: "referenceCount l = int (total_refs P ls a)" using inv_count [OF inv a] l by (simp add: lay_def)
  have "ls' = ls\<lparr>heap := (heap ls)(a \<mapsto> l\<lparr>referenceCount := referenceCount l + 1, references := references l\<rparr>), fresh := fresh ls\<rparr>"
    by (simp add: ls' setLayer_def)
  moreover have "store_inv E (hold (Some a) P) \<dots>"
    using wf cnt l by (intro update_counts [OF inv l(2) a]) (auto simp: layer_wf_def total_refs_def lay_def)
  ultimately show "store_inv E (hold (Some a) P) ls'" by simp
  show "layerMap ls c = Some a" "layerMap ls' = layerMap ls" "mounts ls' = mounts ls" "fresh ls' = fresh ls"
    "meta ls' = meta ls" "world ls' = world ls" "map_option parent (heap ls' b) = map_option parent (heap ls b)"
    using l by (simp_all add: ls' setLayer_def)
qed

text \<open>A pending hold becomes a reference object.\<close>

lemma getReference_inv:
  assumes inv: "store_inv E (hold (Some a) P) ls" and ref: "getReference a ls = (r, ls')"
  shows "store_inv E P ls'" "r = RefLayer (fresh ls) a" "r \<in> references (lay ls' a)"
    "layerMap ls' = layerMap ls" "mounts ls' = mounts ls"
proof -
  have a: "a \<in> live ls" using inv_pending_live [OF inv, of a] by simp
  obtain l where l: "heap ls a = Some l" "layer_wf E ls a l" using wf_liveE [OF inv_wf [OF inv] a] by metis
  from ref l have r: "r = RefLayer (fresh ls) a"
    and ls': "ls' = (setLayer a (l\<lparr>references := insert r (references l)\<rparr>) ls)\<lparr>fresh := Suc (fresh ls)\<rparr>"
    by (auto simp: getReference_def Let_def)
  have new: "r \<notin> references l" and fin: "finite (references l)" using l(2) r by (auto simp: layer_wf_def)
  have cnt: "referenceCount l = int (total_refs (hold (Some a) P) ls a)" using inv_count [OF inv a] l by (simp add: lay_def)
  have "ls' = ls\<lparr>heap := (heap ls)(a \<mapsto> l\<lparr>referenceCount := referenceCount l, references := insert r (references l)\<rparr>), fresh := Suc (fresh ls)\<rparr>"
    by (simp add: ls' setLayer_def)
  moreover have "store_inv E P \<dots>"
    using l cnt new fin r
    by (intro update_counts [OF inv l(1) a]) (auto simp: layer_wf_def total_refs_def lay_def less_Suc_eq)
  ultimately show "store_inv E P ls'" by simp
  show "r = RefLayer (fresh ls) a" by (rule r)
  show "r \<in> references (lay ls' a)" "layerMap ls' = layerMap ls" "mounts ls' = mounts ls"
    by (simp_all add: ls' setLayer_def lay_def)
qed

text \<open>The two halves of \<open>Release\<close>: a reference object becomes a pending hold again.\<close>

lemma deleteReference_inv:
  assumes inv: "store_inv E P ls" and l: "heap ls a = Some l" and a: "a \<in> live ls" and r: "r \<in> references l"
  shows "store_inv E (hold (Some a) P) (setLayer a (deleteReference l r) ls)"
proof -
  obtain l' where "heap ls a = Some l'" "layer_wf E ls a l'" using wf_liveE [OF inv_wf [OF inv] a] by metis
  with l have wf: "layer_wf E ls a l" by simp
  have cnt: "referenceCount l = int (total_refs P ls a)" using inv_count [OF inv a] l by (simp add: lay_def)
  have fin: "finite (references l)" using wf by (simp add: layer_wf_def)
  then have card: "card (references l) = Suc (card (references l - {r}))" using r by (metis card_Suc_Diff1)
  have "setLayer a (deleteReference l r) ls = ls\<lparr>heap := (heap ls)(a \<mapsto> l\<lparr>referenceCount := referenceCount l, references := references l - {r}\<rparr>), fresh := fresh ls\<rparr>"
    by (simp add: setLayer_def deleteReference_def)
  moreover have "store_inv E (hold (Some a) P) \<dots>"
    using wf cnt l card fin
    by (intro update_counts [OF inv l a]) (auto simp: layer_wf_def total_refs_def lay_def)
  ultimately show ?thesis by simp
qed

text \<open>Dropping a pending hold decrements the count.\<close>

lemma decrement_inv:
  assumes inv: "store_inv E (hold (Some a) P) ls" and l: "heap ls a = Some l"
  shows "store_inv E P (setLayer a (l\<lparr>referenceCount := referenceCount l - 1\<rparr>) ls)"
    and "0 < referenceCount l" and "referenceCount l - 1 = int (total_refs P ls a)"
proof -
  have a: "a \<in> live ls" using inv_pending_live [OF inv, of a] by simp
  obtain l' where "heap ls a = Some l'" "layer_wf E ls a l'" using wf_liveE [OF inv_wf [OF inv] a] by metis
  with l have wf: "layer_wf E ls a l" by simp
  have cnt: "referenceCount l = int (total_refs (hold (Some a) P) ls a)" using inv_count [OF inv a] l by (simp add: lay_def)
  then show "0 < referenceCount l" "referenceCount l - 1 = int (total_refs P ls a)"
    by (simp_all add: total_refs_def)
  have "setLayer a (l\<lparr>referenceCount := referenceCount l - 1\<rparr>) ls = ls\<lparr>heap := (heap ls)(a \<mapsto> l\<lparr>referenceCount := referenceCount l - 1, references := references l\<rparr>), fresh := fresh ls\<rparr>"
    by (simp add: setLayer_def)
  moreover have "store_inv E P \<dots>"
    using wf cnt l by (intro update_counts [OF inv l a]) (auto simp: layer_wf_def total_refs_def lay_def)
  ultimately show "store_inv E P (setLayer a (l\<lparr>referenceCount := referenceCount l - 1\<rparr>) ls)" by simp
qed

section \<open>Removing a layer\<close>

text \<open>
  A layer that nothing refers to can leave the map; the count it held on its parent
  becomes a pending hold.
\<close>

lemma remove_layer_inv:
  assumes inv: "store_inv E P ls" and l: "heap ls a = Some l" and a: "a \<in> live ls"
    and zero: "total_refs P ls a = 0"
  shows "store_inv E (hold (parent l) P) (ls\<lparr>layerMap := (layerMap ls)(chainID l := None)\<rparr>)"
    (is "store_inv E ?P ?ls")
proof -
  have wf: "wf_store E ls" using inv by (rule inv_wf)
  obtain l' where "heap ls a = Some l'" "layerMap ls (chainID l') = Some a" "layer_wf E ls a l'"
    using wf_liveE [OF wf a] by metis
  with l have c: "layerMap ls (chainID l) = Some a" and wfl: "layer_wf E ls a l" by simp_all
  have live': "ran ((layerMap ls)(chainID l := None)) = live ls - {a}"
    using ran_map_del_inj [of "layerMap ls", OF c] wf_inj [OF wf c] by simp
  have fin: "finite (live ls)" using wf by (rule wf_finite_live)
  have none: "kids ls a = {}" "mountsOn ls a = {}" "P a = 0"
    using zero fin wf by (auto simp: total_refs_def kids_def mountsOn_def wf_store_def)
  have lay': "lay ?ls b = lay ls b" for b by (simp add: lay_def)
  have kids': "kids ?ls b = kids ls b - {a}" for b by (auto simp: kids_def live' lay')
  have mnt': "mountsOn ?ls b = mountsOn ls b" for b by (simp add: mountsOn_def)
  have card_kids: "card (kids ls b) = card (kids ?ls b) + (if parent l = Some b then 1 else 0)" for b
  proof (cases "parent l = Some b")
    case True
    then have "a \<in> kids ls b" using a l by (simp add: kids_def lay_def)
    moreover have "finite (kids ls b)" using fin by (simp add: kids_def)
    ultimately have "card (kids ls b) = Suc (card (kids ls b - {a}))" by (metis card_Suc_Diff1)
    then show ?thesis using True unfolding kids' by simp
  next
    case False
    then have "a \<notin> kids ls b" using l by (simp add: kids_def lay_def)
    then show ?thesis using False by (simp add: kids')
  qed
  have par_live: "p \<in> live ?ls" if b: "b \<in> live ls" "parent (lay ls b) = Some p" for b p
  proof -
    obtain k where "heap ls b = Some k" "layer_wf E ls b k" using wf_liveE [OF wf b(1)] by metis
    then have "p \<in> live ls" using b(2) by (simp add: layer_wf_def lay_def)
    moreover have "p \<noteq> a" using b none(1) by (auto simp: kids_def)
    ultimately show ?thesis by (simp add: live')
  qed
  have "wf_store E ?ls"
    unfolding wf_store_def
  proof (intro conjI allI impI)
    show "finite (dom (layerMap ?ls))" "finite (dom (mounts ?ls))" using wf by (simp_all add: wf_store_def)
  next
    fix b assume "fresh ?ls \<le> b"
    with wf show "heap ?ls b = None" by (simp add: wf_store_def)
  next
    fix c b assume "layerMap ?ls c = Some b"
    then have c: "layerMap ls c = Some b" by (simp split: if_splits)
    obtain k where k: "heap ls b = Some k" "chainID k = c" "layer_wf E ls b k" "b \<in> live ls" using wf_layerMapE [OF wf c] by metis
    have "layer_wf E ?ls b k"
      using k par_live [OF k(4)] by (simp add: layer_wf_def chain_eq_def lay_def)
    with k show "\<exists>l. heap ?ls b = Some l \<and> chainID l = c \<and> layer_wf E ?ls b l" by simp
  next
    fix n m assume "mounts ?ls n = Some m"
    with wf show "mname m = n" by (auto simp: wf_store_def)
  next
    fix n m p assume m: "mounts ?ls n = Some m" "mparent m = Some p"
    then have "p \<in> live ls" using wf by (auto simp: wf_store_def)
    moreover have "p \<noteq> a" using none(2) m by (force simp: mountsOn_def)
    ultimately show "p \<in> live ?ls" by (simp add: live')
  qed
  moreover have "counts_ok ?P ?ls"
    unfolding counts_ok_def
  proof (intro conjI ballI allI impI)
    fix b assume "b \<in> live ?ls"
    then have b: "b \<in> live ls" "b \<noteq> a" by (simp_all add: live')
    show "referenceCount (lay ?ls b) = int (total_refs ?P ?ls b)"
      using inv_count [OF inv b(1)] card_kids [of b] unfolding lay' total_refs_def mnt'
      by (auto simp: hold_def split: option.splits if_splits)
  next
    fix b assume "0 < ?P b"
    then have "0 < P b \<or> parent l = Some b" by (auto simp: hold_def split: option.splits if_splits)
    then show "b \<in> live ?ls"
      using inv_pending_live [OF inv, of b] none(3) par_live [OF a] l by (auto simp: live' lay_def)
  qed
  ultimately show ?thesis by (simp add: store_inv_def)
qed

section \<open>Releasing a layer\<close>

lemma onMeta_onWorld_frame:
  "onWorld f ls = (x, ls1) \<Longrightarrow> \<exists>w. ls1 = ls\<lparr>world := w\<rparr>"
  "onMeta g ls = (y, ls1) \<Longrightarrow> \<exists>ms w. ls1 = ls\<lparr>meta := ms, world := w\<rparr>"
  by (metis onWorld_cases snd_conv) (metis onMeta_cases snd_conv)

lemma deleteLayer_frame:
  assumes "deleteLayer E a l ls = (res, ls')"
  shows "\<exists>ms w. ls' = ls\<lparr>meta := ms, world := w\<rparr>"
proof -
  obtain x ls1 where 1: "onWorld (drv_Remove E (cacheID l)) ls = (x, ls1)" by fastforce
  obtain y ls2 where 2: "onMeta (ms_Remove E (chainID l)) ls1 = (y, ls2)" by fastforce
  obtain w where ls1: "ls1 = ls\<lparr>world := w\<rparr>" using onMeta_onWorld_frame(1) [OF 1] by blast
  obtain ms w' where ls2: "ls2 = ls1\<lparr>meta := ms, world := w'\<rparr>" using onMeta_onWorld_frame(2) [OF 2] by blast
  have "ls' = ls1 \<or> ls' = ls2" using assms 1 2 by (auto simp: deleteLayer_def split: option.splits)
  moreover have "ls1 = ls\<lparr>meta := meta ls, world := w\<rparr>" using ls1 by simp
  moreover have "ls2 = ls\<lparr>meta := ms, world := w'\<rparr>" using ls1 ls2 by simp
  ultimately show ?thesis by blast
qed

lemma deleteLayer_chainID: "deleteLayer E a l ls = (Inr md, ls') \<Longrightarrow> mdChainID md = chainID l"
  by (auto simp: deleteLayer_def split: prod.splits option.splits)

definition no_orphans :: "'w layerStore \<Rightarrow> addr set \<Rightarrow> bool" where
  "no_orphans ls X \<longleftrightarrow> (\<forall>b \<in> live ls - X. 0 < referenceCount (lay ls b))"

text \<open>What the release loop does to the store, from a state with one hold on its layer.\<close>

definition release_post ::
  "'w env \<Rightarrow> (addr \<Rightarrow> nat) \<Rightarrow> addr \<Rightarrow> LayerMetadata list \<Rightarrow> 'w layerStore
     \<Rightarrow> LayerMetadata list outcome \<Rightarrow> 'w layerStore \<Rightarrow> bool" where
  "release_post E P a removed ls r ls' \<longleftrightarrow>
     store_inv E P ls' \<and> \<not> is_panic r \<and> mounts ls' = mounts ls \<and> fresh ls' = fresh ls \<and>
     layerMap ls' \<subseteq>\<^sub>m layerMap ls \<and>
     (\<forall>rs. r = Ok rs \<longrightarrow>
        (\<exists>new. rs = removed @ new \<and>
           mdChainID ` set new = dom (layerMap ls) - dom (layerMap ls')) \<and>
        (no_orphans ls {a} \<longrightarrow> no_orphans ls' {}))"

text \<open>The two branches of one round of the loop.\<close>

definition dropOne :: "roLayer \<Rightarrow> roLayer" where
  "dropOne l = l\<lparr>referenceCount := referenceCount l - 1\<rparr>"

lemma dropOne_simps [simp]:
  "chainID (dropOne l) = chainID l" "parent (dropOne l) = parent l" "references (dropOne l) = references l"
  "referenceCount (dropOne l) = referenceCount l - 1"
  by (simp_all add: dropOne_def)

lemma loop_keep:
  "heap ls a = Some l \<Longrightarrow> referenceCount l \<noteq> 0 \<Longrightarrow> referenceCount l \<noteq> 1 \<Longrightarrow>
   releaseLayer_loop E a dep removed ls = (Ok removed, setLayer a (dropOne l) ls)"
  by (simp add: releaseLayer_loop.simps [of E a] dropOne_def Let_def)

lemma loop_delete:
  assumes "heap ls a = Some l" "referenceCount l = 1" "references l = {}" "0 < dep \<longrightarrow> removed \<noteq> []"
    and "\<And>p. parent l = Some p \<Longrightarrow> p < a"
  shows "releaseLayer_loop E a dep removed ls =
     (case deleteLayer E a (dropOne l) (setLayer a (dropOne l) ls) of
        (Inl e, ls2) \<Rightarrow> (Err e, ls2)
      | (Inr md, ls2) \<Rightarrow>
          let ls3 = ls2\<lparr>layerMap := (layerMap ls2)(chainID l := None)\<rparr> in
          case parent l of
            None \<Rightarrow> (Ok (removed @ [md]), ls3)
          | Some p \<Rightarrow> releaseLayer_loop E p (Suc dep) (removed @ [md]) ls3)"
  using assms
  by (auto simp: releaseLayer_loop.simps [of E a] dropOne_def hasReferences_def Let_def
      split: option.splits sum.splits prod.splits)

lemma total_refs_setLayer:
  assumes "heap ls a = Some l" "parent l' = parent l" "references l' = references l"
  shows "total_refs P (setLayer a l' ls) b = total_refs P ls b"
proof -
  have "parent (lay (setLayer a l' ls) c) = parent (lay ls c)"
    "references (lay (setLayer a l' ls) c) = references (lay ls c)" for c
    using assms by (auto simp: setLayer_def lay_def)
  then show ?thesis by (simp add: total_refs_def kids_def mountsOn_def) (simp add: setLayer_def)
qed

lemma total_refs_frame: "total_refs P (ls\<lparr>meta := ms, world := w\<rparr>) b = total_refs P ls b"
  by (simp add: total_refs_def kids_def mountsOn_def lay_def)

lemma release_post_keep:
  assumes inv: "store_inv E P ls1" and ls1: "ls1 = setLayer a l1 ls" and a: "a \<in> live ls" and "0 < referenceCount l1"
  shows "release_post E P a removed ls (Ok removed) ls1"
  using assms by (auto simp: release_post_def no_orphans_def setLayer_def lay_def)

lemma release_post_err:
  assumes inv: "store_inv E P ls1" and ls1: "ls1 = setLayer a l1 ls" and "ls2 = ls1\<lparr>meta := ms, world := w\<rparr>"
  shows "release_post E P a removed ls (Err e) ls2"
  using assms by (auto simp: release_post_def setLayer_def)

text \<open>The state after a layer has left the map, relative to the state before the round.\<close>

lemma removed_state:
  assumes wf: "wf_store E ls" and l: "heap ls a = Some l" and c: "layerMap ls (chainID l) = Some a"
    and ls3: "ls3 = (setLayer a l1 ls)\<lparr>meta := ms, world := w, layerMap := (layerMap ls)(chainID l := None)\<rparr>"
  shows "dom (layerMap ls3) = dom (layerMap ls) - {chainID l}" "layerMap ls3 \<subseteq>\<^sub>m layerMap ls"
    "no_orphans ls {a} \<Longrightarrow> no_orphans ls3 X" "mounts ls3 = mounts ls" "fresh ls3 = fresh ls"
proof -
  have "ran ((layerMap ls)(chainID l := None)) = live ls - {a}"
    using ran_map_del_inj [of "layerMap ls", OF c] wf_inj [OF wf c] by simp
  then show "no_orphans ls {a} \<Longrightarrow> no_orphans ls3 X"
    by (simp add: ls3 no_orphans_def setLayer_def lay_def)
qed (auto simp: ls3 setLayer_def map_le_def)

lemma release_post_step:
  assumes post: "release_post E P p (removed @ [md]) ls3 r ls'"
    and dom: "dom (layerMap ls3) = dom (layerMap ls) - {c}" "c \<in> dom (layerMap ls)" "mdChainID md = c"
    and le: "layerMap ls3 \<subseteq>\<^sub>m layerMap ls" and orph: "no_orphans ls {a} \<Longrightarrow> no_orphans ls3 {p}"
    and fr: "mounts ls3 = mounts ls" "fresh ls3 = fresh ls"
  shows "release_post E P a removed ls r ls'"
proof -
  have le': "layerMap ls' \<subseteq>\<^sub>m layerMap ls3" using post by (simp add: release_post_def)
  then have "dom (layerMap ls') \<subseteq> dom (layerMap ls3)" by (rule map_le_implies_dom_le)
  then have "mdChainID ` set (md # new) = dom (layerMap ls) - dom (layerMap ls')"
    if "mdChainID ` set new = dom (layerMap ls3) - dom (layerMap ls')" for new
    using that dom by auto
  then have "\<exists>new'. rs = removed @ new' \<and> mdChainID ` set new' = dom (layerMap ls) - dom (layerMap ls')"
    if "rs = (removed @ [md]) @ new" "mdChainID ` set new = dom (layerMap ls3) - dom (layerMap ls')" for rs new
    using that by (intro exI [of _ "md # new"]) simp
  moreover have "layerMap ls' \<subseteq>\<^sub>m layerMap ls" using le' le by (rule map_le_trans)
  ultimately show ?thesis using post orph fr unfolding release_post_def by metis
qed

lemma releaseLayer_loop_post:
  "store_inv E (hold (Some a) P) ls \<Longrightarrow> (0 < dep \<longrightarrow> removed \<noteq> []) \<Longrightarrow>
   releaseLayer_loop E a dep removed ls = (r, ls') \<Longrightarrow> release_post E P a removed ls r ls'"
proof (induction a arbitrary: P dep removed ls rule: less_induct)
  case (less a)
  note inv = less.prems(1) and dep = less.prems(2) and run = less.prems(3)
  have wf: "wf_store E ls" using inv by (rule inv_wf)
  have a: "a \<in> live ls" using inv_pending_live [OF inv, of a] by simp
  obtain l where l: "heap ls a = Some l" "layerMap ls (chainID l) = Some a" "layer_wf E ls a l"
    using wf_liveE [OF wf a] by metis
  define ls1 where "ls1 = setLayer a (dropOne l) ls"
  have inv1: "store_inv E P ls1" and pos: "0 < referenceCount l"
    and cnt: "referenceCount l - 1 = int (total_refs P ls a)"
    using decrement_inv [OF inv l(1)] by (simp_all add: ls1_def dropOne_def)
  show ?case
  proof (cases "referenceCount l = 1")
    case False
    then have "r = Ok removed" "ls' = ls1" using run pos loop_keep [OF l(1)] by (auto simp: ls1_def)
    then show ?thesis using release_post_keep [OF inv1 ls1_def a] pos False by simp
  next
    case True
    have par: "p < a" if "parent l = Some p" for p using l(3) that by (simp add: layer_wf_def)
    have "card (references l) = 0" using True cnt l by (simp add: total_refs_def lay_def)
    then have "references l = {}" using l(3) by (simp add: layer_wf_def)
    note step = loop_delete [OF l(1) True this dep par, where E = E]
    obtain res ls2 where del: "deleteLayer E a (dropOne l) ls1 = (res, ls2)" by fastforce
    obtain ms w where ls2: "ls2 = ls1\<lparr>meta := ms, world := w\<rparr>" using deleteLayer_frame [OF del] by blast
    show ?thesis
    proof (cases res)
      case (Inl e)
      then have "r = Err e" "ls' = ls2" using run step del by (simp_all add: ls1_def)
      then show ?thesis using release_post_err [OF inv1 ls1_def ls2] by simp
    next
      case (Inr md)
      define ls3 where "ls3 = ls2\<lparr>layerMap := (layerMap ls2)(chainID l := None)\<rparr>"
      have eq3: "ls3 = (setLayer a (dropOne l) ls)\<lparr>meta := ms, world := w, layerMap := (layerMap ls)(chainID l := None)\<rparr>"
        by (simp add: ls3_def ls2 ls1_def setLayer_def)
      note st = removed_state [OF wf l(1,2) eq3]
      have zero: "total_refs P ls2 a = 0"
        using cnt True total_refs_setLayer [OF l(1), of "dropOne l"] by (simp add: ls2 ls1_def total_refs_frame)
      have inv3: "store_inv E (hold (parent l) P) ls3"
        using remove_layer_inv [of E P ls2 a "dropOne l"] inv1 a zero ls2
        by (simp add: ls3_def ls1_def setLayer_def)
      have md: "mdChainID md = chainID l" using del Inr deleteLayer_chainID by fastforce
      show ?thesis
      proof (cases "parent l")
        case None
        then have "r = Ok (removed @ [md])" "ls' = ls3" using run step del Inr by (simp_all add: ls1_def ls3_def)
        then show ?thesis using inv3 None st md l(2) by (auto simp: release_post_def)
      next
        case (Some p)
        then have "releaseLayer_loop E p (Suc dep) (removed @ [md]) ls3 = (r, ls')"
          using run step del Inr by (simp add: ls1_def ls3_def)
        then have post: "release_post E P p (removed @ [md]) ls3 r ls'"
          using less.IH [OF par [OF Some], of P ls3 "Suc dep" "removed @ [md]"] inv3 Some by simp
        show ?thesis by (rule release_post_step [OF post st(1) _ md st(2) st(3) st(4,5)]) (use l(2) in auto)
      qed
    qed
  qed
qed

section \<open>Adding a layer\<close>

lemma wf_parent_live:
  assumes "wf_store E ls" "a \<in> live ls" "parent (lay ls a) = Some p"
  shows "p \<in> live ls" "p < a"
  using wf_liveE [OF assms(1,2)] assms(3) by (metis layer_wf_def lay_def option.sel)+

lemma insertLayer_inv:
  assumes inv: "store_inv E (hold (parent layer) P) ls" and new: "layerMap ls (chainID layer) = None"
    and ceq: "chain_eq E ls layer" and cnt: "referenceCount layer = 1" "references layer = {}"
    and dep: "\<And>p. parent layer = Some p \<Longrightarrow> depth (heap ls) p < maxLayerDepth"
    and ins: "insertLayer layer ls = (a, ls')"
  shows "store_inv E (hold (Some a) P) ls'" "layerMap ls' = (layerMap ls)(chainID layer \<mapsto> a)"
    "mounts ls' = mounts ls" "heap ls' = (heap ls)(a \<mapsto> layer)" "a = fresh ls"
proof -
  have wf: "wf_store E ls" using inv by (rule inv_wf)
  have a: "a = fresh ls"
    and ls': "ls' = ls\<lparr>heap := (heap ls)(a \<mapsto> layer), layerMap := (layerMap ls)(chainID layer \<mapsto> a), fresh := Suc a\<rparr>"
    using ins by (auto simp: insertLayer_def Let_def setLayer_def)
  show "layerMap ls' = (layerMap ls)(chainID layer \<mapsto> a)" "mounts ls' = mounts ls"
    "heap ls' = (heap ls)(a \<mapsto> layer)" "a = fresh ls" using ls' a by simp_all
  have live': "live ls' = insert a (live ls)" using new by (simp add: ls')
  have fresh': "fresh ls' = Suc a" by (simp add: ls')
  have fin: "finite (live ls)" using wf by (rule wf_finite_live)
  have a_new: "a \<notin> live ls" using wf_live_fresh [OF wf] a by blast
  have lay': "lay ls' b = lay ls b" if "b \<in> live ls" for b using that a_new by (auto simp: ls' lay_def)
  have lay_a: "lay ls' a = layer" by (simp add: ls' lay_def)
  have par: "p < a \<and> p \<in> live ls" if "parent layer = Some p" for p
    using that inv_pending_live [OF inv, of p] wf_live_fresh [OF wf] a by simp
  have dep': "depth (heap ls') b = depth (heap ls) b" if "b < a" for b
    by (rule depth_cong) (use that in \<open>simp add: ls'\<close>)
  have wf_old: "layer_wf E ls' b k" if b: "heap ls b = Some k" "b \<in> live ls" "layer_wf E ls b k" for b k
    using b lay' dep' [of b] wf_live_fresh [OF wf b(2)] a fresh'
    by (fastforce simp: layer_wf_def chain_eq_def live' less_Suc_eq)
  have "depth (heap ls') a \<le> maxLayerDepth"
    using par dep dep' by (auto simp: depth.simps [of _ a] ls' maxLayerDepth_def Suc_le_eq split: option.splits)
  then have wf_new: "layer_wf E ls' a layer"
    using cnt par lay' ceq by (auto simp: layer_wf_def chain_eq_def live')
  have "wf_store E ls'"
    unfolding wf_store_def
  proof (intro conjI allI impI)
    show "finite (dom (layerMap ls'))" "finite (dom (mounts ls'))" using wf by (simp_all add: wf_store_def ls')
  next
    fix b assume "fresh ls' \<le> b"
    with wf a show "heap ls' b = None" by (simp add: wf_store_def ls')
  next
    fix c b assume c: "layerMap ls' c = Some b"
    show "\<exists>l. heap ls' b = Some l \<and> chainID l = c \<and> layer_wf E ls' b l"
    proof (cases "c = chainID layer")
      case True
      with c wf_new show ?thesis by (simp add: ls')
    next
      case False
      with c have "layerMap ls c = Some b" by (simp add: ls')
      then obtain k where "heap ls b = Some k" "chainID k = c" "layer_wf E ls b k" "b \<in> live ls"
        using wf_layerMapE [OF wf] by metis
      with wf_old a_new show ?thesis by (auto simp: ls')
    qed
  next
    fix n m assume "mounts ls' n = Some m"
    with wf show "mname m = n" by (auto simp: wf_store_def ls')
  next
    fix n m p assume "mounts ls' n = Some m" "mparent m = Some p"
    with wf have "p \<in> live ls" by (auto simp: wf_store_def ls')
    then show "p \<in> live ls'" by (simp add: live')
  qed
  moreover have "counts_ok (hold (Some a) P) ls'"
    unfolding counts_ok_def
  proof (intro conjI ballI allI impI)
    fix b assume b: "b \<in> live ls'"
    show "referenceCount (lay ls' b) = int (total_refs (hold (Some a) P) ls' b)"
    proof (cases "b = a")
      case True
      have "parent (lay ls' c) \<noteq> Some a" if "c \<in> live ls'" for c
        using that par a_new lay' wf_parent_live [OF wf, of c]
        by (cases "c = a") (auto simp: live' lay_a)
      then have "kids ls' a = {}" by (auto simp: kids_def)
      moreover have "mountsOn ls' a = {}" using wf a_new by (auto simp: mountsOn_def ls' wf_store_def)
      moreover have "P a = 0" using inv_pending_live [OF inv, of a] a_new par
        by (cases "parent layer") (auto simp: hold_def split: if_splits)
      ultimately show ?thesis using True cnt by (simp add: total_refs_def ls' lay_def)
    next
      case False
      then have bl: "b \<in> live ls" using b by (simp add: live')
      have "kids ls' b = (if parent layer = Some b then insert a (kids ls b) else kids ls b)"
        using lay' a_new lay_a by (auto simp: kids_def live')
      moreover have "finite (kids ls b)" "a \<notin> kids ls b" using fin a_new by (auto simp: kids_def)
      moreover have "mountsOn ls' b = mountsOn ls b" by (simp add: mountsOn_def ls')
      ultimately show ?thesis
        using inv_count [OF inv bl] lay' [OF bl] False
        by (auto simp: total_refs_def hold_def split: option.splits if_splits)
    qed
  next
    fix b assume "0 < hold (Some a) P b"
    then show "b \<in> live ls'"
      using inv_pending_live [OF inv, of b] by (cases "b = a") (auto simp: live' hold_def split: option.splits if_splits)
  qed
  ultimately show "store_inv E (hold (Some a) P) ls'" by (simp add: store_inv_def)
qed

section \<open>Changing the mounts\<close>

lemma mounts_inv:
  assumes inv: "store_inv E P ls" and f: "fresh ls \<le> f"
    and M: "finite (dom M)" "\<And>n m. M n = Some m \<Longrightarrow> mname m = n" "\<And>n m p. M n = Some m \<Longrightarrow> mparent m = Some p \<Longrightarrow> p \<in> live ls"
    and cnt: "\<And>a. a \<in> live ls \<Longrightarrow> card {n \<in> dom M. mparent (the (M n)) = Some a} + P' a = card (mountsOn ls a) + P a"
    and P': "\<And>a. 0 < P' a \<Longrightarrow> a \<in> live ls"
  shows "store_inv E P' (ls\<lparr>mounts := M, fresh := f\<rparr>)" (is "store_inv E P' ?ls")
proof -
  have wf: "wf_store E ls" using inv by (rule inv_wf)
  have lay': "lay ?ls b = lay ls b" for b by (simp add: lay_def)
  have "layer_wf E ls b k \<Longrightarrow> layer_wf E ?ls b k" for b k
    using f by (fastforce simp: layer_wf_def chain_eq_def lay_def)
  with wf have "\<forall>c a. layerMap ls c = Some a \<longrightarrow> (\<exists>l. heap ls a = Some l \<and> chainID l = c \<and> layer_wf E ?ls a l)"
    unfolding wf_store_def by blast
  then have "wf_store E ?ls"
    using wf M f by (simp add: wf_store_def)
  moreover have "counts_ok P' ?ls"
    unfolding counts_ok_def
  proof (intro conjI ballI allI impI)
    fix b assume "b \<in> live ?ls"
    then have b: "b \<in> live ls" by simp
    from inv_count [OF inv b] cnt [OF b]
    show "referenceCount (lay ?ls b) = int (total_refs P' ?ls b)"
      by (simp add: total_refs_def lay' kids_def) (simp add: mountsOn_def)
  qed (use P' in simp)
  ultimately show ?thesis by (simp add: store_inv_def)
qed

end
