(* ===== verification/Layer_Operations.thy ===== *)
theory Layer_Operations
  imports Layer_Invariant
begin

text \<open>
  Every operation of the layer store preserves the store invariant, never panics, and never
  changes the identity of an existing layer object.  The lemmas are stated for arbitrary
  pending holds \<open>P\<close>, so that they apply while other operations are between two of their
  critical sections.
\<close>

section \<open>The identity of layers is immutable\<close>

definition layer_ident :: "roLayer \<Rightarrow> addr option \<times> string \<times> string \<times> string" where
  "layer_ident l = (parent l, chainID l, diffID l, cacheID l)"

definition ext :: "'w layerStore \<Rightarrow> 'w layerStore \<Rightarrow> bool" where
  "ext ls ls' \<longleftrightarrow> fresh ls \<le> fresh ls' \<and>
     (\<forall>a < fresh ls. map_option layer_ident (heap ls a) = map_option layer_ident (heap ls' a))"

lemma ext_refl [simp]: "ext ls ls"
  by (simp add: ext_def)

lemma ext_trans [trans]: "ext ls1 ls2 \<Longrightarrow> ext ls2 ls3 \<Longrightarrow> ext ls1 ls3"
  by (auto simp: ext_def)

lemma ext_frame [simp]:
  "ext ls (ls'\<lparr>world := w\<rparr>) = ext ls ls'" "ext ls (ls'\<lparr>meta := ms\<rparr>) = ext ls ls'"
  "ext ls (ls'\<lparr>mounts := M\<rparr>) = ext ls ls'" "ext ls (ls'\<lparr>layerMap := L\<rparr>) = ext ls ls'"
  by (simp_all add: ext_def)

lemma ext_onWorld [simp]: "ext ls (snd (onWorld f ls')) = ext ls ls'"
  by (metis onWorld_cases ext_frame(1))

lemma ext_onMeta [simp]: "ext ls (snd (onMeta f ls')) = ext ls ls'"
  by (metis onMeta_cases ext_frame(1,2))

lemma ext_setLayer:
  "heap ls a = Some l \<Longrightarrow> layer_ident l' = layer_ident l \<Longrightarrow> ext ls (setLayer a l' ls)"
  by (simp add: ext_def setLayer_def)

lemma ext_depth: "ext ls ls' \<Longrightarrow> a < fresh ls \<Longrightarrow> depth (heap ls') a = depth (heap ls) a"
proof (rule depth_cong)
  fix b assume e: "ext ls ls'" "a < fresh ls" "b \<le> a"
  have p: "map_option parent x = map_option fst (map_option layer_ident x)" for x
    by (cases x) (simp_all add: layer_ident_def)
  from e show "map_option parent (heap ls' b) = map_option parent (heap ls b)"
    unfolding p by (simp add: ext_def)
qed

lemma ext_layerChainID: "ext ls ls' \<Longrightarrow> (\<And>a. p = Some a \<Longrightarrow> a < fresh ls) \<Longrightarrow> layerChainID ls' p = layerChainID ls p"
  by (fastforce simp: layerChainID_def ext_def layer_ident_def split: option.splits)

lemma ext_getWithoutLock: "getWithoutLock c ls = (r, ls') \<Longrightarrow> ext ls ls'"
  by (auto simp: getWithoutLock_def layer_ident_def intro!: ext_setLayer split: option.splits)

lemma ext_getReference: "getReference a ls = (r, ls') \<Longrightarrow> ext ls ls'"
  by (auto simp: getReference_def Let_def ext_def setLayer_def layer_ident_def split: option.splits)

lemma ext_deleteLayer: "deleteLayer E a l ls = (r, ls') \<Longrightarrow> ext ls ls'"
  using deleteLayer_frame by (metis ext_frame(1,2) ext_refl)

lemma ext_releaseLayer_loop: "releaseLayer_loop E a dep removed ls = (r, ls') \<Longrightarrow> ext ls ls'"
proof (induction a arbitrary: dep removed ls rule: less_induct)
  case (less a)
  show ?case
  proof (cases "heap ls a")
    case None
    with less.prems show ?thesis by (simp add: releaseLayer_loop.simps [of E a])
  next
    case (Some l)
    define ls1 where "ls1 = setLayer a (dropOne l) ls"
    have e1: "ext ls ls1" unfolding ls1_def by (rule ext_setLayer [OF Some]) (simp add: layer_ident_def dropOne_def)
    obtain res ls2 where del: "deleteLayer E a (dropOne l) ls1 = (res, ls2)" by fastforce
    have e2: "ext ls ls2" using e1 ext_deleteLayer [OF del] by (rule ext_trans)
    have IH: "ext ls ls'" if "p < a" "releaseLayer_loop E p (Suc dep) rm (ls2\<lparr>layerMap := L\<rparr>) = (r, ls')" for p rm L
      using ext_trans [OF _ less.IH [OF that], of ls] e2 by simp
    show ?thesis
      using less.prems Some e1 e2 IH del
      unfolding releaseLayer_loop.simps [of E a] Let_def ls1_def [symmetric] dropOne_def [symmetric]
      by (auto simp: ls1_def [symmetric] dropOne_def [symmetric] split: sum.splits if_splits option.splits)
  qed
qed

section \<open>Contract of the operations\<close>

definition op_ok :: "'w env \<Rightarrow> (addr \<Rightarrow> nat) \<Rightarrow> 'w layerStore \<Rightarrow> 'a outcome \<Rightarrow> 'w layerStore \<Rightarrow> bool" where
  "op_ok E P ls r ls' \<longleftrightarrow> store_inv E P ls' \<and> \<not> is_panic r \<and> ext ls ls'"

lemma op_okI [intro?]: "store_inv E P ls' \<Longrightarrow> \<not> is_panic r \<Longrightarrow> ext ls ls' \<Longrightarrow> op_ok E P ls r ls'"
  by (simp add: op_ok_def)

lemma op_ok_ext: "ext ls1 ls2 \<Longrightarrow> op_ok E P ls2 r ls' \<Longrightarrow> op_ok E P ls1 r ls'"
  unfolding op_ok_def using ext_trans by blast

lemma releaseLayer_post:
  "store_inv E (hold (Some a) P) ls \<Longrightarrow> releaseLayer E a ls = (r, ls') \<Longrightarrow> release_post E P a [] ls r ls'"
  unfolding releaseLayer_def by (rule releaseLayer_loop_post) simp_all

lemma releaseLayer_ok:
  "store_inv E (hold (Some a) P) ls \<Longrightarrow> releaseLayer E a ls = (r, ls') \<Longrightarrow> op_ok E P ls r ls'"
  using releaseLayer_post [of E a P ls r ls'] ext_releaseLayer_loop [of E a 0 "[]" ls r ls']
  by (simp add: op_ok_def release_post_def releaseLayer_def)

lemma deferRelease_ok:
  assumes inv: "store_inv E (hold p P) ls" and r0: "\<not> is_panic r0" and run: "deferRelease E p (r0, ls) = (r, ls')"
  shows "op_ok E P ls r ls'" "r = r0"
proof -
  have "op_ok E P ls r ls' \<and> r = r0"
  proof (cases p)
    case None
    with assms show ?thesis by (simp add: deferRelease_def op_ok_def)
  next
    case (Some a)
    obtain r1 ls1 where rel: "releaseLayer E a ls = (r1, ls1)" by fastforce
    have ok: "op_ok E P ls r1 ls1" using releaseLayer_ok [OF _ rel] inv Some by simp
    with run rel Some r0 show ?thesis by (cases r1) (auto simp: deferRelease_def op_ok_def)
  qed
  then show "op_ok E P ls r ls'" "r = r0" by blast+
qed

lemma ls_Get_ok:
  assumes inv: "store_inv E P ls" and run: "ls_Get c ls = (r, ls')"
  shows "op_ok E P ls r ls'"
proof (cases "getWithoutLock c ls")
  case (Pair o1 ls1)
  show ?thesis
  proof (cases o1)
    case None
    with Pair run inv getWithoutLock_None [of c ls ls1] show ?thesis by (auto simp: ls_Get_def op_ok_def)
  next
    case (Some a)
    obtain ref ls2 where ref: "getReference a ls1 = (ref, ls2)" by fastforce
    have "store_inv E P ls2" using getWithoutLock_Some(1) [OF inv] getReference_inv(1) [OF _ ref] Pair Some by blast
    moreover have "ext ls ls2" using ext_trans [OF ext_getWithoutLock [OF Pair] ext_getReference [OF ref]] .
    ultimately show ?thesis using run Pair Some ref by (auto simp: ls_Get_def op_ok_def)
  qed
qed

lemma ls_Release_cases:
  assumes inv: "store_inv E P ls" and run: "ls_Release E l ls = (r, ls')"
  obtains (absent) "layerMap ls (Layer_ChainID ls l) = None" "r = Ok []" "ls' = ls"
  | (unretained) a k where "layerMap ls (Layer_ChainID ls l) = Some a" "heap ls a = Some k" "l \<notin> references k"
      "r = Err ErrLayerNotRetained" "ls' = ls"
  | (held) a k where "layerMap ls (Layer_ChainID ls l) = Some a" "heap ls a = Some k" "l \<in> references k"
      "store_inv E (hold (Some a) P) (setLayer a (deleteReference k l) ls)"
      "releaseLayer E a (setLayer a (deleteReference k l) ls) = (r, ls')"
proof (cases "layerMap ls (Layer_ChainID ls l)")
  case None
  with run have "r = Ok []" "ls' = ls" by (simp_all add: ls_Release_def)
  with None show ?thesis by (rule absent)
next
  case (Some a)
  then obtain k where k: "heap ls a = Some k" "a \<in> live ls" using wf_layerMapE [OF inv_wf [OF inv] Some] by metis
  show ?thesis
  proof (cases "l \<in> references k")
    case True
    with run Some k have "releaseLayer E a (setLayer a (deleteReference k l) ls) = (r, ls')"
      by (simp add: ls_Release_def hasReference_def)
    with held [OF Some k(1) True deleteReference_inv [OF inv k True]] show ?thesis .
  next
    case False
    with run Some k have "r = Err ErrLayerNotRetained" "ls' = ls" by (simp_all add: ls_Release_def hasReference_def)
    with unretained [OF Some k(1) False] show ?thesis .
  qed
qed

lemma ls_Release_ok:
  assumes inv: "store_inv E P ls" and run: "ls_Release E l ls = (r, ls')"
  shows "op_ok E P ls r ls'"
  using inv run
proof (cases rule: ls_Release_cases)
  case (held a k)
  have "ext ls (setLayer a (deleteReference k l) ls)"
    by (rule ext_setLayer [OF held(2)]) (simp add: layer_ident_def deleteReference_def)
  then show ?thesis using releaseLayer_ok [OF held(4,5)] by (rule op_ok_ext)
qed (use inv in \<open>auto simp: op_ok_def\<close>)

section \<open>Registration\<close>

lemma cleanupTx_split: "\<exists>w. cleanupTx E cid (r, ls) = (r, ls\<lparr>world := w\<rparr>)"
  unfolding cleanupTx_def using onWorld_cases [of "drv_Remove E cid" ls]
  by (auto simp: onWorld_def split: prod.splits)

lemma cleanup_release_ok:
  assumes inv: "store_inv E (hold p P) ls" and r0: "\<not> is_panic r0"
    and run: "deferRelease E p (cleanupTx E cid (r0, ls)) = (r, ls')"
  shows "op_ok E P ls r ls'" "r = r0"
proof -
  obtain w where "cleanupTx E cid (r0, ls) = (r0, ls\<lparr>world := w\<rparr>)" using cleanupTx_split by metis
  with run have run': "deferRelease E p (r0, ls\<lparr>world := w\<rparr>) = (r, ls')" by simp
  have "store_inv E (hold p P) (ls\<lparr>world := w\<rparr>)" using inv by simp
  note ok = deferRelease_ok [OF this r0 run']
  from ok(1) show "op_ok E P ls r ls'" by (rule op_ok_ext [rotated]) simp
  from ok(2) show "r = r0" .
qed

lemma abort_ok:
  assumes "store_inv E (hold p P) ls"
  shows "deferRelease E p (Err e, ls) = (r, ls') \<Longrightarrow> op_ok E P ls r ls'"
    and "deferRelease E p (cleanupTx E cid (Err e, ls)) = (r, ls') \<Longrightarrow> op_ok E P ls r ls'"
  using deferRelease_ok(1) [OF assms, of "Err e"] cleanup_release_ok(1) [OF assms, of "Err e"] by simp_all

text \<open>A layer that is about to be committed: its chain ID and its depth are right.\<close>

definition committable :: "'w env \<Rightarrow> addr option \<Rightarrow> roLayer \<Rightarrow> 'w layerStore \<Rightarrow> bool" where
  "committable E p layer ls \<longleftrightarrow>
     parent layer = p \<and> chain_eq E ls layer \<and> referenceCount layer = 1 \<and> references layer = {} \<and>
     (\<forall>a. p = Some a \<longrightarrow> depth (heap ls) a < maxLayerDepth)"

lemma committable_frame [simp]:
  "committable E p layer (ls\<lparr>world := w\<rparr>) = committable E p layer ls"
  "committable E p layer (ls\<lparr>meta := ms\<rparr>) = committable E p layer ls"
  by (simp_all add: committable_def chain_eq_def lay_def)

lemma getWithoutLock_absent:
  assumes inv: "store_inv E P ls" and get: "getWithoutLock c ls = (None, ls')"
  shows "layerMap ls c = None"
proof (rule ccontr)
  assume "layerMap ls c \<noteq> None"
  then obtain a where a: "layerMap ls c = Some a" by blast
  then obtain l where "heap ls a = Some l" using wf_layerMapE [OF inv_wf [OF inv]] by metis
  with a get show False by (simp add: getWithoutLock_def)
qed

lemma ext_insertLayer: "insertLayer layer ls = (a, ls') \<Longrightarrow> ext ls ls'"
  by (auto simp: insertLayer_def Let_def ext_def setLayer_def)

lemma register_commit_ok:
  assumes inv: "store_inv E (hold p P) ls" and com: "committable E p layer ls"
    and run: "register_commit E p layer d ls = (r, ls')"
  shows "op_ok E P ls r ls'"
proof (cases "getWithoutLock (chainID layer) ls")
  case (Pair o1 ls1)
  show ?thesis
  proof (cases o1)
    case (Some b)
    obtain ref ls2 where ref: "getReference b ls1 = (ref, ls2)" by fastforce
    have "store_inv E (hold p P) ls2"
      using getWithoutLock_Some(1) [OF inv] getReference_inv(1) [OF _ ref] Pair Some by blast
    moreover have "deferRelease E p (cleanupTx E (cacheID layer) (Ok ref, ls2)) = (r, ls')"
      using run Pair Some ref by (simp add: register_commit_def)
    ultimately have "op_ok E P ls2 r ls'" by (intro cleanup_release_ok(1)) simp_all
    moreover have "ext ls ls2" using ext_trans [OF ext_getWithoutLock [OF Pair] ext_getReference [OF ref]] .
    ultimately show ?thesis by (metis op_ok_ext)
  next
    case None
    have new: "layerMap ls (chainID layer) = None" and ls1: "ls1 = ls"
      using getWithoutLock_absent [OF inv] getWithoutLock_None Pair None by blast+
    obtain oe ls2 where tx: "onMeta (tx_Commit E (chainID layer) d) ls = (oe, ls2)" by fastforce
    then obtain ms w where ls2: "ls2 = ls\<lparr>meta := ms, world := w\<rparr>" using onMeta_cases by (metis snd_conv)
    have inv2: "store_inv E (hold p P) ls2" using inv by (simp add: ls2)
    have ext2: "ext ls ls2" by (simp add: ls2)
    show ?thesis
    proof (cases oe)
      case (Some e)
      then have "deferRelease E p (cleanupTx E (cacheID layer) (Err e, ls2)) = (r, ls')"
        using run Pair None tx ls1 by (simp add: register_commit_def)
      then show ?thesis using abort_ok(2) [OF inv2] op_ok_ext [OF ext2] by blast
    next
      case oeN: None
      obtain a ls3 where ins: "insertLayer layer ls2 = (a, ls3)" by fastforce
      obtain ref ls4 where ref: "getReference a ls3 = (ref, ls4)" by fastforce
      have com2: "committable E p layer ls2" using com by (simp add: ls2)
      have ext3: "ext ls2 ls3" using ins by (rule ext_insertLayer)
      have "store_inv E (hold (Some a) P) ls3"
        using com2 new inv2 by (intro insertLayer_inv(1) [OF _ _ _ _ _ _ ins]) (simp_all add: committable_def ls2)
      then have "store_inv E P ls4" using getReference_inv(1) [OF _ ref] by blast
      moreover have "ext ls ls4" using ext_trans [OF ext2 ext_trans [OF ext3 ext_getReference [OF ref]]] .
      moreover have "r = Ok ref" "ls' = ls4" using run Pair None tx ls1 oeN ins ref by (auto simp: register_commit_def)
      ultimately show ?thesis by (simp add: op_ok_def)
    qed
  qed
qed

lemma newLayer_committable:
  assumes inv: "store_inv E (hold p P) ls" and dep: "\<And>a. p = Some a \<Longrightarrow> depth (heap ls) a < maxLayerDepth"
  shows "committable E p (newLayer E ls p cid sz dgst desc) ls"
proof (cases p)
  case None
  then show ?thesis by (simp add: committable_def newLayer_def chain_eq_def layerChainID_def)
next
  case (Some a)
  then have "a \<in> live ls" using inv_pending_live [OF inv, of a] by simp
  then obtain l where "heap ls a = Some l" using wf_liveE [OF inv_wf [OF inv]] by metis
  with Some dep show ?thesis
    by (simp add: committable_def newLayer_def chain_eq_def layerChainID_def lay_def)
qed

lemma layerChainID_frame [simp]:
  "layerChainID (ls\<lparr>world := w\<rparr>) = layerChainID ls" "layerChainID (ls\<lparr>meta := ms\<rparr>) = layerChainID ls"
  unfolding layerChainID_def by simp_all

lemma newLayer_frame [simp]: "newLayer E (ls\<lparr>world := w\<rparr>) = newLayer E ls"
  by (simp add: newLayer_def fun_eq_iff)

lemma applyTar_digest: "applyTar E b ts pid cid t = (Inr (sz, dgst), t') \<Longrightarrow> dgst = FromBytes E ts"
  by (auto simp: applyTar_def split: prod.splits option.splits sum.splits if_splits)

lemma register_body_cases:
  assumes run: "register_body E ts p desc ls = (r, ls')"
  shows "\<exists>w. (\<exists>e. deferRelease E p (Err e, ls\<lparr>world := w\<rparr>) = (r, ls')) \<or>
       (\<exists>e cid. deferRelease E p (cleanupTx E cid (Err e, ls\<lparr>world := w\<rparr>)) = (r, ls')) \<or>
       (\<exists>cid sz d. register_commit E p (newLayer E ls p cid sz (FromBytes E ts) desc) d (ls\<lparr>world := w\<rparr>) = (r, ls'))"
proof -
  let ?pid = "layerCacheID ls p"
  obtain cid w1 where r1: "GenerateRandomID E (world ls) = (cid, w1)" by fastforce
  obtain o2 w2 where r2: "drv_Create E cid ?pid w1 = (o2, w2)" by fastforce
  obtain o3 w3 where r3: "StartTransaction E w2 = (o3, w3)" by fastforce
  obtain o4 d4 w4 where r4: "applyTar E (useTarSplit ls) ts ?pid cid (Map.empty, w3) = (o4, (d4, w4))"
    by (metis prod.exhaust)
  note steps = run r1 r2 r3 r4
  show ?thesis
  proof (cases "\<exists>v. o2 = None \<and> o3 = None \<and> o4 = Inr v")
    case False
    with steps have "(\<exists>e. deferRelease E p (Err e, ls\<lparr>world := w2\<rparr>) = (r, ls')) \<or>
        (\<exists>e. deferRelease E p (Err e, ls\<lparr>world := w3\<rparr>) = (r, ls')) \<or>
        (\<exists>e. deferRelease E p (cleanupTx E cid (Err e, ls\<lparr>world := w4\<rparr>)) = (r, ls'))"
      by (cases o2; cases o3; cases o4) (auto simp: register_body_def onWorld_def)
    then show ?thesis by metis
  next
    case True
    then obtain sz where o: "o2 = None" "o3 = None" "o4 = Inr (sz, FromBytes E ts)"
      using applyTar_digest r4 by fastforce
    let ?layer = "newLayer E ls p cid sz (FromBytes E ts) desc"
    obtain o5 d5 w5 where r5: "storeLayer E (lsOS ls) (layerChainID ls p) ?layer (d4, w4) = (o5, (d5, w5))"
      by (metis prod.exhaust)
    with steps o have "(\<exists>e. deferRelease E p (cleanupTx E cid (Err e, ls\<lparr>world := w5\<rparr>)) = (r, ls')) \<or>
        register_commit E p ?layer d5 (ls\<lparr>world := w5\<rparr>) = (r, ls')"
      by (cases o5) (auto simp: register_body_def onWorld_def Let_def)
    then show ?thesis by metis
  qed
qed

lemma register_body_ok:
  assumes inv: "store_inv E (hold p P) ls" and dep: "\<And>a. p = Some a \<Longrightarrow> depth (heap ls) a < maxLayerDepth"
    and run: "register_body E ts p desc ls = (r, ls')"
  shows "op_ok E P ls r ls'"
proof -
  obtain w where "(\<exists>e. deferRelease E p (Err e, ls\<lparr>world := w\<rparr>) = (r, ls')) \<or>
      (\<exists>e cid. deferRelease E p (cleanupTx E cid (Err e, ls\<lparr>world := w\<rparr>)) = (r, ls')) \<or>
      (\<exists>cid sz d. register_commit E p (newLayer E ls p cid sz (FromBytes E ts) desc) d (ls\<lparr>world := w\<rparr>) = (r, ls'))"
    using register_body_cases [OF run] by (rule exE)
  moreover define ls0 where ls0: "ls0 = ls\<lparr>world := w\<rparr>"
  ultimately have cases: "(\<exists>e. deferRelease E p (Err e, ls0) = (r, ls')) \<or>
      (\<exists>e cid. deferRelease E p (cleanupTx E cid (Err e, ls0)) = (r, ls')) \<or>
      (\<exists>cid sz d. register_commit E p (newLayer E ls p cid sz (FromBytes E ts) desc) d ls0 = (r, ls'))"
    by simp
  have inv0: "store_inv E (hold p P) ls0" using inv by (simp add: ls0)
  have com: "committable E p (newLayer E ls p cid sz dgst desc) ls0" for cid sz dgst
    using newLayer_committable [OF inv dep] by (simp add: ls0)
  have "op_ok E P ls0 r ls'"
    using cases abort_ok [OF inv0] register_commit_ok [OF inv0 com] by blast
  then show ?thesis by (rule op_ok_ext [rotated]) (simp add: ls0)
qed

lemma registerWithDescriptor_ok:
  assumes inv: "store_inv E P ls" and run: "registerWithDescriptor E ts pid desc ls = (r, ls')"
  shows "op_ok E P ls r ls'"
proof (cases "pid = ''''")
  case True
  with run show ?thesis using register_body_ok [of E None P ls] inv by (simp add: registerWithDescriptor_def)
next
  case False
  obtain o1 ls1 where get: "getWithoutLock pid ls = (o1, ls1)" by fastforce
  show ?thesis
  proof (cases o1)
    case None
    with False get run inv getWithoutLock_None [of pid ls ls1] show ?thesis
      by (auto simp: registerWithDescriptor_def op_ok_def)
  next
    case (Some p)
    have inv1: "store_inv E (hold (Some p) P) ls1" using getWithoutLock_Some(1) [OF inv] get Some by blast
    have "op_ok E P ls1 r ls'"
    proof (cases "maxLayerDepth \<le> depth (heap ls1) p")
      case True
      then have "deferRelease E (Some p) (Err ErrMaxDepthExceeded, ls1) = (r, ls')"
        using False get run Some by (simp add: registerWithDescriptor_def)
      then show ?thesis using abort_ok(1) [OF inv1] by blast
    next
      case dep: False
      then have "register_body E ts (Some p) desc ls1 = (r, ls')"
        using False get run Some by (simp add: registerWithDescriptor_def)
      with dep register_body_ok [OF inv1] show ?thesis by simp
    qed
    then show ?thesis by (rule op_ok_ext [OF ext_getWithoutLock [OF get]])
  qed
qed

section \<open>Mounts\<close>

text \<open>Statements that touch only the metadata files and the outside world.\<close>

definition outer :: "'w layerStore \<Rightarrow> 'w layerStore \<Rightarrow> bool" where
  "outer ls ls' \<longleftrightarrow> (\<exists>ms w. ls' = ls\<lparr>meta := ms, world := w\<rparr>)"

lemma outer_refl [simp]: "outer ls ls"
  by (auto simp: outer_def intro!: exI [of _ "meta ls"] exI [of _ "world ls"])

lemma outer_onWorld [simp]: "outer ls ls' \<Longrightarrow> outer ls (snd (onWorld f ls'))"
  using onWorld_cases [of f ls'] by (fastforce simp: outer_def)

lemma outer_onMeta [simp]: "outer ls ls' \<Longrightarrow> outer ls (snd (onMeta f ls'))"
  using onMeta_cases [of f ls'] by (fastforce simp: outer_def)

lemma outer_steps:
  assumes "\<And>f s. f \<in> set fs \<Longrightarrow> outer ls s \<Longrightarrow> outer ls (snd (f s))"
  shows "outer ls (snd (steps fs ls))"
  using assms by (rule steps_invariant) simp_all

lemma outer_inv: "outer ls ls' \<Longrightarrow> store_inv E P ls' = store_inv E P ls"
  by (auto simp: outer_def)

lemma outer_ext: "outer ls ls' \<Longrightarrow> ext ls ls'"
  by (auto simp: outer_def)

lemma outer_mounts: "outer ls ls' \<Longrightarrow> mounts ls' = mounts ls"
  by (auto simp: outer_def)

lemma inv_mounts_finite: "store_inv E P ls \<Longrightarrow> finite (dom (mounts ls))"
  by (simp add: store_inv_def wf_store_def)

lemma inv_mount:
  "store_inv E P ls \<Longrightarrow> mounts ls n = Some m \<Longrightarrow> mname m = n"
  "store_inv E P ls \<Longrightarrow> mounts ls n = Some m \<Longrightarrow> mparent m = Some p \<Longrightarrow> p \<in> live ls"
  by (auto simp: store_inv_def wf_store_def)

lemma mount_add:
  assumes inv: "store_inv E (hold (mparent m) P) ls" and new: "mounts ls (mname m) = None"
  shows "store_inv E P (ls\<lparr>mounts := (mounts ls)(mname m \<mapsto> m), fresh := fresh ls\<rparr>)"
proof (rule mounts_inv [OF inv])
  fix a assume "a \<in> live ls"
  have "{n \<in> dom ((mounts ls)(mname m \<mapsto> m)). mparent (the (((mounts ls)(mname m \<mapsto> m)) n)) = Some a}
    = (if mparent m = Some a then insert (mname m) (mountsOn ls a) else mountsOn ls a)"
    using new by (auto simp: mountsOn_def)
  moreover have "finite (mountsOn ls a)" "mname m \<notin> mountsOn ls a"
    using new inv_mounts_finite [OF inv] by (auto simp: mountsOn_def)
  ultimately show "card {n \<in> dom ((mounts ls)(mname m \<mapsto> m)). mparent (the (((mounts ls)(mname m \<mapsto> m)) n)) = Some a} + P a
     = card (mountsOn ls a) + hold (mparent m) P a"
    by (cases "mparent m") (auto simp: hold_def)
next
  fix n k p assume "((mounts ls)(mname m \<mapsto> m)) n = Some k" "mparent k = Some p"
  then show "p \<in> live ls"
    using inv_mount(2) [OF inv] inv_pending_live [OF inv, of p] by (auto split: if_splits)
next
  fix a assume "0 < P a"
  then show "a \<in> live ls" using inv_pending_live [OF inv, of a] by (cases "mparent m") (auto simp: hold_def)
qed (use inv_mount(1) [OF inv] inv_mounts_finite [OF inv] in \<open>auto split: if_splits\<close>)

lemma mount_update:
  assumes inv: "store_inv E P ls" and m: "mounts ls n = Some m" and m': "mparent m' = mparent m" "mname m' = n"
    and f: "fresh ls \<le> f"
  shows "store_inv E P (ls\<lparr>mounts := (mounts ls)(n \<mapsto> m'), fresh := f\<rparr>)"
proof (rule mounts_inv [OF inv f])
  fix a
  have "{k \<in> dom ((mounts ls)(n \<mapsto> m')). mparent (the (((mounts ls)(n \<mapsto> m')) k)) = Some a} = mountsOn ls a"
    using m m' by (auto simp: mountsOn_def)
  then show "card {k \<in> dom ((mounts ls)(n \<mapsto> m')). mparent (the (((mounts ls)(n \<mapsto> m')) k)) = Some a} + P a
     = card (mountsOn ls a) + P a" by simp
qed (use m m' inv_mount [OF inv] inv_mounts_finite [OF inv] inv_pending_live [OF inv] in \<open>auto split: if_splits\<close>)

lemma mount_remove:
  assumes inv: "store_inv E P ls" and m: "mounts ls n = Some m"
  shows "store_inv E (hold (mparent m) P) (ls\<lparr>mounts := (mounts ls)(n := None), fresh := fresh ls\<rparr>)"
proof (rule mounts_inv [OF inv])
  fix a
  have "{k \<in> dom ((mounts ls)(n := None)). mparent (the (((mounts ls)(n := None)) k)) = Some a} = mountsOn ls a - {n}"
    by (auto simp: mountsOn_def)
  moreover have "finite (mountsOn ls a)" "n \<in> mountsOn ls a \<longleftrightarrow> mparent m = Some a"
    using m inv_mounts_finite [OF inv] by (auto simp: mountsOn_def)
  ultimately show "card {k \<in> dom ((mounts ls)(n := None)). mparent (the (((mounts ls)(n := None)) k)) = Some a} + hold (mparent m) P a
     = card (mountsOn ls a) + P a"
    using card_Suc_Diff1 [of "mountsOn ls a" n]
    by (cases "mparent m = Some a") (auto simp: hold_def split: option.splits)
next
  fix a assume "0 < hold (mparent m) P a"
  then show "a \<in> live ls"
    using inv_mount(2) [OF inv m] inv_pending_live [OF inv, of a] by (cases "mparent m = Some a") (auto simp: hold_def split: option.splits)
qed (use inv_mount [OF inv] inv_mounts_finite [OF inv] in \<open>auto split: if_splits\<close>)

lemma m_getReference_ok:
  assumes inv: "store_inv E P ls" and m: "mounts ls n = Some m" and run: "m_getReference n m ls = (r, ls')"
  shows "op_ok E P ls (Ok r) ls'"
  using run mount_update [OF inv m, of "m\<lparr>mreferences := insert r (mreferences m)\<rparr>" "Suc (fresh ls)"] inv_mount(1) [OF inv m]
  by (auto simp: m_getReference_def Let_def op_ok_def ext_def)

lemma ls_GetRWLayer_ok:
  assumes inv: "store_inv E P ls" and run: "ls_GetRWLayer n ls = (r, ls')"
  shows "op_ok E P ls r ls'"
  using run m_getReference_ok [OF inv] inv
  by (auto simp: ls_GetRWLayer_def op_ok_def split: option.splits prod.splits)

lemma saveMount_cases:
  assumes "saveMount E m ls = (r, ls')"
  shows "\<exists>ls1. outer ls ls1 \<and> (r = None \<longrightarrow> ls' = ls1\<lparr>mounts := (mounts ls)(mname m \<mapsto> m), fresh := fresh ls1\<rparr>) \<and>
     (r \<noteq> None \<longrightarrow> ls' = ls1)"
proof -
  let ?fs = "[onMeta (SetMountID E (mname m) (mountID m)),
         if initID m \<noteq> '''' then onMeta (SetInitID E (mname m) (initID m)) else skip,
         (case layerChainID ls (mparent m) of None \<Rightarrow> skip | Some c \<Rightarrow> onMeta (SetMountParent E (mname m) c))]"
  obtain oe ls1 where run: "steps ?fs ls = (oe, ls1)" by (metis prod.exhaust)
  have "outer ls (snd (steps ?fs ls))" by (rule outer_steps) (auto split: option.splits)
  then have o: "outer ls ls1" by (simp only: run snd_conv)
  show ?thesis
    using assms o outer_mounts [OF o] unfolding saveMount_def run
    by (intro exI [of _ ls1]) (auto split: option.splits)
qed

lemma saveMount_ok:
  assumes inv: "store_inv E (hold (mparent m) P) ls" and new: "mounts ls (mname m) = None"
    and run: "saveMount E m ls = (r, ls')"
  shows "r = None \<Longrightarrow> store_inv E P ls' \<and> mounts ls' (mname m) = Some m"
    and "r = Some e \<Longrightarrow> store_inv E (hold (mparent m) P) ls'" and "ext ls ls'"
proof -
  obtain ls1 where o: "outer ls ls1" and
    ok: "r = None \<Longrightarrow> ls' = ls1\<lparr>mounts := (mounts ls)(mname m \<mapsto> m), fresh := fresh ls1\<rparr>" and
    err: "r \<noteq> None \<Longrightarrow> ls' = ls1" using saveMount_cases [OF run] by blast
  have inv1: "store_inv E (hold (mparent m) P) ls1" using inv outer_inv [OF o] by blast
  have "store_inv E P (ls1\<lparr>mounts := (mounts ls)(mname m \<mapsto> m), fresh := fresh ls1\<rparr>)"
    using mount_add [OF inv1] new outer_mounts [OF o] by simp
  with ok show "r = None \<Longrightarrow> store_inv E P ls' \<and> mounts ls' (mname m) = Some m" by simp
  show "r = Some e \<Longrightarrow> store_inv E (hold (mparent m) P) ls'" using err inv1 by simp
  have "ls1\<lparr>mounts := M, fresh := fresh ls1\<rparr> = ls1\<lparr>mounts := M\<rparr>" for M by simp
  then show "ext ls ls'" using outer_ext [OF o] ok err by (cases r) simp_all
qed

lemma mount_commit_ok:
  assumes inv: "store_inv E (hold (mparent m) P) ls" and new: "mounts ls (mname m) = None"
    and run: "mount_commit E m ls = (r, ls')"
  shows "op_ok E P ls r ls'"
proof -
  obtain oe ls4 where save: "saveMount E m ls = (oe, ls4)" by fastforce
  note ok = saveMount_ok [OF inv new save]
  have "op_ok E P ls4 r ls'"
  proof (cases oe)
    case None
    obtain ref ls5 where ref: "m_getReference (mname m) m ls4 = (ref, ls5)" by fastforce
    have "op_ok E P ls4 (Ok ref) ls5" using m_getReference_ok [OF _ _ ref] ok(1) [OF None] by blast
    with run save None ref show ?thesis by (simp add: mount_commit_def)
  next
    case (Some e)
    with run save have "deferRelease E (mparent m) (Err e, ls4) = (r, ls')" by (simp add: mount_commit_def)
    then show ?thesis by (rule abort_ok(1) [OF ok(2) [OF Some]])
  qed
  then show ?thesis by (rule op_ok_ext [OF ok(3)])
qed

lemma createRW_body_cases:
  assumes run: "createRW_body E name p opts ls = (r, ls')"
  shows "\<exists>w. (\<exists>e. deferRelease E p (Err e, ls\<lparr>world := w\<rparr>) = (r, ls')) \<or>
     (\<exists>mid iid. mount_commit E \<lparr>mname = name, mountID = mid, initID = iid, mparent = p, mreferences = {}\<rparr>
        (ls\<lparr>world := w\<rparr>) = (r, ls'))"
proof -
  let ?pid = "layerCacheID ls p"
  obtain mid w1 where r1: "GenerateRandomID E (world ls) = (mid, w1)" by fastforce
  define res where "res = (case optInitFunc opts of
              None \<Rightarrow> (Inr ('''', ?pid), ls\<lparr>world := w1\<rparr>)
            | Some f \<Rightarrow>
                (case onWorld (initMount E mid ?pid (optMountLabel opts) f (optStorageOpt opts)) (ls\<lparr>world := w1\<rparr>) of
                   (Inl e, ls2) \<Rightarrow> (Inl e, ls2)
                 | (Inr i, ls2) \<Rightarrow> (Inr (i, i), ls2)))"
  have "\<exists>o2 w2. res = (o2, ls\<lparr>world := w2\<rparr>)"
  proof (cases "optInitFunc opts")
    case None
    then show ?thesis by (auto simp: res_def)
  next
    case (Some f)
    obtain x w2 where "initMount E mid ?pid (optMountLabel opts) f (optStorageOpt opts) w1 = (x, w2)" by fastforce
    with Some show ?thesis by (cases x) (auto simp: res_def onWorld_def)
  qed
  then obtain o2 w2 where r2: "res = (o2, ls\<lparr>world := w2\<rparr>)" by (elim exE)
  have run2: "(case res of (Inl e, ls2) \<Rightarrow> deferRelease E p (Err e, ls2)
      | (Inr (iid, pid2), ls2) \<Rightarrow>
        case onWorld (drv_CreateReadWrite E mid pid2 \<lparr>coMountLabel = '''', coStorageOpt = optStorageOpt opts\<rparr>) ls2 of
          (Some e, ls3) \<Rightarrow> deferRelease E p (Err e, ls3)
        | (None, ls3) \<Rightarrow> mount_commit E \<lparr>mname = name, mountID = mid, initID = iid, mparent = p, mreferences = {}\<rparr> ls3) = (r, ls')"
    using run r1 by (simp add: createRW_body_def Let_def onWorld_def [of "GenerateRandomID E"] res_def)
  show ?thesis
  proof (cases o2)
    case (Inl e)
    then have "deferRelease E p (Err e, ls\<lparr>world := w2\<rparr>) = (r, ls')" using run2 r2 by simp
    then show ?thesis by metis
  next
    case (Inr v)
    then obtain iid pid2 where v: "o2 = Inr (iid, pid2)" by (cases v) auto
    obtain o3 w3 where "drv_CreateReadWrite E mid pid2 \<lparr>coMountLabel = '''', coStorageOpt = optStorageOpt opts\<rparr> w2 = (o3, w3)"
      by fastforce
    then have "(\<exists>e. deferRelease E p (Err e, ls\<lparr>world := w3\<rparr>) = (r, ls')) \<or>
        mount_commit E \<lparr>mname = name, mountID = mid, initID = iid, mparent = p, mreferences = {}\<rparr> (ls\<lparr>world := w3\<rparr>) = (r, ls')"
      using run2 r2 v by (cases o3) (auto simp: onWorld_def)
    then show ?thesis by metis
  qed
qed

lemma createRW_body_ok:
  assumes inv: "store_inv E (hold p P) ls" and new: "mounts ls name = None"
    and run: "createRW_body E name p opts ls = (r, ls')"
  shows "op_ok E P ls r ls'"
proof -
  obtain w where "(\<exists>e. deferRelease E p (Err e, ls\<lparr>world := w\<rparr>) = (r, ls')) \<or>
     (\<exists>mid iid. mount_commit E \<lparr>mname = name, mountID = mid, initID = iid, mparent = p, mreferences = {}\<rparr>
        (ls\<lparr>world := w\<rparr>) = (r, ls'))"
    using createRW_body_cases [OF run] by (rule exE)
  then have "op_ok E P (ls\<lparr>world := w\<rparr>) r ls'"
  proof (elim disjE exE)
    fix e assume "deferRelease E p (Err e, ls\<lparr>world := w\<rparr>) = (r, ls')"
    then show ?thesis by (rule abort_ok(1) [rotated]) (simp add: inv)
  next
    fix mid iid assume "mount_commit E \<lparr>mname = name, mountID = mid, initID = iid, mparent = p, mreferences = {}\<rparr>
        (ls\<lparr>world := w\<rparr>) = (r, ls')"
    then show ?thesis by (rule mount_commit_ok [rotated 2]) (simp_all add: inv new)
  qed
  then show ?thesis by (rule op_ok_ext [rotated]) simp
qed

lemma ls_CreateRWLayer_ok:
  assumes inv: "store_inv E P ls" and run: "ls_CreateRWLayer E name pid opts ls = (r, ls')"
  shows "op_ok E P ls r ls'"
proof (cases "mounts ls name = None \<and> pid \<noteq> ''''")
  case False
  with run createRW_body_ok [of E None P ls name] inv show ?thesis
    by (auto simp: ls_CreateRWLayer_def Let_def op_ok_def split: option.splits)
next
  case True
  obtain o1 ls1 where get: "getWithoutLock pid ls = (o1, ls1)" by fastforce
  show ?thesis
  proof (cases o1)
    case None
    with True get run inv getWithoutLock_None [of pid ls ls1] show ?thesis
      by (auto simp: ls_CreateRWLayer_def Let_def op_ok_def)
  next
    case (Some p)
    note g = getWithoutLock_Some [OF inv, of pid p ls1]
    have "createRW_body E name (Some p) (case opts of None \<Rightarrow> no_opts | Some os \<Rightarrow> os) ls1 = (r, ls')"
      using True get run Some by (simp add: ls_CreateRWLayer_def Let_def)
    then have "op_ok E P ls1 r ls'" using g(1,4) get Some True by (intro createRW_body_ok) simp_all
    then show ?thesis by (rule op_ok_ext [OF ext_getWithoutLock [OF get]])
  qed
qed

lemma ls_ReleaseRWLayer_ok:
  assumes inv: "store_inv E P ls" and run: "ls_ReleaseRWLayer E l ls = (r, ls')"
  shows "op_ok E P ls r ls'"
proof (cases "mounts ls (rw_name l)")
  case None
  with run inv show ?thesis by (auto simp: ls_ReleaseRWLayer_def op_ok_def)
next
  case m: (Some m)
  show ?thesis
  proof (cases "l \<in> mreferences m")
    case False
    with m run inv show ?thesis by (auto simp: ls_ReleaseRWLayer_def m_deleteReference_def op_ok_def)
  next
    case True
    define n where "n = rw_name l"
    define m1 where "m1 = m\<lparr>mreferences := mreferences m - {l}\<rparr>"
    define ls1 where "ls1 = ls\<lparr>mounts := (mounts ls)(n \<mapsto> m1)\<rparr>"
    define fs where "fs = [onWorld (drv_Remove E (mountID m1)),
           if initID m1 \<noteq> '''' then onWorld (drv_Remove E (initID m1)) else skip,
           onMeta (ms_RemoveMount E (mname m1))]"
    have name: "mname m1 = n" using inv_mount(1) [OF inv m] by (simp add: m1_def n_def)
    have inv1: "store_inv E P ls1"
      using mount_update [OF inv m, of m1 "fresh ls"] name by (simp add: ls1_def m1_def n_def)
    have ext1: "ext ls ls1" by (simp add: ls1_def)
    obtain oe ls2 where st: "steps fs ls1 = (oe, ls2)" by fastforce
    have "outer ls1 (snd (steps fs ls1))" by (rule outer_steps) (auto simp: fs_def)
    then have o: "outer ls1 ls2" using st by simp
    have inv2: "store_inv E P ls2" using inv1 outer_inv [OF o] by blast
    have ext2: "ext ls ls2" using ext_trans [OF ext1 outer_ext [OF o]] .
    have m2: "mounts ls2 n = Some m1" using outer_mounts [OF o] by (simp add: ls1_def)
    have del: "m_deleteReference m l = Inr m1" using True by (simp add: m_deleteReference_def m1_def)
    have mn: "mounts ls n = Some m" using m by (simp add: n_def)
    note run' = run [unfolded ls_ReleaseRWLayer_def Let_def n_def [symmetric], unfolded mn option.case del sum.case,
        folded ls1_def fs_def, unfolded st]
    show ?thesis
    proof (cases "m_hasReferences m1")
      case True
      with run' inv1 ext1 show ?thesis by (auto simp: op_ok_def)
    next
      case False
      show ?thesis
      proof (cases oe)
        case (Some e)
        have "store_inv E P (ls2\<lparr>mounts := (mounts ls2)(n \<mapsto> m_retakeReference m1 l)\<rparr>)"
          using mount_update [OF inv2 m2, of "m_retakeReference m1 l" "fresh ls2"] name
          by (simp add: m_retakeReference_def)
        with run' False Some ext2 show ?thesis by (auto simp: op_ok_def)
      next
        case None
        define ls3 where "ls3 = ls2\<lparr>mounts := (mounts ls2)(n := None)\<rparr>"
        have inv3: "store_inv E (hold (mparent m1) P) ls3" using mount_remove [OF inv2 m2] by (simp add: ls3_def)
        have ext3: "ext ls ls3" using ext2 by (simp add: ls3_def)
        have "(case mparent m1 of None \<Rightarrow> (Ok [], ls3) | Some p \<Rightarrow> releaseLayer E p ls3) = (r, ls')"
          using run' False None unfolding ls3_def name by simp
        then have "op_ok E P ls3 r ls'"
          using inv3 releaseLayer_ok [of E _ P ls3 r ls'] by (cases "mparent m1") (auto simp: op_ok_def)
        with ext3 show ?thesis by (rule op_ok_ext)
      qed
    qed
  qed
qed

lemmas operations_ok = ls_Get_ok ls_Release_ok registerWithDescriptor_ok ls_GetRWLayer_ok
  ls_CreateRWLayer_ok ls_ReleaseRWLayer_ok

end
