(* ===== verification/Image_Store.thy ===== *)
theory Image_Store
  imports Image_FS Layer_Operations
begin

text \<open>
  The image store (\<open>engine/image/store.go\<close>).  Images are configurations in a backend, a
  reference to their top layer, and the parent/child links between them.  The store uses two
  interfaces, \<open>StoreBackend\<close> and \<open>LayerGetReleaser\<close>, whose implementations are arguments; each
  definition is one method under the store's lock.
\<close>

section \<open>State\<close>

record 's LayerGetReleaser =
  lg_Get :: "string \<Rightarrow> ('s, Layer) M"
  lg_Release :: "Layer \<Rightarrow> ('s, LayerMetadata list) M"

record imageMeta =
  imLayer :: "Layer option"
  imChildren :: "string set"

record ('b, 's) imageStore =
  images :: "string \<rightharpoonup> imageMeta"
  digestSet :: "digestEntry list"
  backend :: 'b
  layers :: 's

text \<open>The interfaces, the JSON package and the clock the store is built with.\<close>

record ('b, 's) imageEnv =
  ieFs :: "'b StoreBackend"
  ieLss :: "string \<rightharpoonup> 's LayerGetReleaser"
  ieUnmarshal :: "string \<Rightarrow> go_error + Image"
  ieFromBytes :: "string \<Rightarrow> string"

definition onBackend :: "('b, 'a) M \<Rightarrow> (('b, 's) imageStore, 'a) M" where
  "onBackend m st = (case m (backend st) of (r, b) \<Rightarrow> (r, st\<lparr>backend := b\<rparr>))"

definition onLayers :: "('s, 'a) M \<Rightarrow> (('b, 's) imageStore, 'a) M" where
  "onLayers m st = (case m (layers st) of (r, s) \<Rightarrow> (r, st\<lparr>layers := s\<rparr>))"

definition ErrNotSupportedOperatingSystem :: go_error where
  "ErrNotSupportedOperatingSystem = Sentinel ''operating system is not supported''"

definition nilPanic :: "('s, 'a) M" where
  "nilPanic = panicM ''invalid memory address or nil pointer dereference''"

section \<open>Operations\<close>

definition is_GetParent :: "('b, 's) imageEnv \<Rightarrow> string \<Rightarrow> (('b, 's) imageStore, string) M" where
  "is_GetParent K iid = onBackend (be_GetMetadata (ieFs K) iid ''parent'')"

definition is_Get :: "('b, 's) imageEnv \<Rightarrow> string \<Rightarrow> (('b, 's) imageStore, Image) M" where
  "is_Get K iid =
     bindM (onBackend (be_Get (ieFs K) iid)) (\<lambda>config.
     bindM (liftE (NewFromJSON (ieUnmarshal K) config)) (\<lambda>img.
     bindM (tryM (is_GetParent K iid)) (\<lambda>p.
     ret (img\<lparr>computedID := iid, imgParent := (case p of Some q \<Rightarrow> q | None \<Rightarrow> '''')\<rparr>))))"

text \<open>The layer of an image, retained; a store missing from \<open>lss\<close> is a nil interface.\<close>

definition retainLayer :: "('b, 's) imageEnv \<Rightarrow> Image \<Rightarrow> string \<Rightarrow> (('b, 's) imageStore, Layer) M" where
  "retainLayer K img layerID =
     (case ieLss K (OperatingSystem img) of
        None \<Rightarrow> nilPanic
      | Some ls \<Rightarrow> onLayers (lg_Get ls layerID))"

definition mapErr :: "(go_error \<Rightarrow> go_error) \<Rightarrow> ('s, 'a) M \<Rightarrow> ('s, 'a) M" where
  "mapErr f m s = (case m s of (Err e, s') \<Rightarrow> (Err (f e), s') | (Ok a, s') \<Rightarrow> (Ok a, s') | (Panic p, s') \<Rightarrow> (Panic p, s'))"

definition is_addImage :: "string \<Rightarrow> Layer option \<Rightarrow> (('b, 's) imageStore, string) M" where
  "is_addImage imageID l st =
     (let st1 = st\<lparr>images := (images st)(imageID \<mapsto> \<lparr>imLayer = l, imChildren = {}\<rparr>)\<rparr> in
      case ds_Add imageID (digestSet st1) of
        (Some e, ds) \<Rightarrow> (Err e, st1\<lparr>images := (images st1)(imageID := None), digestSet := ds\<rparr>)
      | (None, ds) \<Rightarrow> (Ok imageID, st1\<lparr>digestSet := ds\<rparr>))"

text \<open>The part of \<open>Create\<close> under the lock.\<close>

definition is_createLocked ::
  "('b, 's) imageEnv \<Rightarrow> Image \<Rightarrow> RootFS \<Rightarrow> string \<Rightarrow> (('b, 's) imageStore, string) M" where
  "is_createLocked K img rootFS imageID st =
     (if images st imageID \<noteq> None then (Ok imageID, st)
      else
        let layerID = RootFS_ChainID (ieFromBytes K) rootFS in
        if layerID \<noteq> '''' then
          (if \<not> IsOSSupported (OperatingSystem img) then (Err ErrNotSupportedOperatingSystem, st)
           else bindM (mapErr (Wrap (''failed to get layer '' @ layerID)) (retainLayer K img layerID)) (\<lambda>l.
                is_addImage imageID (Some l)) st)
        else is_addImage imageID None st)"

definition is_Create :: "('b, 's) imageEnv \<Rightarrow> string \<Rightarrow> (('b, 's) imageStore, string) M" where
  "is_Create K config =
     bindM (liftE (ieUnmarshal K config)) (\<lambda>img.
     case imgRootFS img of
       None \<Rightarrow> nilPanic
     | Some rootFS \<Rightarrow>
         if layerCount (imgHistory img) > length (DiffIDs rootFS)
         then raise (Errorf ''too many non-empty layers in History section'')
         else bindM (onBackend (be_Set (ieFs K) config)) (is_createLocked K img rootFS))"

definition is_Search :: "string \<Rightarrow> (('b, 's) imageStore, string) M" where
  "is_Search term st =
     (case ds_Lookup (digestSet st) term of
        Inr d \<Rightarrow> (Ok d, st)
      | Inl e \<Rightarrow>
          (Err (WithStack (if e = ErrDigestNotFound then Typed NotFound (''No such image: '' @ term) else e)), st))"

text \<open>Remove an image from the children of its parent, when the parent is known.\<close>

definition unlinkParent :: "('b, 's) imageEnv \<Rightarrow> string \<Rightarrow> (('b, 's) imageStore, unit) M" where
  "unlinkParent K iid =
     bindM (tryM (is_GetParent K iid)) (\<lambda>p.
     case p of
       None \<Rightarrow> ret ()
     | Some q \<Rightarrow> updM (\<lambda>st.
         case images st q of
           None \<Rightarrow> st
         | Some pm \<Rightarrow> st\<lparr>images := (images st)(q \<mapsto> pm\<lparr>imChildren := imChildren pm - {iid}\<rparr>)\<rparr>))"

text \<open>The iteration over the children follows Go's unspecified map order; any order gives the
  same maps, and the model takes the sorted one.\<close>

definition is_Delete :: "('b, 's) imageEnv \<Rightarrow> string \<Rightarrow> (('b, 's) imageStore, LayerMetadata list) M" where
  "is_Delete K iid =
     bindM getM (\<lambda>st0.
     case images st0 iid of
       None \<Rightarrow> raise (Errorf (''unrecognized image ID '' @ iid))
     | Some im \<Rightarrow>
         bindM (mapErr (\<lambda>e. Errorf (''unrecognized image '' @ iid @ '', '' @ err_string e)) (is_Get K iid)) (\<lambda>img.
         if \<not> IsOSSupported (OperatingSystem img)
         then raise (Errorf (''unsupported image operating system '' @ OperatingSystem img))
         else
           bindM (forM (sorted_list_of_set (imChildren im)) (\<lambda>c.
                    bindM (tryM (onBackend (be_DeleteMetadata (ieFs K) c ''parent''))) (\<lambda>_. ret ()))) (\<lambda>_.
           bindM (unlinkParent K iid) (\<lambda>_.
           bindM (updM (\<lambda>st. st\<lparr>digestSet := snd (ds_Remove iid (digestSet st)), images := (images st)(iid := None)\<rparr>)) (\<lambda>_.
           bindM (tryM (onBackend (be_Delete (ieFs K) iid))) (\<lambda>_.
           case imLayer im of
             None \<Rightarrow> ret []
           | Some l \<Rightarrow>
               (case ieLss K (OperatingSystem img) of
                  None \<Rightarrow> nilPanic
                | Some ls \<Rightarrow> onLayers (lg_Release ls l))))))))"

definition is_SetParent :: "('b, 's) imageEnv \<Rightarrow> string \<Rightarrow> string \<Rightarrow> (('b, 's) imageStore, unit) M" where
  "is_SetParent K iid par =
     bindM getM (\<lambda>st0.
     if images st0 par = None then raise (Errorf (''unknown parent image ID '' @ par))
     else
       bindM (unlinkParent K iid) (\<lambda>_.
       bindM (updM (\<lambda>st.
         case images st par of
           None \<Rightarrow> st
         | Some pm \<Rightarrow> st\<lparr>images := (images st)(par \<mapsto> pm\<lparr>imChildren := insert iid (imChildren pm)\<rparr>)\<rparr>)) (\<lambda>_.
       onBackend (be_SetMetadata (ieFs K) iid ''parent'' par))))"

definition is_SetLastUpdated :: "('b, 's) imageEnv \<Rightarrow> string \<Rightarrow> string \<Rightarrow> (('b, 's) imageStore, unit) M" where
  "is_SetLastUpdated K now iid = onBackend (be_SetMetadata (ieFs K) iid ''lastUpdated'' now)"

text \<open>\<open>time.Parse\<close> is an argument; \<open>zero\<close> is the zero time.\<close>

definition is_GetLastUpdated ::
  "('b, 's) imageEnv \<Rightarrow> 't \<Rightarrow> (string \<Rightarrow> go_error + 't) \<Rightarrow> string \<Rightarrow> (('b, 's) imageStore, 't) M" where
  "is_GetLastUpdated K zero parse iid =
     bindM (tryM (onBackend (be_GetMetadata (ieFs K) iid ''lastUpdated''))) (\<lambda>o1.
     case o1 of
       None \<Rightarrow> ret zero
     | Some bytes \<Rightarrow> if bytes = '''' then ret zero else liftE (parse bytes))"

definition is_Children :: "string \<Rightarrow> ('b, 's) imageStore \<Rightarrow> string set" where
  "is_Children iid st = (case images st iid of None \<Rightarrow> {} | Some im \<Rightarrow> imChildren im)"

definition is_Len :: "('b, 's) imageStore \<Rightarrow> nat" where
  "is_Len st = card (dom (images st))"

text \<open>\<open>Map\<close> and \<open>Heads\<close>: the images that can be read, all of them or those without children.\<close>

fun imagesMap_loop :: "('b, 's) imageEnv \<Rightarrow> bool \<Rightarrow> string list \<Rightarrow> (('b, 's) imageStore, string \<rightharpoonup> Image) M" where
  "imagesMap_loop K all [] = ret Map.empty"
| "imagesMap_loop K all (iid # ids) =
     bindM getM (\<lambda>st.
     if \<not> all \<and> is_Children iid st \<noteq> {} then imagesMap_loop K all ids
     else
       bindM (tryM (is_Get K iid)) (\<lambda>o1.
       bindM (imagesMap_loop K all ids) (\<lambda>m.
       ret (case o1 of None \<Rightarrow> m | Some img \<Rightarrow> m(iid \<mapsto> img)))))"

definition is_imagesMap :: "('b, 's) imageEnv \<Rightarrow> bool \<Rightarrow> (('b, 's) imageStore, string \<rightharpoonup> Image) M" where
  "is_imagesMap K all = bindM getM (\<lambda>st. imagesMap_loop K all (sorted_list_of_set (dom (images st))))"

definition is_Heads :: "('b, 's) imageEnv \<Rightarrow> (('b, 's) imageStore, string \<rightharpoonup> Image) M" where
  "is_Heads K = is_imagesMap K False"

definition is_Map :: "('b, 's) imageEnv \<Rightarrow> (('b, 's) imageStore, string \<rightharpoonup> Image) M" where
  "is_Map K = is_imagesMap K True"

section \<open>Restoring\<close>

definition restoreImage :: "('b, 's) imageEnv \<Rightarrow> string \<Rightarrow> (('b, 's) imageStore, unit) M" where
  "restoreImage K dgst =
     bindM (tryM (is_Get K dgst)) (\<lambda>o1.
     case o1 of
       None \<Rightarrow> ret ()
     | Some img \<Rightarrow>
         (case imgRootFS img of
            None \<Rightarrow> nilPanic
          | Some rootFS \<Rightarrow>
              let chainID = RootFS_ChainID (ieFromBytes K) rootFS;
                  add = (\<lambda>l. bindM (\<lambda>st. case ds_Add dgst (digestSet st) of
                                 (Some e, ds) \<Rightarrow> (Err e, st\<lparr>digestSet := ds\<rparr>)
                               | (None, ds) \<Rightarrow> (Ok (), st\<lparr>digestSet := ds\<rparr>)) (\<lambda>_.
                             updM (\<lambda>st. st\<lparr>images := (images st)(dgst \<mapsto> \<lparr>imLayer = l, imChildren = {}\<rparr>)\<rparr>)))
              in if chainID \<noteq> '''' then
                   (if \<not> IsOSSupported (OperatingSystem img) then ret ()
                    else (\<lambda>st.
                      case retainLayer K img chainID st of
                        (Ok l, st1) \<Rightarrow> add (Some l) st1
                      | (Err e, st1) \<Rightarrow> if e = ErrLayerDoesNotExist then (Ok (), st1) else (Err e, st1)
                      | (Panic p, st1) \<Rightarrow> (Panic p, st1)))
                 else add None))"

definition restoreChild :: "('b, 's) imageEnv \<Rightarrow> string \<Rightarrow> (('b, 's) imageStore, unit) M" where
  "restoreChild K iid =
     bindM (tryM (is_GetParent K iid)) (\<lambda>p.
     case p of
       None \<Rightarrow> ret ()
     | Some q \<Rightarrow> updM (\<lambda>st.
         case images st q of
           None \<Rightarrow> st
         | Some pm \<Rightarrow> st\<lparr>images := (images st)(q \<mapsto> pm\<lparr>imChildren := insert iid (imChildren pm)\<rparr>)\<rparr>))"

definition is_restore :: "('b, 's) imageEnv \<Rightarrow> (('b, 's) imageStore, unit) M" where
  "is_restore K =
     bindM (onBackend (be_Walk (ieFs K))) (\<lambda>dgsts.
     bindM (forM dgsts (restoreImage K)) (\<lambda>_.
     bindM getM (\<lambda>st.
     forM (sorted_list_of_set (dom (images st))) (restoreChild K))))"

definition NewImageStore :: "('b, 's) imageEnv \<Rightarrow> 'b \<Rightarrow> 's \<Rightarrow> unit outcome \<times> ('b, 's) imageStore" where
  "NewImageStore K b s = is_restore K \<lparr>images = Map.empty, digestSet = [], backend = b, layers = s\<rparr>"

section \<open>What the store relies on\<close>

text \<open>
  The contract of \<open>LayerGetReleaser\<close>: \<open>held\<close> is the set of references handed out and not yet
  released.  \<open>Get\<close> hands out a new reference or changes nothing; \<open>Release\<close> of a reference that
  is held gives it up.
\<close>

locale layer_getter =
  fixes ls :: "'s LayerGetReleaser" and sinv :: "'s \<Rightarrow> bool" and held :: "'s \<Rightarrow> Layer set"
  assumes get_law: "sinv s \<Longrightarrow> lg_Get ls c s = (r, s') \<Longrightarrow>
        sinv s' \<and> \<not> is_panic r \<and> (\<forall>l. r = Ok l \<longrightarrow> l \<notin> held s \<and> held s' = insert l (held s)) \<and>
        (\<forall>e. r = Err e \<longrightarrow> held s' = held s)"
    and release_law: "sinv s \<Longrightarrow> l \<in> held s \<Longrightarrow> lg_Release ls l s = (rr, s') \<Longrightarrow>
        sinv s' \<and> \<not> is_panic rr \<and> held s' = held s - {l}"

definition owned :: "('b, 's) imageStore \<Rightarrow> Layer set" where
  "owned st = {l. \<exists>i im. images st i = Some im \<and> imLayer im = Some l}"

text \<open>
  The invariant of the image store, with the set \<open>X\<close> of references an operation has in hand:
  the references held in the layer store are those of the images and those in \<open>X\<close>, no two
  images share one, and the digest set lists exactly the images.
\<close>

definition img_inv :: "('s \<Rightarrow> bool) \<Rightarrow> ('s \<Rightarrow> Layer set) \<Rightarrow> Layer set \<Rightarrow> ('b, 's) imageStore \<Rightarrow> bool" where
  "img_inv sinv held X st \<longleftrightarrow>
     sinv (layers st) \<and> finite (dom (images st)) \<and> held (layers st) = owned st \<union> X \<and> owned st \<inter> X = {} \<and>
     (\<forall>i j mi mj l. images st i = Some mi \<and> images st j = Some mj \<and> imLayer mi = Some l \<and> imLayer mj = Some l \<longrightarrow> i = j) \<and>
     ds_inv (digestSet st) \<and> ds_set (digestSet st) = dom (images st) \<and> (\<forall>i \<in> dom (images st). Validate i = None)"

lemma img_inv_backend [simp]: "img_inv sinv held X (st\<lparr>backend := b\<rparr>) = img_inv sinv held X st"
  by (simp add: img_inv_def owned_def)

text \<open>Changing the children of an image does not matter to the invariant.\<close>

definition relinked :: "('b, 's) imageStore \<Rightarrow> ('b, 's) imageStore \<Rightarrow> bool" where
  "relinked st st' \<longleftrightarrow> digestSet st' = digestSet st \<and> layers st' = layers st \<and>
     (\<forall>i. map_option imLayer (images st' i) = map_option imLayer (images st i))"

lemma relinked_dom: "relinked st st' \<Longrightarrow> dom (images st') = dom (images st)"
  unfolding relinked_def by (metis (no_types, lifting) domIff map_option_is_None subsetI subset_antisym)

lemma relinked_layer:
  "relinked st st' \<Longrightarrow> (\<exists>im. images st' i = Some im \<and> imLayer im = x) \<longleftrightarrow> (\<exists>im. images st i = Some im \<and> imLayer im = x)"
  unfolding relinked_def by (metis (no_types, lifting) map_option_eq_Some)

lemma img_inv_relinked:
  assumes inv: "img_inv sinv held X st" and re: "relinked st st'"
  shows "img_inv sinv held X st'"
proof -
  have own: "owned st' = owned st" using relinked_layer [OF re] by (auto simp: owned_def)
  have inj: "i = j" if "images st' i = Some mi" "images st' j = Some mj" "imLayer mi = Some l" "imLayer mj = Some l" for i j mi mj l
    using inv relinked_layer [OF re, of i "Some l"] relinked_layer [OF re, of j "Some l"] that unfolding img_inv_def by metis
  show ?thesis
    using inv own inj relinked_dom [OF re] re unfolding img_inv_def relinked_def by metis
qed

lemma relinked_update:
  "images st q = Some pm \<Longrightarrow> imLayer pm' = imLayer pm \<Longrightarrow> relinked st (st\<lparr>images := (images st)(q \<mapsto> pm')\<rparr>)"
  by (simp add: relinked_def)

lemma keeps_onBackend [keeps_intro]: "(\<And>st b. I st \<Longrightarrow> I (st\<lparr>backend := b\<rparr>)) \<Longrightarrow> keeps I (onBackend m)"
  by (auto simp: keeps_def onBackend_def split: prod.splits)

lemma keeps_mapErr [keeps_intro]: "keeps I m \<Longrightarrow> keeps I (mapErr f m)"
  by (auto simp: keeps_def mapErr_def split: prod.splits outcome.splits)

text \<open>An image store over one layer store.\<close>

locale image_client = layer_getter ls sinv held
  for ls :: "'s LayerGetReleaser" and sinv held +
  fixes K :: "('b, 's) imageEnv"
  assumes one_store: "ieLss K os = Some g \<Longrightarrow> g = ls"
begin

abbreviation I :: "Layer set \<Rightarrow> ('b, 's) imageStore \<Rightarrow> bool" where
  "I \<equiv> img_inv sinv held"

lemma keeps_is_Get [keeps_intro]: "(\<And>st b. J st \<Longrightarrow> J (st\<lparr>backend := b\<rparr>)) \<Longrightarrow> keeps J (is_Get K i)"
  unfolding is_Get_def is_GetParent_def by (intro keeps_intro) assumption+

lemma keeps_unlinkParent:
  assumes "\<And>st b. J st \<Longrightarrow> J (st\<lparr>backend := b\<rparr>)" "\<And>st st'. J st \<Longrightarrow> relinked st st' \<Longrightarrow> J st'"
  shows "keeps J (unlinkParent K i)"
proof -
  have "J (case images st q of None \<Rightarrow> st
         | Some pm \<Rightarrow> st\<lparr>images := (images st)(q \<mapsto> pm\<lparr>imChildren := imChildren pm - {i}\<rparr>)\<rparr>)" if "J st" for st q
    using that assms(2) [OF that relinked_update] by (auto split: option.split)
  then show ?thesis
    unfolding unlinkParent_def is_GetParent_def using assms(1) by (intro keeps_intro) blast+
qed

lemma retainLayer_valid:
  "valid (I {}) (retainLayer K img c) (\<lambda>r st. is_panic r \<or> (case r of Ok l \<Rightarrow> I {l} st | _ \<Rightarrow> I {} st))"
proof (rule validI)
  fix st r st' assume inv: "I {} st" and run: "retainLayer K img c st = (r, st')"
  show "is_panic r \<or> (case r of Ok l \<Rightarrow> I {l} st' | _ \<Rightarrow> I {} st')"
  proof (cases "ieLss K (OperatingSystem img)")
    case None
    with run show ?thesis by (auto simp: retainLayer_def nilPanic_def panicM_def)
  next
    case (Some g)
    obtain r1 s1 where get: "lg_Get ls c (layers st) = (r1, s1)" by fastforce
    have st': "r = r1" "st' = st\<lparr>layers := s1\<rparr>"
      using run Some one_store [OF Some] get by (auto simp: retainLayer_def onLayers_def)
    have "sinv (layers st)" using inv by (simp add: img_inv_def)
    note law = get_law [OF this get]
    have own: "owned st' = owned st" by (simp add: st' owned_def)
    show ?thesis
      using law inv own unfolding img_inv_def by (cases r1) (auto simp: st')
  qed
qed

lemma addImage_keeps:
  assumes "I X st" "X = set_option l" "Validate i = None" "images st i = None" "is_addImage i l st = (r, st')"
  shows "I {} st' \<and> r = Ok i"
proof -
  have ds: "ds_inv (digestSet st)" "ds_set (digestSet st) = dom (images st)" using assms(1) by (simp_all add: img_inv_def)
  obtain ds' where add: "ds_Add i (digestSet st) = (None, ds')" "ds_inv ds'" "ds_set ds' = insert i (dom (images st))"
    using dsi.add_law [OF ds(1) assms(3)] ds(2) by metis
  have st': "r = Ok i" "st' = st\<lparr>images := (images st)(i \<mapsto> \<lparr>imLayer = l, imChildren = {}\<rparr>), digestSet := ds'\<rparr>"
    using assms(5) add(1) by (auto simp: is_addImage_def Let_def)
  have own: "owned st' = owned st \<union> set_option l"
  proof (rule set_eqI)
    fix x
    have "(\<exists>j im. images st' j = Some im \<and> imLayer im = Some x) \<longleftrightarrow>
        (\<exists>j im. j \<noteq> i \<and> images st j = Some im \<and> imLayer im = Some x) \<or> l = Some x"
      by (auto simp: st' split: if_splits)
    also have "\<dots> \<longleftrightarrow> (\<exists>j im. images st j = Some im \<and> imLayer im = Some x) \<or> l = Some x"
      using assms(4) by (metis option.distinct(1))
    finally show "x \<in> owned st' \<longleftrightarrow> x \<in> owned st \<union> set_option l" by (cases l) (auto simp: owned_def)
  qed
  have nl: "l = Some k \<Longrightarrow> k \<notin> owned st" for k using assms(1,2) by (auto simp: img_inv_def)
  have inj: "a = b" if "images st' a = Some ma" "images st' b = Some mb" "imLayer ma = Some k" "imLayer mb = Some k" for a b ma mb k
  proof -
    have old: "k \<in> owned st" if "c \<noteq> i" "images st' c = Some mc" "imLayer mc = Some k" for c mc
      using that by (auto simp: st' owned_def)
    have new: "l = Some k" if "images st' i = Some mi" "imLayer mi = Some k" for mi
      using that by (auto simp: st')
    show ?thesis
    proof (cases "a = i \<or> b = i")
      case True
      with that new have "l = Some k" by blast
      then have "k \<notin> owned st" by (rule nl)
      with that old show ?thesis by metis
    next
      case False
      with that have "images st a = Some ma" "images st b = Some mb" by (simp_all add: st')
      with that assms(1) show ?thesis unfolding img_inv_def by metis
    qed
  qed
  have "I {} st'"
    unfolding img_inv_def
  proof (intro conjI)
    show "\<forall>a b ma mb k. images st' a = Some ma \<and> images st' b = Some mb \<and> imLayer ma = Some k \<and> imLayer mb = Some k \<longrightarrow> a = b"
      using inj by blast
    show "held (layers st') = owned st' \<union> {}" unfolding own using assms(1,2) by (simp add: img_inv_def st')
    show "\<forall>j \<in> dom (images st'). Validate j = None" using assms(1,3) by (simp add: img_inv_def st')
  qed (use assms(1) add in \<open>simp_all add: img_inv_def st'\<close>)
  with st' show ?thesis by simp
qed

lemma createLocked_keeps:
  assumes i: "Validate i = None"
  shows "valid (I {}) (is_createLocked K img rootFS i) (\<lambda>r st. is_panic r \<or> I {} st)"
proof (rule validI)
  fix st r st'
  define c where "c = RootFS_ChainID (ieFromBytes K) rootFS"
  assume inv: "I {} st" and run: "is_createLocked K img rootFS i st = (r, st')"
  obtain r1 st1 where ret: "retainLayer K img c st = (r1, st1)" by fastforce
  have imgs: "images st1 = images st"
    using ret by (auto simp: retainLayer_def nilPanic_def panicM_def onLayers_def split: option.splits prod.splits)
  show "is_panic r \<or> I {} st'"
  proof (cases "images st i")
    case (Some m)
    with run inv show ?thesis by (simp add: is_createLocked_def)
  next
    case None
    show ?thesis
    proof (cases "c = ''''")
      case True
      then have "is_addImage i None st = (r, st')" using run None by (simp add: is_createLocked_def c_def)
      then show ?thesis using addImage_keeps [OF inv, of None i r st'] i None by simp
    next
      case False
      show ?thesis
      proof (cases "IsOSSupported (OperatingSystem img)")
        case unsupported: False
        then show ?thesis using run None False inv by (simp add: is_createLocked_def c_def)
      next
        case True
        then have run': "bindM (mapErr (Wrap (''failed to get layer '' @ c)) (retainLayer K img c)) (\<lambda>l. is_addImage i (Some l)) st = (r, st')"
          using run None False by (simp add: is_createLocked_def c_def Let_def)
        note post = validD [OF retainLayer_valid inv ret]
        show ?thesis
        proof (cases r1)
          case (Ok l)
          then have add: "is_addImage i (Some l) st1 = (r, st')" using run' ret by (simp add: bindM_def mapErr_def)
          have inv1: "I {l} st1" using post Ok by simp
          have none1: "images st1 i = None" using None imgs by simp
          have "{l} = set_option (Some l)" by simp
          from addImage_keeps [OF inv1 this i none1 add] show ?thesis by blast
        next
          case (Err e)
          then have "st' = st1" using run' ret by (simp add: bindM_def mapErr_def)
          then show ?thesis using post Err by simp
        next
          case (Panic p)
          then have "r = Panic p" using run' ret by (simp add: bindM_def mapErr_def)
          then show ?thesis by simp
        qed
      qed
    qed
  qed
qed

text \<open>The backend names images by valid digests.\<close>

lemma create_keeps:
  assumes set_valid: "\<And>c b d b'. be_Set (ieFs K) c b = (Ok d, b') \<Longrightarrow> Validate d = None"
  shows "valid (I {}) (is_Create K config) (\<lambda>r st. is_panic r \<or> I {} st)"
proof -
  have head: "valid (I {}) (onBackend (be_Set (ieFs K) config))
      (fails_with (\<lambda>r st. is_panic r \<or> I {} st) (\<lambda>i st. I {} st \<and> Validate i = None))"
    by (rule validI) (auto simp: onBackend_def fails_with_def split: prod.splits outcome.splits dest: set_valid)
  have body: "valid (I {}) (bindM (onBackend (be_Set (ieFs K) config)) (is_createLocked K img rootFS))
      (\<lambda>r st. is_panic r \<or> I {} st)" for img rootFS
  proof (rule valid_bind [OF head])
    fix i show "valid (\<lambda>st. I {} st \<and> Validate i = None) (is_createLocked K img rootFS i) (\<lambda>r st. is_panic r \<or> I {} st)"
      using createLocked_keeps [of i img rootFS] by (simp add: valid_def)
  qed
  have "valid (I {}) (case imgRootFS img of None \<Rightarrow> nilPanic
     | Some rootFS \<Rightarrow>
         if layerCount (imgHistory img) > length (DiffIDs rootFS)
         then raise (Errorf ''too many non-empty layers in History section'')
         else bindM (onBackend (be_Set (ieFs K) config)) (is_createLocked K img rootFS)) (\<lambda>r st. is_panic r \<or> I {} st)" for img
    using body by (cases "imgRootFS img") (auto simp: valid_def nilPanic_def panicM_def raise_def)
  then show ?thesis
    unfolding is_Create_def by (intro valid_bind_keeps keeps_intro) auto
qed

lemma delete_step:
  assumes inv: "I {} st" and im: "images st i = Some im" and d: "ds_Remove i (digestSet st) = (e, ds')"
  shows "I (set_option (imLayer im)) (st\<lparr>digestSet := ds', images := (images st)(i := None)\<rparr>)" (is "I ?X ?st")
proof -
  have v: "Validate i = None" "ds_inv (digestSet st)" "ds_set (digestSet st) = dom (images st)"
    using inv im by (auto simp: img_inv_def)
  have ds: "ds_inv ds'" "ds_set ds' = dom (images st) - {i}"
    using dsi.remove_law [OF v(2,1)] d v(3) by auto
  have inj: "\<And>a b ma mb k. images st a = Some ma \<Longrightarrow> images st b = Some mb \<Longrightarrow> imLayer ma = Some k \<Longrightarrow> imLayer mb = Some k \<Longrightarrow> a = b"
    using inv unfolding img_inv_def by metis
  have own: "owned ?st = owned st - ?X" "?X \<subseteq> owned st"
  proof -
    show "?X \<subseteq> owned st" using im by (cases "imLayer im") (auto simp: owned_def)
    have "k \<in> owned ?st \<longleftrightarrow> (\<exists>j m. j \<noteq> i \<and> images st j = Some m \<and> imLayer m = Some k)" for k by (auto simp: owned_def)
    moreover have "(\<exists>j m. j \<noteq> i \<and> images st j = Some m \<and> imLayer m = Some k) \<longleftrightarrow> k \<in> owned st \<and> imLayer im \<noteq> Some k" for k
      unfolding owned_def mem_Collect_eq using im inj by (metis option.inject)
    ultimately show "owned ?st = owned st - ?X" by (cases "imLayer im") (auto simp: set_eq_iff)
  qed
  show ?thesis
    unfolding img_inv_def
  proof (intro conjI)
    show "held (layers ?st) = owned ?st \<union> ?X" "owned ?st \<inter> ?X = {}"
      unfolding own(1) using inv own(2) by (auto simp: img_inv_def)
    show "\<forall>a b ma mb k. images ?st a = Some ma \<and> images ?st b = Some mb \<and> imLayer ma = Some k \<and> imLayer mb = Some k \<longrightarrow> a = b"
      using inj by (auto split: if_splits)
  qed (use inv ds in \<open>auto simp: img_inv_def\<close>)
qed

lemma release_keeps:
  assumes inv: "I {l} st" and run: "onLayers (lg_Release ls l) st = (r, st')"
  shows "I {} st' \<and> \<not> is_panic r"
proof -
  obtain r1 s1 where rel: "lg_Release ls l (layers st) = (r1, s1)" by fastforce
  have st': "r = r1" "st' = st\<lparr>layers := s1\<rparr>" using run rel by (auto simp: onLayers_def)
  have "sinv (layers st)" "l \<in> held (layers st)" using inv by (auto simp: img_inv_def)
  note law = release_law [OF this rel]
  have "owned st' = owned st" by (simp add: st' owned_def)
  with law inv show ?thesis unfolding img_inv_def by (auto simp: st')
qed

text \<open>Until the entry is deleted, the image keeps its layer.\<close>

definition J :: "string \<Rightarrow> imageMeta \<Rightarrow> ('b, 's) imageStore \<Rightarrow> bool" where
  "J i im st \<longleftrightarrow> I {} st \<and> (\<exists>m. images st i = Some m \<and> imLayer m = imLayer im)"

lemma J_backend: "J i im st \<Longrightarrow> J i im (st\<lparr>backend := b\<rparr>)"
  by (simp add: J_def)

lemma J_relinked: "J i im st \<Longrightarrow> relinked st st' \<Longrightarrow> J i im st'"
  unfolding J_def using img_inv_relinked relinked_layer by metis

lemma delete_end:
  "valid (J i im)
     (bindM (updM (\<lambda>st. st\<lparr>digestSet := snd (ds_Remove i (digestSet st)), images := (images st)(i := None)\<rparr>)) (\<lambda>_.
      bindM (tryM (onBackend (be_Delete (ieFs K) i))) (\<lambda>_.
      case imLayer im of
        None \<Rightarrow> ret []
      | Some l \<Rightarrow> (case ieLss K os of None \<Rightarrow> nilPanic | Some g \<Rightarrow> onLayers (lg_Release g l)))))
     (\<lambda>r st. is_panic r \<or> I {} st)"
proof (rule valid_bind [where R = "\<lambda>_. I (set_option (imLayer im))"])
  show "valid (J i im) (updM (\<lambda>st. st\<lparr>digestSet := snd (ds_Remove i (digestSet st)), images := (images st)(i := None)\<rparr>))
     (fails_with (\<lambda>r st. is_panic r \<or> I {} st) (\<lambda>_. I (set_option (imLayer im))))"
  proof (rule validI)
    fix st r st' assume j: "J i im st"
      and run: "updM (\<lambda>st. st\<lparr>digestSet := snd (ds_Remove i (digestSet st)), images := (images st)(i := None)\<rparr>) st = (r, st')"
    obtain m where m: "images st i = Some m" "imLayer m = imLayer im" "I {} st" using j unfolding J_def by blast
    obtain e ds' where d: "ds_Remove i (digestSet st) = (e, ds')" by fastforce
    with delete_step [OF m(3,1) d] run m(2)
    show "fails_with (\<lambda>r st. is_panic r \<or> I {} st) (\<lambda>_. I (set_option (imLayer im))) r st'"
      by (auto simp: updM_def)
  qed
next
  fix u
  show "valid (I (set_option (imLayer im)))
     (bindM (tryM (onBackend (be_Delete (ieFs K) i))) (\<lambda>_.
      case imLayer im of
        None \<Rightarrow> ret []
      | Some l \<Rightarrow> (case ieLss K os of None \<Rightarrow> nilPanic | Some g \<Rightarrow> onLayers (lg_Release g l))))
     (\<lambda>r st. is_panic r \<or> I {} st)"
  proof (rule valid_bind [where R = "\<lambda>_. I (set_option (imLayer im))"])
    show "valid (I (set_option (imLayer im))) (tryM (onBackend (be_Delete (ieFs K) i)))
       (fails_with (\<lambda>r st. is_panic r \<or> I {} st) (\<lambda>_. I (set_option (imLayer im))))"
      by (rule validI) (auto simp: tryM_def onBackend_def split: prod.splits outcome.splits)
  next
    fix u'
    show "valid (I (set_option (imLayer im)))
       (case imLayer im of
          None \<Rightarrow> ret []
        | Some l \<Rightarrow> (case ieLss K os of None \<Rightarrow> nilPanic | Some g \<Rightarrow> onLayers (lg_Release g l)))
       (\<lambda>r st. is_panic r \<or> I {} st)"
    proof (cases "imLayer im")
      case None
      then show ?thesis by (simp add: valid_def ret_def)
    next
      case (Some l)
      show ?thesis
      proof (cases "ieLss K os")
        case None
        with Some show ?thesis by (simp add: valid_def nilPanic_def panicM_def)
      next
        case g: (Some g)
        have "valid (I {l}) (onLayers (lg_Release ls l)) (\<lambda>r st. is_panic r \<or> I {} st)"
          by (rule validI) (drule (1) release_keeps, simp)
        with Some g one_store [OF g] show ?thesis by simp
      qed
    qed
  qed
qed

lemma I_relinked_keeps: "keeps (I X) (unlinkParent K i)"
  by (rule keeps_unlinkParent) (auto intro: img_inv_relinked)

lemma delete_keeps: "valid (I {}) (is_Delete K i) (\<lambda>r st. is_panic r \<or> I {} st)"
proof (rule validI)
  fix st r st' assume inv: "I {} st" and run: "is_Delete K i st = (r, st')"
  show "is_panic r \<or> I {} st'"
  proof (cases "images st i")
    case None
    with run inv show ?thesis by (simp add: is_Delete_def bindM_def getM_def raise_def)
  next
    case (Some im)
    have j: "J i im st" using inv Some by (simp add: J_def)
    have Q: "\<And>r st. J i im st \<Longrightarrow> is_panic r \<or> I {} st" by (simp add: J_def)
    let ?mid = "\<lambda>img. if \<not> IsOSSupported (OperatingSystem img)
         then raise (Errorf (''unsupported image operating system '' @ OperatingSystem img))
         else
           bindM (forM (sorted_list_of_set (imChildren im)) (\<lambda>c.
                    bindM (tryM (onBackend (be_DeleteMetadata (ieFs K) c ''parent''))) (\<lambda>_. ret ()))) (\<lambda>_.
           bindM (unlinkParent K i) (\<lambda>_.
           bindM (updM (\<lambda>st. st\<lparr>digestSet := snd (ds_Remove i (digestSet st)), images := (images st)(i := None)\<rparr>)) (\<lambda>_.
           bindM (tryM (onBackend (be_Delete (ieFs K) i))) (\<lambda>_.
           case imLayer im of
             None \<Rightarrow> ret []
           | Some l \<Rightarrow>
               (case ieLss K (OperatingSystem img) of
                  None \<Rightarrow> nilPanic
                | Some ls \<Rightarrow> onLayers (lg_Release ls l))))))"
    have mid: "valid (J i im) (?mid img) (\<lambda>r st. is_panic r \<or> I {} st)" for img
    proof (cases "IsOSSupported (OperatingSystem img)")
      case False
      then show ?thesis by (simp add: valid_def raise_def J_def)
    next
      case True
      have k1: "keeps (J i im) (forM (sorted_list_of_set (imChildren im)) (\<lambda>c.
          bindM (tryM (onBackend (be_DeleteMetadata (ieFs K) c ''parent''))) (\<lambda>_. ret ())))"
        by (intro keeps_intro J_backend)
      have k2: "keeps (J i im) (unlinkParent K i)"
        by (rule keeps_unlinkParent) (auto intro: J_backend J_relinked)
      show ?thesis
        using valid_bind_keeps [OF k1 Q valid_bind_keeps [OF k2 Q delete_end [of i im "OperatingSystem img"]]] True
        by simp
    qed
    have k0: "keeps (J i im) (mapErr f (is_Get K i))" for f
      by (intro keeps_intro keeps_is_Get J_backend)
    define m where "m = bindM (mapErr (\<lambda>e. Errorf (''unrecognized image '' @ i @ '', '' @ err_string e)) (is_Get K i)) ?mid"
    have run': "m st = (r, st')"
      using run Some by (simp add: is_Delete_def bindM_def [of getM] getM_def m_def)
    have "valid (J i im) m (\<lambda>r st. is_panic r \<or> I {} st)"
      unfolding m_def by (rule valid_bind_keeps [OF k0 _ mid]) (rule Q)
    from validD [OF this j run'] show ?thesis .
  qed
qed

lemma linkChild_keeps:
  "keeps (I X) (updM (\<lambda>st. case images st p of None \<Rightarrow> st
      | Some pm \<Rightarrow> st\<lparr>images := (images st)(p \<mapsto> pm\<lparr>imChildren := insert i (imChildren pm)\<rparr>)\<rparr>))"
proof (rule keeps_upd)
  fix st :: "('b, 's) imageStore" assume inv: "I X st"
  show "I X (case images st p of None \<Rightarrow> st
      | Some pm \<Rightarrow> st\<lparr>images := (images st)(p \<mapsto> pm\<lparr>imChildren := insert i (imChildren pm)\<rparr>)\<rparr>)"
  proof (cases "images st p")
    case None
    with inv show ?thesis by simp
  next
    case (Some pm)
    have "relinked st (st\<lparr>images := (images st)(p \<mapsto> pm\<lparr>imChildren := insert i (imChildren pm)\<rparr>)\<rparr>)"
      by (rule relinked_update [OF Some]) simp
    with img_inv_relinked [OF inv this] Some show ?thesis by simp
  qed
qed

lemma onBackend_keeps: "keeps (I X) (onBackend m)"
  by (rule keeps_onBackend) simp

lemma setParent_keeps: "keeps (I {}) (is_SetParent K i p)"
  unfolding is_SetParent_def
  by (intro keeps_bind keeps_if keeps_basic I_relinked_keeps linkChild_keeps onBackend_keeps)

end

end
