(* ===== verification/Layer_Concurrency.thy ===== *)
theory Layer_Concurrency
  imports Layer_Operations "HOL-Library.Multiset"
begin

text \<open>
  Interleavings of the layer store.  \<open>Register\<close> and \<open>CreateRWLayer\<close> take a count on the
  parent in one critical section of \<open>layerL\<close> and use or give up that count in a later one;
  between the two any other operation may run.  A state of the system is a store with the
  multiset of operations that are between their two sections.
\<close>

section \<open>Steps\<close>

datatype pending =
    Registering "addr option"
  | TooDeep addr
  | Mounting "addr option" string

fun pend_parent :: "pending \<Rightarrow> addr option" where
  "pend_parent (Registering p) = p"
| "pend_parent (TooDeep a) = Some a"
| "pend_parent (Mounting p n) = p"

fun is_Mounting :: "pending \<Rightarrow> bool" where
  "is_Mounting (Mounting p n) = True"
| "is_Mounting _ = False"

text \<open>\<open>mountL\<close> is held throughout the operations on mounts.\<close>

definition mountL_free :: "pending multiset \<Rightarrow> bool" where
  "mountL_free Q \<longleftrightarrow> (\<forall>q \<in># Q. \<not> is_Mounting q)"

type_synonym 'w sys = "'w layerStore \<times> pending multiset"

text \<open>The label of a step tells whether the code of the step panics.\<close>

inductive conc_step :: "'w env \<Rightarrow> 'w sys \<Rightarrow> bool \<Rightarrow> 'w sys \<Rightarrow> bool" for E where
  get: "ls_Get c ls = (r, ls') \<Longrightarrow> conc_step E (ls, Q) (is_panic r) (ls', Q)"
| release: "ls_Release E l ls = (r, ls') \<Longrightarrow> conc_step E (ls, Q) (is_panic r) (ls', Q)"
| outside: "outer ls ls' \<Longrightarrow> conc_step E (ls, Q) False (ls', Q)"
| reg_root: "conc_step E (ls, Q) False (ls, add_mset (Registering None) Q)"
| reg_begin: "getWithoutLock c ls = (Some p, ls') \<Longrightarrow> depth (heap ls') p < maxLayerDepth \<Longrightarrow>
    conc_step E (ls, Q) False (ls', add_mset (Registering (Some p)) Q)"
| reg_deep: "getWithoutLock c ls = (Some p, ls') \<Longrightarrow> maxLayerDepth \<le> depth (heap ls') p \<Longrightarrow>
    conc_step E (ls, Q) False (ls', add_mset (TooDeep p) Q)"
| reg_commit: "register_commit E p (newLayer E ls p cid sz dgst desc) d ls = (r, ls') \<Longrightarrow>
    conc_step E (ls, add_mset (Registering p) Q) (is_panic r) (ls', Q)"
| mnt_root: "mountL_free Q \<Longrightarrow> mounts ls n = None \<Longrightarrow>
    conc_step E (ls, Q) False (ls, add_mset (Mounting None n) Q)"
| mnt_begin: "mountL_free Q \<Longrightarrow> mounts ls n = None \<Longrightarrow> getWithoutLock c ls = (Some p, ls') \<Longrightarrow>
    conc_step E (ls, Q) False (ls', add_mset (Mounting (Some p) n) Q)"
| mnt_commit: "mount_commit E \<lparr>mname = n, mountID = mid, initID = iid, mparent = p, mreferences = {}\<rparr> ls = (r, ls') \<Longrightarrow>
    conc_step E (ls, add_mset (Mounting p n) Q) (is_panic r) (ls', Q)"
| abort: "deferRelease E (pend_parent q) (Err e :: Layer outcome, ls) = (r, ls') \<Longrightarrow>
    conc_step E (ls, add_mset q Q) (is_panic r) (ls', Q)"
| mnt_get: "mountL_free Q \<Longrightarrow> ls_GetRWLayer n ls = (r, ls') \<Longrightarrow> conc_step E (ls, Q) (is_panic r) (ls', Q)"
| mnt_release: "mountL_free Q \<Longrightarrow> ls_ReleaseRWLayer E m ls = (r, ls') \<Longrightarrow>
    conc_step E (ls, Q) (is_panic r) (ls', Q)"

inductive conc_reach :: "'w env \<Rightarrow> 'w sys \<Rightarrow> 'w sys \<Rightarrow> bool" for E s0 where
  init: "conc_reach E s0 s0"
| step: "conc_reach E s0 s \<Longrightarrow> conc_step E s b s' \<Longrightarrow> conc_reach E s0 s'"

section \<open>The invariant of the interleaved system\<close>

definition holds :: "pending multiset \<Rightarrow> addr \<Rightarrow> nat" where
  "holds Q a = size (filter_mset (\<lambda>q. pend_parent q = Some a) Q)"

lemma holds_empty [simp]: "holds {#} = no_pending"
  by (simp add: holds_def fun_eq_iff)

lemma holds_add [simp]: "holds (add_mset q Q) = hold (pend_parent q) (holds Q)"
  by (cases "pend_parent q") (auto simp: holds_def fun_eq_iff hold_def)

fun pend_ok :: "'w layerStore \<Rightarrow> pending \<Rightarrow> bool" where
  "pend_ok ls (Registering p) \<longleftrightarrow> (\<forall>a. p = Some a \<longrightarrow> a < fresh ls \<and> depth (heap ls) a < maxLayerDepth)"
| "pend_ok ls (TooDeep a) \<longleftrightarrow> True"
| "pend_ok ls (Mounting p n) \<longleftrightarrow> mounts ls n = None"

definition mountL_ok :: "pending multiset \<Rightarrow> bool" where
  "mountL_ok Q \<longleftrightarrow> size (filter_mset is_Mounting Q) \<le> 1"

definition conc_inv :: "'w env \<Rightarrow> 'w sys \<Rightarrow> bool" where
  "conc_inv E s \<longleftrightarrow> (case s of (ls, Q) \<Rightarrow>
     store_inv E (holds Q) ls \<and> (\<forall>q \<in># Q. pend_ok ls q) \<and> mountL_ok Q)"

lemma pend_ok_step:
  "pend_ok ls q \<Longrightarrow> ext ls ls' \<Longrightarrow> mounts ls' = mounts ls \<or> \<not> is_Mounting q \<Longrightarrow> pend_ok ls' q"
  by (cases q) (auto simp: ext_depth, auto simp: ext_def)

lemma mountL_free_size: "mountL_free Q \<Longrightarrow> size (filter_mset is_Mounting Q) = 0"
  by (induction Q) (auto simp: mountL_free_def)

lemma mountL_free_ok [simp]: "mountL_free Q \<Longrightarrow> mountL_ok Q"
  unfolding mountL_ok_def by (metis mountL_free_size zero_le)

lemma mountL_free_add [simp]: "mountL_free Q \<Longrightarrow> mountL_ok (add_mset q Q)"
  unfolding mountL_ok_def using mountL_free_size [of Q] by (cases "is_Mounting q") (simp_all del: size_eq_0_iff_empty)

lemma mountL_ok_other [simp]: "\<not> is_Mounting q \<Longrightarrow> mountL_ok (add_mset q Q) = mountL_ok Q"
  by (simp add: mountL_ok_def)

lemma mountL_ok_rest: "mountL_ok (add_mset q Q) \<Longrightarrow> mountL_ok Q"
  by (cases "is_Mounting q") (simp_all add: mountL_ok_def del: size_eq_0_iff_empty)

lemma mountL_ok_free: "mountL_ok (add_mset q Q) \<Longrightarrow> is_Mounting q \<Longrightarrow> mountL_free Q"
  by (auto simp: mountL_ok_def mountL_free_def filter_mset_eq_conv)

lemma conc_invI:
  assumes "conc_inv E (ls, Q)" "op_ok E (holds Q) ls r ls'" "mounts ls' = mounts ls \<or> mountL_free Q"
  shows "conc_inv E (ls', Q)"
  using assms pend_ok_step [of ls _ ls'] by (auto simp: conc_inv_def op_ok_def mountL_free_def)

lemma conc_inv_finish:
  assumes "conc_inv E (ls, add_mset q Q)" "op_ok E (holds Q) ls r ls'"
    "mounts ls' = mounts ls \<or> is_Mounting q"
  shows "conc_inv E (ls', Q)"
  using assms pend_ok_step [of ls _ ls'] mountL_ok_free [of q Q] mountL_ok_rest [of q Q]
  by (auto simp: conc_inv_def op_ok_def mountL_free_def)

subsection \<open>Operations on layers leave the mounts alone\<close>

lemma mounts_releaseLayer:
  "store_inv E (hold (Some a) P) ls \<Longrightarrow> releaseLayer E a ls = (r, ls') \<Longrightarrow> mounts ls' = mounts ls"
  using releaseLayer_post by (fastforce simp: release_post_def)

lemma mounts_deferRelease:
  assumes "store_inv E (hold p P) ls" "deferRelease E p (r0, ls) = (r, ls')"
  shows "mounts ls' = mounts ls"
  using assms mounts_releaseLayer [of E _ P ls]
  by (auto simp: deferRelease_def split: option.splits prod.splits outcome.splits)

lemma mounts_getReference: "getReference a ls = (r, ls') \<Longrightarrow> mounts ls' = mounts ls"
  by (auto simp: getReference_def Let_def setLayer_def split: option.splits)

lemma mounts_getWithoutLock: "getWithoutLock c ls = (r, ls') \<Longrightarrow> mounts ls' = mounts ls"
  by (auto simp: getWithoutLock_def setLayer_def split: option.splits)

lemma mounts_ls_Get: "ls_Get c ls = (r, ls') \<Longrightarrow> mounts ls' = mounts ls"
  using mounts_getWithoutLock mounts_getReference
  by (fastforce simp: ls_Get_def split: prod.splits option.splits)

lemma mounts_ls_Release:
  assumes inv: "store_inv E P ls" and run: "ls_Release E l ls = (r, ls')"
  shows "mounts ls' = mounts ls"
  using inv run
proof (cases rule: ls_Release_cases)
  case (held a k)
  then show ?thesis using mounts_releaseLayer [OF held(4,5)] by (simp add: setLayer_def)
qed simp_all

lemma mounts_register_commit:
  assumes inv: "store_inv E (hold p P) ls" and run: "register_commit E p layer d ls = (r, ls')"
  shows "mounts ls' = mounts ls"
proof -
  obtain o1 ls1 where get: "getWithoutLock (chainID layer) ls = (o1, ls1)" by fastforce
  have cleanup: "mounts ls' = mounts ls2"
    if "store_inv E (hold p P) ls2" "deferRelease E p (cleanupTx E cid (r0, ls2)) = (r, ls')" for cid r0 ls2
  proof -
    obtain w where w: "cleanupTx E cid (r0, ls2) = (r0, ls2\<lparr>world := w\<rparr>)" using cleanupTx_split by metis
    then show ?thesis using that mounts_deferRelease [of E p P "ls2\<lparr>world := w\<rparr>" r0 r ls'] by simp
  qed
  show ?thesis
  proof (cases o1)
    case (Some b)
    obtain ref ls2 where ref: "getReference b ls1 = (ref, ls2)" by fastforce
    have "store_inv E (hold p P) ls2"
      using getWithoutLock_Some(1) [OF inv] getReference_inv(1) [OF _ ref] get Some by blast
    then show ?thesis
      using run get Some ref cleanup [of ls2] mounts_getReference [OF ref] mounts_getWithoutLock [OF get]
      by (simp add: register_commit_def)
  next
    case None
    obtain oe ls2 where tx: "onMeta (tx_Commit E (chainID layer) d) ls = (oe, ls2)" by fastforce
    then obtain ms w where ls2: "ls2 = ls\<lparr>meta := ms, world := w\<rparr>" using onMeta_cases by (metis snd_conv)
    have inv2: "store_inv E (hold p P) ls2" using inv by (simp add: ls2)
    have ls1: "ls1 = ls" using getWithoutLock_None get None by blast
    show ?thesis
      using run get None tx cleanup [OF inv2]
      by (cases oe) (auto simp: register_commit_def ls1 ls2 insertLayer_def Let_def setLayer_def
          dest!: mounts_getReference split: prod.splits)
  qed
qed

subsection \<open>Every step keeps the invariant and does not panic\<close>

lemma conc_inv_begin:
  assumes inv: "conc_inv E (ls, Q)" and get: "getWithoutLock c ls = (Some p, ls')"
    and q: "pend_parent q = Some p" "pend_ok ls' q" "mountL_ok (add_mset q Q)"
  shows "conc_inv E (ls', add_mset q Q)"
proof -
  have st: "store_inv E (holds Q) ls" using inv by (simp add: conc_inv_def)
  have "store_inv E (holds (add_mset q Q)) ls'" using getWithoutLock_Some(1) [OF st get] q(1) by simp
  moreover have "\<forall>q \<in># Q. pend_ok ls' q"
    using inv pend_ok_step [OF _ ext_getWithoutLock [OF get]] mounts_getWithoutLock [OF get]
    by (auto simp: conc_inv_def)
  ultimately show ?thesis using q by (simp add: conc_inv_def)
qed

lemma getWithoutLock_fresh: "store_inv E P ls \<Longrightarrow> getWithoutLock c ls = (Some p, ls') \<Longrightarrow> p < fresh ls'"
  by (metis getWithoutLock_Some(2,5) inv_wf ranI wf_live_fresh)

lemma conc_step_inv:
  assumes "conc_step E s b s'" "conc_inv E s"
  shows "conc_inv E s' \<and> \<not> b"
  using assms
proof (induction rule: conc_step.induct)
  case (get c ls r ls' Q)
  then have ok: "op_ok E (holds Q) ls r ls'" using ls_Get_ok by (auto simp: conc_inv_def)
  then show ?case using conc_invI [OF get(2) ok] mounts_ls_Get [OF get(1)] by (simp add: op_ok_def)
next
  case (release l ls r ls' Q)
  then have st: "store_inv E (holds Q) ls" by (simp add: conc_inv_def)
  note ok = ls_Release_ok [OF st release(1)]
  then show ?case using conc_invI [OF release(2) ok] mounts_ls_Release [OF st release(1)] by (simp add: op_ok_def)
next
  case (outside ls ls' Q)
  then have "op_ok E (holds Q) ls (Ok ()) ls'"
    by (simp add: op_ok_def conc_inv_def outer_inv outer_ext)
  from conc_invI [OF outside(2) this] show ?case using outer_mounts [OF outside(1)] by simp
next
  case (reg_root ls Q)
  then show ?case by (simp add: conc_inv_def)
next
  case (reg_begin c ls p ls' Q)
  have "p < fresh ls'" "mountL_ok Q"
    using getWithoutLock_fresh [OF _ reg_begin(1)] reg_begin(3) by (auto simp: conc_inv_def)
  with reg_begin show ?case by (auto intro!: conc_inv_begin)
next
  case (reg_deep c ls p ls' Q)
  moreover have "mountL_ok Q" using reg_deep(3) by (simp add: conc_inv_def)
  ultimately show ?case by (auto intro!: conc_inv_begin)
next
  case (reg_commit p ls cid sz dgst desc d r ls' Q)
  then have st: "store_inv E (hold p (holds Q)) ls" and dep: "\<And>a. p = Some a \<Longrightarrow> depth (heap ls) a < maxLayerDepth"
    by (simp_all add: conc_inv_def)
  note ok = register_commit_ok [OF st newLayer_committable [OF st dep] reg_commit(1)]
  then show ?case
    using conc_inv_finish [OF reg_commit(2) ok] mounts_register_commit [OF st reg_commit(1)] by (simp add: op_ok_def)
next
  case (mnt_root Q ls n)
  then show ?case by (simp add: conc_inv_def)
next
  case (mnt_begin Q ls n c p ls')
  then show ?case using mounts_getWithoutLock [OF mnt_begin(3)] by (auto intro!: conc_inv_begin)
next
  case (mnt_commit n mid iid p ls r ls' Q)
  then have st: "store_inv E (hold p (holds Q)) ls" and new: "mounts ls n = None" by (simp_all add: conc_inv_def)
  have ok: "op_ok E (holds Q) ls r ls'" by (rule mount_commit_ok [OF _ _ mnt_commit(1)]) (simp_all add: st new)
  then show ?case using conc_inv_finish [OF mnt_commit(2) ok] by (simp add: op_ok_def)
next
  case (abort q e ls r ls' Q)
  then have st: "store_inv E (hold (pend_parent q) (holds Q)) ls" by (simp add: conc_inv_def)
  note ok = abort_ok(1) [OF st abort(1)]
  then show ?case
    using conc_inv_finish [OF abort(2) ok] mounts_deferRelease [OF st abort(1)] by (simp add: op_ok_def)
next
  case (mnt_get Q n ls r ls')
  then have ok: "op_ok E (holds Q) ls r ls'" using ls_GetRWLayer_ok by (auto simp: conc_inv_def)
  then show ?case using conc_invI [OF mnt_get(3) ok] mnt_get(1) by (simp add: op_ok_def)
next
  case (mnt_release Q m ls r ls')
  then have ok: "op_ok E (holds Q) ls r ls'" using ls_ReleaseRWLayer_ok by (auto simp: conc_inv_def)
  then show ?case using conc_invI [OF mnt_release(3) ok] mnt_release(1) by (simp add: op_ok_def)
qed

lemma conc_reach_inv: "conc_reach E s0 s \<Longrightarrow> conc_inv E s0 \<Longrightarrow> conc_inv E s"
  by (induction rule: conc_reach.induct) (auto dest: conc_step_inv)

end
