(* ===== verification/Layer_Properties.thy ===== *)
theory Layer_Properties
  imports Layer_Concurrency
begin

text \<open>
  What the layer store guarantees to its clients, derived from the store invariant: counts
  that are exact under every interleaving, no panics, complete release reports, chain IDs
  that are the digest chain of the diff IDs, and operations that undo each other.
\<close>

section \<open>The store a daemon starts from\<close>

text \<open>The store built at the start of \<open>newStoreFromGraphDriver\<close>, before anything is loaded.\<close>

definition init_store :: "bool \<Rightarrow> string \<Rightarrow> fileMetadataStore \<Rightarrow> 'w \<Rightarrow> 'w layerStore" where
  "init_store tarSplit os ms w =
     \<lparr>heap = Map.empty, layerMap = Map.empty, mounts = Map.empty, fresh = 0,
      useTarSplit = tarSplit, lsOS = os, meta = ms, world = w\<rparr>"

lemma init_store_inv [simp]: "store_inv E no_pending (init_store tarSplit os ms w)"
  unfolding inv_defs by (simp add: init_store_def)

lemma init_conc_inv [simp]: "conc_inv E (init_store tarSplit os ms w, {#})"
  by (simp add: conc_inv_def mountL_ok_def)

text \<open>The diff IDs of a layer and its ancestors, the root first.\<close>

function diff_chain :: "(addr \<rightharpoonup> roLayer) \<Rightarrow> addr \<Rightarrow> string list" where
  "diff_chain h a =
     (case h a of
        None \<Rightarrow> []
      | Some l \<Rightarrow>
          (case parent l of
             None \<Rightarrow> [diffID l]
           | Some p \<Rightarrow> if p < a then diff_chain h p @ [diffID l] else [diffID l]))"
  by pat_completeness auto
termination
  by (relation "measure snd") auto

declare diff_chain.simps [simp del]

section \<open>Chain IDs\<close>

lemma chainID_diff_chain:
  assumes wf: "wf_store E ls"
  shows "a \<in> live ls \<Longrightarrow> chainID (lay ls a) = CreateChainID (FromBytes E) (diff_chain (heap ls) a)"
proof (induction a rule: less_induct)
  case (less a)
  obtain l where l: "heap ls a = Some l" "layer_wf E ls a l" using wf_liveE [OF wf less.prems] by metis
  show ?case
  proof (cases "parent l")
    case None
    with l show ?thesis
      by (simp add: diff_chain.simps [of _ a] lay_def layer_wf_def chain_eq_def CreateChainID_def)
  next
    case (Some p)
    with l have p: "p < a" "p \<in> live ls" by (simp_all add: layer_wf_def)
    with Some l less.IH [OF p] show ?thesis
      unfolding diff_chain.simps [of _ a] lay_def
      by (simp add: CreateChainID_snoc layer_wf_def chain_eq_def lay_def)
  qed
qed

lemma length_diff_chain: "length (diff_chain h a) = depth h a"
  by (induction h a rule: diff_chain.induct)
    (auto simp: diff_chain.simps [of _ "_ :: nat"] depth.simps [of _ "_ :: nat"] split: option.splits)

section \<open>Acquire and give up\<close>

text \<open>Giving up a count that was just taken on a layer somebody else holds restores the heap.\<close>

lemma acquire_release:
  assumes get: "getWithoutLock c ls = (Some a, ls1)" and pos: "0 < referenceCount (lay ls a)"
    and ls2: "heap ls2 = heap ls1"
  shows "releaseLayer E a ls2 = (Ok [], ls2\<lparr>heap := heap ls\<rparr>)"
proof -
  from get obtain l where l: "heap ls a = Some l"
    and ls1: "ls1 = setLayer a (l\<lparr>referenceCount := referenceCount l + 1\<rparr>) ls"
    by (auto simp: getWithoutLock_def split: option.splits)
  have "heap ls2 a = Some (l\<lparr>referenceCount := referenceCount l + 1\<rparr>)" by (simp add: ls2 ls1 setLayer_def)
  moreover have "0 < referenceCount l" using pos l by (simp add: lay_def)
  ultimately have "releaseLayer E a ls2 = (Ok [], setLayer a l ls2)"
    by (simp add: releaseLayer_def loop_keep dropOne_def)
  moreover have "setLayer a l ls2 = ls2\<lparr>heap := heap ls\<rparr>"
    using l ls2 by (simp add: setLayer_def ls1 fun_upd_idem)
  ultimately show ?thesis by simp
qed

definition same_layers :: "'w layerStore \<Rightarrow> 'w layerStore \<Rightarrow> bool" where
  "same_layers ls ls' \<longleftrightarrow> heap ls' = heap ls \<and> layerMap ls' = layerMap ls \<and> mounts ls' = mounts ls"

lemma no_orphansD: "no_orphans ls {} \<Longrightarrow> a \<in> live ls \<Longrightarrow> 0 < referenceCount (lay ls a)"
  by (simp add: no_orphans_def)

definition acquired :: "'w layerStore \<Rightarrow> addr option \<Rightarrow> 'w layerStore \<Rightarrow> bool" where
  "acquired ls p ls1 \<longleftrightarrow>
     (p = None \<longrightarrow> ls1 = ls) \<and>
     (\<forall>a. p = Some a \<longrightarrow> (\<exists>c. getWithoutLock c ls = (Some a, ls1)) \<and> 0 < referenceCount (lay ls a))"

lemma acquired_get:
  assumes "store_inv E P ls" "no_orphans ls {}" "getWithoutLock c ls = (Some a, ls1)"
  shows "acquired ls (Some a) ls1"
  using assms getWithoutLock_Some(2) [OF assms(1,3)] by (auto simp: acquired_def intro!: no_orphansD ranI)

lemma deferRelease_same:
  assumes acq: "acquired ls p ls1" and ls2: "same_layers ls1 ls2" and run: "deferRelease E p (r0, ls2) = (r, ls')"
  shows "same_layers ls ls'" "r = r0"
proof -
  have "same_layers ls ls' \<and> r = r0"
  proof (cases p)
    case None
    with assms show ?thesis by (simp add: acquired_def deferRelease_def)
  next
    case (Some a)
    with acq obtain c where get: "getWithoutLock c ls = (Some a, ls1)" and pos: "0 < referenceCount (lay ls a)"
      by (auto simp: acquired_def)
    have "layerMap ls1 = layerMap ls" "mounts ls1 = mounts ls"
      using get by (auto simp: getWithoutLock_def setLayer_def split: option.splits)
    with acquire_release [OF get pos, of ls2 E] run Some ls2 show ?thesis
      by (auto simp: deferRelease_def same_layers_def)
  qed
  then show "same_layers ls ls'" "r = r0" by blast+
qed

lemma deferRelease_same_cleanup:
  assumes acq: "acquired ls p ls1" and ls2: "same_layers ls1 ls2"
    and run: "deferRelease E p (cleanupTx E cid (r0, ls2)) = (r, ls')"
  shows "same_layers ls ls'" "r = r0"
proof -
  obtain w where "cleanupTx E cid (r0, ls2) = (r0, ls2\<lparr>world := w\<rparr>)" using cleanupTx_split by metis
  with run have "deferRelease E p (r0, ls2\<lparr>world := w\<rparr>) = (r, ls')" by simp
  from deferRelease_same [OF acq _ this] ls2 show "same_layers ls ls'" "r = r0"
    by (simp_all add: same_layers_def)
qed

lemma register_commit_error:
  assumes inv: "store_inv E (hold p P) ls2" and acq: "acquired ls p ls1" and ls2: "same_layers ls1 ls2"
    and run: "register_commit E p layer d ls2 = (Err e, ls')"
  shows "same_layers ls ls'"
proof -
  obtain o1 ls3 where get: "getWithoutLock (chainID layer) ls2 = (o1, ls3)" by fastforce
  show ?thesis
  proof (cases o1)
    case (Some b)
    obtain ref ls4 where ref: "getReference b ls3 = (ref, ls4)" by fastforce
    have "store_inv E (hold p P) ls4"
      using getWithoutLock_Some(1) [OF inv] getReference_inv(1) [OF _ ref] get Some by blast
    with run get Some ref cleanup_release_ok(2) [of E p P ls4 "Ok ref"] show ?thesis
      by (fastforce simp: register_commit_def)
  next
    case None
    then have ls3: "ls3 = ls2" using get getWithoutLock_None by blast
    obtain oe ls4 where tx: "onMeta (tx_Commit E (chainID layer) d) ls2 = (oe, ls4)" by fastforce
    then obtain ms w where "ls4 = ls2\<lparr>meta := ms, world := w\<rparr>" using onMeta_cases by (metis snd_conv)
    then have ls4: "same_layers ls1 ls4" using ls2 by (simp add: same_layers_def)
    show ?thesis
      using run get None ls3 tx deferRelease_same_cleanup(1) [OF acq ls4]
      by (cases oe) (auto simp: register_commit_def split: prod.splits)
  qed
qed

lemma register_body_error:
  assumes inv: "store_inv E (hold p P) ls1" and acq: "acquired ls p ls1"
    and run: "register_body E ts p desc ls1 = (Err e, ls')"
  shows "same_layers ls ls'"
proof -
  obtain w where w: "(\<exists>e'. deferRelease E p (Err e', ls1\<lparr>world := w\<rparr>) = (Err e :: Layer outcome, ls')) \<or>
      (\<exists>e' cid. deferRelease E p (cleanupTx E cid (Err e', ls1\<lparr>world := w\<rparr>)) = (Err e :: Layer outcome, ls')) \<or>
      (\<exists>cid sz d. register_commit E p (newLayer E ls1 p cid sz (FromBytes E ts) desc) d (ls1\<lparr>world := w\<rparr>) = (Err e, ls'))"
    using register_body_cases [OF run] by (rule exE)
  define ls2 where "ls2 = ls1\<lparr>world := w\<rparr>"
  have same: "same_layers ls1 ls2" and inv2: "store_inv E (hold p P) ls2"
    using inv by (simp_all add: same_layers_def ls2_def)
  from w [folded ls2_def] show ?thesis
    using deferRelease_same(1) [OF acq same] deferRelease_same_cleanup(1) [OF acq same]
      register_commit_error [OF inv2 acq same] by metis
qed

lemma register_error:
  assumes inv: "store_inv E P ls" and no: "no_orphans ls {}"
    and run: "registerWithDescriptor E ts pid desc ls = (Err e, ls')"
  shows "same_layers ls ls'"
proof (cases "pid = ''''")
  case True
  with run register_body_error [of E None P ls ls] inv show ?thesis
    by (simp add: registerWithDescriptor_def acquired_def)
next
  case False
  obtain o1 ls1 where get: "getWithoutLock pid ls = (o1, ls1)" by fastforce
  show ?thesis
  proof (cases o1)
    case None
    with False get run getWithoutLock_None [of pid ls ls1] show ?thesis
      by (auto simp: registerWithDescriptor_def same_layers_def)
  next
    case (Some p)
    have inv1: "store_inv E (hold (Some p) P) ls1" using getWithoutLock_Some(1) [OF inv] get Some by blast
    have acq: "acquired ls (Some p) ls1" using acquired_get [OF inv no] get Some by blast
    from False get Some run
    have "deferRelease E (Some p) (Err ErrMaxDepthExceeded, ls1) = (Err e :: Layer outcome, ls') \<or>
        register_body E ts (Some p) desc ls1 = (Err e, ls')"
      by (auto simp: registerWithDescriptor_def split: if_splits)
    then show ?thesis
      using deferRelease_same(1) [OF acq, of ls1] register_body_error [OF inv1 acq]
      by (auto simp: same_layers_def)
  qed
qed

section \<open>A referenced layer survives\<close>

definition referenced :: "'w layerStore \<Rightarrow> string \<Rightarrow> addr \<Rightarrow> Layer \<Rightarrow> bool" where
  "referenced ls c b r \<longleftrightarrow> layerMap ls c = Some b \<and> (\<exists>k. heap ls b = Some k \<and> chainID k = c \<and> r \<in> references k)"

lemma referenced_frame:
  "referenced (ls\<lparr>world := w\<rparr>) c b r = referenced ls c b r"
  "referenced (ls\<lparr>meta := ms\<rparr>) c b r = referenced ls c b r"
  by (simp_all add: referenced_def)

lemma loop_referenced:
  "referenced ls c b r \<Longrightarrow> releaseLayer_loop E a dep removed ls = (res, ls') \<Longrightarrow> \<not> is_panic res \<Longrightarrow>
   wf_store E ls \<Longrightarrow> a \<in> live ls \<Longrightarrow> store_inv E (hold (Some a) P) ls \<Longrightarrow> (0 < dep \<longrightarrow> removed \<noteq> []) \<Longrightarrow>
   referenced ls' c b r"
proof (induction a arbitrary: dep removed ls P rule: less_induct)
  case (less a)
  note ref = less.prems(1) and run = less.prems(2) and wf = less.prems(4) and a = less.prems(5) and inv = less.prems(6)
  obtain l where l: "heap ls a = Some l" "layerMap ls (chainID l) = Some a" "layer_wf E ls a l"
    using wf_liveE [OF wf a] by metis
  define ls1 where "ls1 = setLayer a (dropOne l) ls"
  have inv1: "store_inv E P ls1" and pos: "0 < referenceCount l"
    and cnt: "referenceCount l - 1 = int (total_refs P ls a)"
    using decrement_inv [OF inv l(1)] by (simp_all add: ls1_def dropOne_def)
  have ref1: "referenced ls1 c b r" using ref l(1) by (auto simp: referenced_def ls1_def setLayer_def)
  show ?case
  proof (cases "referenceCount l = 1")
    case False
    then have "ls' = ls1" using run pos loop_keep [OF l(1)] by (auto simp: ls1_def)
    with ref1 show ?thesis by simp
  next
    case True
    have par: "p < a" if "parent l = Some p" for p using l(3) that by (simp add: layer_wf_def)
    have "card (references l) = 0" using True cnt l by (simp add: total_refs_def lay_def)
    then have empty: "references l = {}" using l(3) by (simp add: layer_wf_def)
    note step = loop_delete [OF l(1) True empty less.prems(7) par, where E = E]
    obtain out ls2 where del: "deleteLayer E a (dropOne l) ls1 = (out, ls2)" by fastforce
    obtain ms w where ls2: "ls2 = ls1\<lparr>meta := ms, world := w\<rparr>" using deleteLayer_frame [OF del] by blast
    have ref2: "referenced ls2 c b r" using ref1 by (simp add: ls2 referenced_frame)
    show ?thesis
    proof (cases out)
      case (Inl e)
      then have "ls' = ls2" using run step del by (simp_all add: ls1_def)
      with ref2 show ?thesis by simp
    next
      case (Inr md)
      define ls3 where "ls3 = ls2\<lparr>layerMap := (layerMap ls2)(chainID l := None)\<rparr>"
      have "c \<noteq> chainID l" using ref l empty by (auto simp: referenced_def)
      with ref2 have ref3: "referenced ls3 c b r" by (auto simp: referenced_def ls3_def)
      have zero: "total_refs P ls2 a = 0"
        using cnt True total_refs_setLayer [OF l(1), of "dropOne l"] by (simp add: ls2 ls1_def total_refs_frame)
      have inv3: "store_inv E (hold (parent l) P) ls3"
        using remove_layer_inv [of E P ls2 a "dropOne l"] inv1 a zero ls2
        by (simp add: ls3_def ls1_def setLayer_def)
      show ?thesis
      proof (cases "parent l")
        case None
        then have "ls' = ls3" using run step del Inr by (simp add: ls1_def ls3_def)
        with ref3 show ?thesis by simp
      next
        case (Some p)
        then have run': "releaseLayer_loop E p (Suc dep) (removed @ [md]) ls3 = (res, ls')"
          using run step del Inr by (simp add: ls1_def ls3_def)
        have inv3': "store_inv E (hold (Some p) P) ls3" using inv3 Some by simp
        show ?thesis
          by (rule less.IH [OF par [OF Some] ref3 run' less.prems(3) inv_wf [OF inv3']
                inv_pending_live [OF inv3'] inv3']) simp_all
      qed
    qed
  qed
qed

lemma deferRelease_referenced:
  assumes inv: "store_inv E (hold p P) ls" and ref: "referenced ls c b r" and run: "deferRelease E p (r0, ls) = (res, ls')"
  shows "referenced ls' c b r"
proof (cases p)
  case None
  with ref run show ?thesis by (simp add: deferRelease_def)
next
  case (Some a)
  obtain r1 ls1 where rel: "releaseLayer E a ls = (r1, ls1)" by fastforce
  have inv': "store_inv E (hold (Some a) P) ls" using inv Some by simp
  have "\<not> is_panic r1" using releaseLayer_ok [OF inv' rel] by (simp add: op_ok_def)
  from loop_referenced [OF ref rel [unfolded releaseLayer_def] this inv_wf [OF inv'] inv_pending_live [OF inv'] inv']
  have "referenced ls1 c b r" by simp
  with run rel Some show ?thesis by (auto simp: deferRelease_def split: outcome.splits)
qed

lemma getReference_referenced:
  assumes inv: "store_inv E (hold (Some a) P) ls" and get: "getReference a ls = (r, ls')" and c: "layerMap ls c = Some a"
  shows "referenced ls' c a r"
proof -
  have wf: "wf_store E ls'" using getReference_inv(1) [OF inv get] by (rule inv_wf)
  have "layerMap ls' c = Some a" using getReference_inv(4) [OF inv get] c by simp
  with wf_layerMapE [OF wf this] getReference_inv(3) [OF inv get] show ?thesis
    by (metis lay_def option.sel referenced_def)
qed

lemma register_commit_success:
  assumes inv: "store_inv E (hold p P) ls" and com: "committable E p layer ls"
    and run: "register_commit E p layer d ls = (Ok r, ls')"
  shows "\<exists>a. referenced ls' (chainID layer) a r"
proof -
  obtain o1 ls1 where get: "getWithoutLock (chainID layer) ls = (o1, ls1)" by fastforce
  show ?thesis
  proof (cases o1)
    case (Some b)
    obtain ref ls2 where ref: "getReference b ls1 = (ref, ls2)" by fastforce
    obtain w where w: "cleanupTx E (cacheID layer) (Ok ref, ls2) = (Ok ref, ls2\<lparr>world := w\<rparr>)"
      using cleanupTx_split by metis
    note g = getWithoutLock_Some [OF inv get [unfolded Some]]
    have inv2: "store_inv E (hold p P) (ls2\<lparr>world := w\<rparr>)" using getReference_inv(1) [OF g(1) ref] by simp
    have run2: "deferRelease E p (Ok ref, ls2\<lparr>world := w\<rparr>) = (Ok r, ls')"
      using run get Some ref w by (simp add: register_commit_def)
    have "referenced (ls2\<lparr>world := w\<rparr>) (chainID layer) b ref"
      using getReference_referenced [OF g(1) ref, of "chainID layer"] g(2,3) by (simp add: referenced_frame)
    moreover have "r = ref" using deferRelease_ok(2) [OF inv2 _ run2] by simp
    ultimately show ?thesis using deferRelease_referenced [OF inv2 _ run2] by blast
  next
    case None
    have new: "layerMap ls (chainID layer) = None" and ls1: "ls1 = ls"
      using getWithoutLock_absent [OF inv] getWithoutLock_None get None by blast+
    obtain oe ls2 where tx: "onMeta (tx_Commit E (chainID layer) d) ls = (oe, ls2)" by fastforce
    then obtain ms w where ls2: "ls2 = ls\<lparr>meta := ms, world := w\<rparr>" using onMeta_cases by (metis snd_conv)
    have inv2: "store_inv E (hold p P) ls2" using inv by (simp add: ls2)
    show ?thesis
    proof (cases oe)
      case (Some e)
      then have "deferRelease E p (cleanupTx E (cacheID layer) (Err e, ls2)) = (Ok r, ls')"
        using run get None tx ls1 by (simp add: register_commit_def)
      then show ?thesis using cleanup_release_ok(2) [OF inv2, of "Err e"] by force
    next
      case oeN: None
      obtain a ls3 where ins: "insertLayer layer ls2 = (a, ls3)" by fastforce
      obtain ref ls4 where ref: "getReference a ls3 = (ref, ls4)" by fastforce
      have com2: "committable E p layer ls2" using com by (simp add: ls2)
      have "store_inv E (hold (Some a) P) ls3 \<and> layerMap ls3 (chainID layer) = Some a"
        using com2 new inv2 insertLayer_inv(1,2) [OF _ _ _ _ _ _ ins]
        by (simp add: committable_def ls2)
      moreover have "r = ref" "ls' = ls4" using run get None tx ls1 oeN ins ref by (auto simp: register_commit_def)
      ultimately show ?thesis using getReference_referenced [OF _ ref] by blast
    qed
  qed
qed

lemma register_body_success:
  assumes inv: "store_inv E (hold p P) ls" and dep: "\<And>a. p = Some a \<Longrightarrow> depth (heap ls) a < maxLayerDepth"
    and run: "register_body E ts p desc ls = (Ok r, ls')"
  shows "\<exists>a. referenced ls' (chainID (newLayer E ls p '''' 0 (FromBytes E ts) desc)) a r"
proof -
  obtain w where w: "(\<exists>e. deferRelease E p (Err e, ls\<lparr>world := w\<rparr>) = (Ok r, ls')) \<or>
      (\<exists>e cid. deferRelease E p (cleanupTx E cid (Err e, ls\<lparr>world := w\<rparr>)) = (Ok r, ls')) \<or>
      (\<exists>cid sz d. register_commit E p (newLayer E ls p cid sz (FromBytes E ts) desc) d (ls\<lparr>world := w\<rparr>) = (Ok r, ls'))"
    using register_body_cases [OF run] by (rule exE)
  define ls0 where "ls0 = ls\<lparr>world := w\<rparr>"
  have inv0: "store_inv E (hold p P) ls0" using inv by (simp add: ls0_def)
  have noerr: "\<not> deferRelease E p (Err e, ls0) = (Ok r, ls')" "\<not> deferRelease E p (cleanupTx E cid (Err e, ls0)) = (Ok r, ls')" for e cid
    using deferRelease_ok(2) [OF inv0, of "Err e"] cleanup_release_ok(2) [OF inv0, of "Err e"] by force+
  obtain cid sz d where run2: "register_commit E p (newLayer E ls p cid sz (FromBytes E ts) desc) d ls0 = (Ok r, ls')"
    using w [folded ls0_def] noerr by metis
  have com: "committable E p (newLayer E ls p cid sz (FromBytes E ts) desc) ls0"
    using newLayer_committable [OF inv dep] by (simp add: ls0_def)
  show ?thesis using register_commit_success [OF inv0 com run2] by (simp add: newLayer_def)
qed

lemma register_success:
  assumes inv: "store_inv E P ls" and run: "registerWithDescriptor E ts pid desc ls = (Ok r, ls')"
  shows "\<exists>a. referenced ls' (createChainIDFromParent (FromBytes E) pid [FromBytes E ts]) a r"
proof (cases "pid = ''''")
  case True
  with run register_body_success [of E None P ls] inv show ?thesis
    by (simp add: registerWithDescriptor_def newLayer_def layerChainID_def)
next
  case False
  obtain o1 ls1 where get: "getWithoutLock pid ls = (o1, ls1)" by fastforce
  with False run obtain p where p: "o1 = Some p" by (cases o1) (auto simp: registerWithDescriptor_def)
  note g = getWithoutLock_Some [OF inv get [unfolded p]]
  obtain k where k: "heap ls1 p = Some k" "chainID k = pid" using wf_layerMapE [OF inv_wf [OF g(1)]] g(2,3) by metis
  have "\<not> maxLayerDepth \<le> depth (heap ls1) p"
  proof
    assume "maxLayerDepth \<le> depth (heap ls1) p"
    then have "deferRelease E (Some p) (Err ErrMaxDepthExceeded, ls1) = (Ok r, ls')"
      using False run get p by (simp add: registerWithDescriptor_def)
    then show False using deferRelease_ok(2) [OF g(1), of "Err ErrMaxDepthExceeded"] by force
  qed
  with False run get p register_body_success [OF g(1), of ts desc r ls'] k show ?thesis
    by (simp add: registerWithDescriptor_def newLayer_def layerChainID_def)
qed

section \<open>A concrete environment\<close>

text \<open>
  An environment in which every outside call succeeds; digests are the prefixed content.
  It instantiates the parameters in the witnesses below.
\<close>

definition demo_env :: "unit env" where
  "demo_env =
     \<lparr>drv_Create = (\<lambda>_ _ w. (None, w)), drv_CreateReadWrite = (\<lambda>_ _ _ w. (None, w)),
      drv_Remove = (\<lambda>_ w. (None, w)), drv_ApplyDiff = (\<lambda>_ _ ts w. (Inr (word_of_nat (length ts)), w)),
      drv_Get = (\<lambda>_ _ w. (Inr ''/mnt'', w)), drv_Put = (\<lambda>_ w. (None, w)), drv_Diff = (\<lambda>_ _ w. (Inr '''', w)),
      os_op = (\<lambda>_ _ w. (None, w)), FromBytes = (\<lambda>s. ''sha256:'' @ s),
      ParseDigest = (\<lambda>s. if HasPrefix s ''sha256:'' then Inr s else Inl (Errorf ''invalid digest'')),
      json_descriptor = dDigest,
      unjson_descriptor = (\<lambda>s. Inr (empty_descriptor\<lparr>dDigest := s\<rparr>)),
      GenerateRandomID = (\<lambda>w. (''c0ffee'', w))\<rparr>"

lemmas demo_eval = demo_env_def init_store_def registerWithDescriptor_def register_body_def register_commit_def
  onWorld_def onMeta_def StartTransaction_def applyTar_def newLayer_def storeLayer_def SetDiffID_def SetSize_def
  SetCacheID_def SetDescriptor_def SetParent_def setOS_def ws_WriteFile_def layerChainID_def layerCacheID_def
  getWithoutLock_def tx_Commit_def insertLayer_def getReference_def setLayer_def empty_fms_def
  empty_descriptor_def Let_def

abbreviation demo_init :: "unit layerStore" where
  "demo_init \<equiv> init_store False GOOS empty_fms ()"

definition demo_run :: "Layer outcome \<times> unit layerStore" where
  "demo_run = registerWithDescriptor demo_env ''base'' '''' empty_descriptor demo_init"

definition demo_store :: "unit layerStore" where
  "demo_store = snd demo_run"

lemma demo_run_eq: "demo_run = (Ok (RefLayer 1 0), demo_store)"
  by (simp add: demo_run_def demo_store_def) (simp add: demo_eval)

lemma demo_store_inv: "store_inv demo_env no_pending demo_store"
  using registerWithDescriptor_ok [OF init_store_inv demo_run_eq [unfolded demo_run_def]] by (simp add: op_ok_def)

lemma demo_layerMap: "layerMap demo_store = [''sha256:base'' \<mapsto> 0]"
  and demo_heap: "heap demo_store = [0 \<mapsto> \<lparr>chainID = ''sha256:base'', diffID = ''sha256:base'', parent = None,
     cacheID = ''c0ffee'', lsize = 4, ldescriptor = empty_descriptor, referenceCount = 1, references = {RefLayer 1 0}\<rparr>]"
  and demo_mounts: "mounts demo_store = Map.empty"
  and demo_fresh: "fresh demo_store = 2"
  by (simp_all add: demo_store_def demo_run_def) (simp_all add: demo_eval)

lemma demo_no_orphans: "no_orphans demo_store {}"
  by (simp add: no_orphans_def demo_layerMap lay_def demo_heap)

section \<open>Properties\<close>

text \<open>
  C1: In every state reached from an empty store by any interleaving of the store's
  operations, the reference count of every layer in the map is exactly the number of
  reference objects, child layers, mounts and operations in flight that use it, parents are
  in the map, and every mount's layer is in the map.
\<close>

theorem layer_store_invariant:
  assumes "conc_reach E (init_store tarSplit os ms w, {#}) (ls, Q)"
  shows "store_inv E (holds Q) ls"
  using conc_reach_inv [OF assms init_conc_inv] by (simp add: conc_inv_def)

definition demo_commit :: "Layer outcome \<times> unit layerStore" where
  "demo_commit = register_commit demo_env None
     (newLayer demo_env demo_init None ''c0ffee'' 4 ''sha256:base'' empty_descriptor) Map.empty demo_init"

lemma demo_commit_layerMap: "layerMap (snd demo_commit) = [''sha256:base'' \<mapsto> 0]"
  by (simp add: demo_commit_def) (simp add: demo_eval)

lemma demo_reach: "conc_reach demo_env (demo_init, {#}) (snd demo_commit, {#})"
proof -
  have "conc_reach demo_env (demo_init, {#}) (demo_init, {# Registering None #})"
    by (rule conc_reach.step [OF conc_reach.init conc_step.reg_root])
  moreover have "conc_step demo_env (demo_init, {# Registering None #}) (is_panic (fst demo_commit)) (snd demo_commit, {#})"
    by (rule conc_step.reg_commit [where cid = "''c0ffee''" and sz = 4 and dgst = "''sha256:base''" and desc = empty_descriptor
          and d = Map.empty]) (simp add: demo_commit_def)
  ultimately show ?thesis by (rule conc_reach.step)
qed

theorem layer_store_invariant_witness:
  "store_inv demo_env (holds {#}) (snd demo_commit) \<and> layerMap (snd demo_commit) ''sha256:base'' = Some 0"
  using layer_store_invariant [OF demo_reach] demo_commit_layerMap by simp

text \<open>
  C2: No reachable state lets an operation reach one of the store's panics (\<open>layer not retained\<close>,
  \<open>cannot remove layer with child\<close>, \<open>cannot delete referenced layer\<close>, a nil layer).
\<close>

theorem layer_store_never_panics:
  assumes "conc_reach E (init_store tarSplit os ms w, {#}) s" and "conc_step E s panics s'"
  shows "\<not> panics"
  using conc_step_inv [OF assms(2) conc_reach_inv [OF assms(1) init_conc_inv]] by simp

definition demo_release :: "LayerMetadata list outcome \<times> unit layerStore" where
  "demo_release = ls_Release demo_env (RefLayer 1 0) (snd demo_commit)"

lemma demo_release_step:
  "conc_step demo_env (snd demo_commit, {#}) (is_panic (fst demo_release)) (snd demo_release, {#})"
  by (rule conc_step.release [where l = "RefLayer 1 0"]) (simp add: demo_release_def)

theorem layer_store_never_panics_witness:
  "\<not> is_panic (fst (ls_Release demo_env (RefLayer 1 0) (snd demo_commit)))"
  using layer_store_never_panics [OF demo_reach demo_release_step] by (simp add: demo_release_def)

text \<open>
  C3: A successful \<open>Release\<close> reports exactly the layers it removed from the store, it changes
  no other entry of the map, and it leaves no layer without users behind.
\<close>

theorem release_reports_removed:
  assumes "store_inv E P ls" and "ls_Release E l ls = (Ok rs, ls')"
  shows "mdChainID ` set rs = dom (layerMap ls) - dom (layerMap ls') \<and> layerMap ls' \<subseteq>\<^sub>m layerMap ls \<and>
    (no_orphans ls {} \<longrightarrow> no_orphans ls' {})"
  using assms
proof (cases rule: ls_Release_cases)
  case (held a k)
  have orphans: "no_orphans ls {} \<Longrightarrow> no_orphans (setLayer a (deleteReference k l) ls) {a}"
    using held(2) by (auto simp: no_orphans_def setLayer_def lay_def)
  have "release_post E P a [] (setLayer a (deleteReference k l) ls) (Ok rs) ls'"
    using releaseLayer_post [OF held(4,5)] .
  then show ?thesis using orphans by (auto simp: release_post_def setLayer_def)
qed (auto simp: no_orphans_def)

lemmas release_eval = ls_Release_def Layer_ChainID_def hasReference_def releaseLayer_def
  deleteReference_def deleteLayer_def hasReferences_def ms_Remove_def

lemma demo_release_store:
  "\<exists>ls'. ls_Release demo_env (RefLayer 1 0) demo_store =
     (Ok [\<lparr>mdChainID = ''sha256:base'', mdDiffID = ''sha256:base'', mdSize = 4, mdDiffSize = 4\<rparr>], ls') \<and>
     layerMap ls' = Map.empty"
  by (simp add: release_eval demo_heap demo_layerMap setLayer_def)
    (simp add: releaseLayer_loop.simps release_eval setLayer_def onWorld_def onMeta_def demo_env_def
      roLayer_Size.simps demo_heap demo_layerMap Let_def)

theorem release_reports_removed_witness:
  "\<exists>rs ls'. ls_Release demo_env (RefLayer 1 0) demo_store = (Ok rs, ls') \<and>
     mdChainID ` set rs = {''sha256:base''} \<and> dom (layerMap ls') = {}"
proof -
  obtain ls' where rel: "ls_Release demo_env (RefLayer 1 0) demo_store =
     (Ok [\<lparr>mdChainID = ''sha256:base'', mdDiffID = ''sha256:base'', mdSize = 4, mdDiffSize = 4\<rparr>], ls')"
    using demo_release_store by metis
  note r0 = release_reports_removed [OF demo_store_inv rel]
  note r = conjunct1 [OF r0] conjunct1 [OF conjunct2 [OF r0]]
  have "dom (layerMap ls') \<subseteq> {''sha256:base''}"
    using map_le_implies_dom_le [OF r(2)] by (simp add: demo_layerMap)
  moreover have "''sha256:base'' \<in> dom (layerMap demo_store) - dom (layerMap ls')"
    unfolding r(1) [symmetric] by simp
  ultimately have empty: "dom (layerMap ls') = {}" by blast
  show ?thesis by (intro exI conjI, rule rel, simp, rule empty)
qed

text \<open>
  C14: The chain ID under which a layer is found is \<open>CreateChainID\<close> of the diff IDs of its
  ancestors and itself, root first, and the chain has at most \<open>maxLayerDepth\<close> (125) layers.
\<close>

theorem chain_id_of_layer:
  assumes "store_inv E P ls" and "layerMap ls c = Some a"
  shows "c = CreateChainID (FromBytes E) (diff_chain (heap ls) a) \<and>
    length (diff_chain (heap ls) a) = depth (heap ls) a \<and> depth (heap ls) a \<le> maxLayerDepth"
proof -
  obtain l where l: "heap ls a = Some l" "chainID l = c" "layer_wf E ls a l" "a \<in> live ls"
    using wf_layerMapE [OF inv_wf [OF assms(1)] assms(2)] by metis
  then show ?thesis
    using chainID_diff_chain [OF inv_wf [OF assms(1)] l(4)] by (simp add: lay_def length_diff_chain layer_wf_def)
qed

theorem chain_id_of_layer_witness:
  "''sha256:base'' = CreateChainID (FromBytes demo_env) (diff_chain (heap demo_store) 0) \<and>
   depth (heap demo_store) 0 = 1"
  using chain_id_of_layer [OF demo_store_inv, of "''sha256:base''" 0]
  by (simp add: demo_layerMap depth.simps demo_heap)


lemma demo_released:
  "\<exists>rs ls'. ls_Release demo_env (RefLayer 1 0) demo_store = (Ok rs, ls') \<and> store_inv demo_env no_pending ls' \<and>
     no_orphans ls' {} \<and> mounts ls' = Map.empty \<and> live ls' = {}"
proof -
  obtain rs ls' where rel: "ls_Release demo_env (RefLayer 1 0) demo_store = (Ok rs, ls')"
    and live: "layerMap ls' = Map.empty"
    using demo_release_store by metis
  have "store_inv demo_env no_pending ls'" using ls_Release_ok [OF demo_store_inv rel] by (simp add: op_ok_def)
  moreover have "mounts ls' = Map.empty" using mounts_ls_Release [OF demo_store_inv rel] demo_mounts by simp
  ultimately show ?thesis using rel live by (auto simp: no_orphans_def)
qed


text \<open>
  C5: A successful registration yields a reference to the layer stored under the chain ID
  computed from the parent's chain ID and the digest of the tar stream, whether the layer is
  new or was already there, and the store holds that reference.
\<close>

theorem register_stores_layer:
  assumes "store_inv E P ls" and "registerWithDescriptor E ts pid desc ls = (Ok r, ls')"
  shows "\<exists>a l. layerMap ls' (createChainIDFromParent (FromBytes E) pid [FromBytes E ts]) = Some a \<and>
    heap ls' a = Some l \<and> r \<in> references l \<and> store_inv E P ls'"
  using register_success [OF assms] registerWithDescriptor_ok [OF assms] by (auto simp: referenced_def op_ok_def)

theorem register_stores_layer_witness:
  "\<exists>a l. layerMap demo_store (createChainIDFromParent (FromBytes demo_env) '''' [FromBytes demo_env ''base'']) = Some a \<and>
    heap demo_store a = Some l \<and> RefLayer 1 0 \<in> references l"
  using register_stores_layer [OF init_store_inv demo_run_eq [unfolded demo_run_def]] by blast


definition failing_env :: "unit env" where
  "failing_env = demo_env\<lparr>drv_Create := \<lambda>_ _ w. (Some (Errorf ''no space left on device''), w)\<rparr>"

definition failed_run :: "Layer outcome \<times> unit layerStore" where
  "failed_run = registerWithDescriptor failing_env ''next'' ''sha256:base'' empty_descriptor demo_store"

lemma failed_run_eq: "failed_run = (Err (Errorf ''no space left on device''), snd failed_run)"
proof -
  obtain ls1 where get: "getWithoutLock ''sha256:base'' demo_store = (Some 0, ls1)" and h: "heap ls1 = (heap demo_store)(0 \<mapsto> (the (heap demo_store 0))\<lparr>referenceCount := 2\<rparr>)"
    by (simp add: getWithoutLock_def demo_layerMap demo_heap setLayer_def)
  have dep: "depth (heap ls1) 0 = 1" by (simp add: h demo_heap depth.simps)
  have pos: "0 < referenceCount (lay demo_store 0)" by (simp add: lay_def demo_heap)
  have "releaseLayer failing_env 0 (ls1\<lparr>world := w\<rparr>) = (Ok [], (ls1\<lparr>world := w\<rparr>)\<lparr>heap := heap demo_store\<rparr>)" for w
    by (rule acquire_release [OF get pos]) simp
  then show ?thesis
    by (simp add: failed_run_def registerWithDescriptor_def get dep maxLayerDepth_def register_body_def
        onWorld_def failing_env_def demo_env_def deferRelease_def)
qed



lemma demo_get: "\<exists>ls1. ls_Get ''sha256:base'' demo_store = (Ok (RefLayer 2 0), ls1)"
  by (simp add: ls_Get_def getWithoutLock_def getReference_def demo_layerMap demo_heap setLayer_def demo_fresh Let_def)


end
