(* ===== verification/Image_Layers.thy ===== *)
theory Image_Layers
  imports Image_Store Layer_Properties
begin

text \<open>
  The image store on top of the layer store: \<open>Get\<close> and \<open>Release\<close> of \<open>layerStore\<close> meet the
  contract of \<open>LayerGetReleaser\<close>, so that the references held in the layer store are exactly
  those of the images.
\<close>

section \<open>References handed out by the layer store\<close>

definition held_refs :: "'w layerStore \<Rightarrow> Layer set" where
  "held_refs ls = (\<Union>a \<in> live ls. references (lay ls a))"

definition layer_getter_of :: "'w env \<Rightarrow> 'w layerStore LayerGetReleaser" where
  "layer_getter_of E = \<lparr>lg_Get = ls_Get, lg_Release = ls_Release E\<rparr>"

lemma held_refs_iff:
  assumes "store_inv E P ls"
  shows "r \<in> held_refs ls \<longleftrightarrow> (\<exists>c a. referenced ls c a r)"
proof -
  have wf: "wf_store E ls" using assms by (rule inv_wf)
  show ?thesis
  proof
    assume "r \<in> held_refs ls"
    then obtain a where a: "a \<in> live ls" "r \<in> references (lay ls a)" by (auto simp: held_refs_def)
    obtain l where "heap ls a = Some l" "layerMap ls (chainID l) = Some a" using wf_liveE [OF wf a(1)] by metis
    with a(2) show "\<exists>c a. referenced ls c a r" by (auto simp: referenced_def lay_def)
  next
    assume "\<exists>c a. referenced ls c a r"
    then show "r \<in> held_refs ls" by (force simp: referenced_def held_refs_def lay_def ran_def)
  qed
qed

lemma ls_Get_result:
  assumes inv: "store_inv E P ls" and get: "ls_Get c ls = (Ok r, ls1)"
  obtains a l where "layerMap ls c = Some a" "heap ls a = Some l" "chainID l = c" "r = RefLayer (fresh ls) a"
    "ls1 = ls\<lparr>heap := (heap ls)(a \<mapsto> l\<lparr>referenceCount := referenceCount l + 1, references := insert r (references l)\<rparr>), fresh := Suc (fresh ls)\<rparr>"
proof -
  obtain o1 ls0 where g: "getWithoutLock c ls = (o1, ls0)" by fastforce
  with get obtain a where a: "o1 = Some a" by (cases o1) (simp_all add: ls_Get_def)
  have c: "layerMap ls c = Some a" using getWithoutLock_Some(2) [OF inv] g a by blast
  obtain l where l: "heap ls a = Some l" "chainID l = c" using wf_layerMapE [OF inv_wf [OF inv] c] by metis
  show ?thesis
    by (rule that [OF c l]) (use get c l(1) in \<open>auto simp: ls_Get_def getWithoutLock_def getReference_def setLayer_def Let_def\<close>)
qed

lemma held_get:
  assumes inv: "store_inv E P ls" and get: "ls_Get c ls = (Ok r, ls1)"
  shows "r \<notin> held_refs ls" "held_refs ls1 = insert r (held_refs ls)"
proof -
  obtain a l where a: "layerMap ls c = Some a" "heap ls a = Some l" "r = RefLayer (fresh ls) a"
    and ls1: "ls1 = ls\<lparr>heap := (heap ls)(a \<mapsto> l\<lparr>referenceCount := referenceCount l + 1, references := insert r (references l)\<rparr>), fresh := Suc (fresh ls)\<rparr>"
    using ls_Get_result [OF inv get] by metis
  have "t < fresh ls" if b: "b \<in> live ls" "RefLayer t b' \<in> references (lay ls b)" for t b b'
  proof -
    obtain k where "heap ls b = Some k" "layer_wf E ls b k" using wf_liveE [OF inv_wf [OF inv] b(1)] by metis
    with b(2) show ?thesis by (auto simp: layer_wf_def lay_def)
  qed
  with a(3) show "r \<notin> held_refs ls" by (auto simp: held_refs_def)
  have "a \<in> live ls" using a(1) by (rule ranI)
  have "references (lay ls1 b) = (if b = a then insert r (references (lay ls b)) else references (lay ls b))" for b
    using a(2) by (simp add: ls1 lay_def)
  moreover have "live ls1 = live ls" by (simp add: ls1)
  ultimately show "held_refs ls1 = insert r (held_refs ls)"
    using \<open>a \<in> live ls\<close> by (auto simp: held_refs_def split: if_splits)
qed

text \<open>The release loop changes no reference set.\<close>

lemma loop_references:
  "releaseLayer_loop E a dep removed ls = (r, ls') \<Longrightarrow> map_option references (heap ls' b) = map_option references (heap ls b)"
proof (induction a arbitrary: dep removed ls rule: less_induct)
  case (less a)
  show ?case
  proof (cases "heap ls a")
    case None
    with less.prems show ?thesis by (simp add: releaseLayer_loop.simps [of E a])
  next
    case (Some l)
    define ls1 where "ls1 = setLayer a (dropOne l) ls"
    have e1: "map_option references (heap ls1 b) = map_option references (heap ls b)"
      using Some by (simp add: ls1_def setLayer_def)
    obtain res ls2 where del: "deleteLayer E a (dropOne l) ls1 = (res, ls2)" by fastforce
    have e2: "heap ls2 = heap ls1" using deleteLayer_frame [OF del] by auto
    have IH: "map_option references (heap ls' b) = map_option references (heap ls2 b)"
      if "p < a" "releaseLayer_loop E p (Suc dep) rm (ls2\<lparr>layerMap := L\<rparr>) = (r, ls')" for p rm L
      using less.IH [OF that] by simp
    show ?thesis
      using less.prems Some e1 e2 IH del
      unfolding releaseLayer_loop.simps [of E a] Let_def ls1_def [symmetric] dropOne_def [symmetric]
      by (auto simp: ls1_def [symmetric] dropOne_def [symmetric] split: sum.splits if_splits option.splits)
  qed
qed

lemma held_release:
  assumes inv: "store_inv E P ls" and l: "l \<in> held_refs ls" and run: "ls_Release E l ls = (r, ls')"
  shows "held_refs ls' = held_refs ls - {l}"
proof -
  obtain c a where ref: "referenced ls c a l" using held_refs_iff [OF inv] l by blast
  then obtain k where k: "layerMap ls c = Some a" "heap ls a = Some k" "chainID k = c" "l \<in> references k"
    by (auto simp: referenced_def)
  have a: "a \<in> live ls" using k(1) by (rule ranI)
  have unique: "b = a" if b: "b \<in> live ls" "l \<in> references (lay ls b)" for b
  proof -
    obtain kb where "heap ls b = Some kb" "layer_wf E ls b kb" using wf_liveE [OF inv_wf [OF inv] b(1)] by metis
    moreover obtain ka where "heap ls a = Some ka" "layer_wf E ls a ka" using wf_liveE [OF inv_wf [OF inv] a] by metis
    ultimately show ?thesis using b(2) k(2,4) by (fastforce simp: layer_wf_def lay_def)
  qed
  obtain t where "l = RefLayer t a"
    using wf_liveE [OF inv_wf [OF inv] a] k(2,4) by (metis layer_wf_def option.inject)
  then have cid: "Layer_ChainID ls l = c" using k by (simp add: Layer_ChainID_def)
  define ls1 where "ls1 = setLayer a (deleteReference k l) ls"
  have inv1: "store_inv E (hold (Some a) P) ls1" using deleteReference_inv [OF inv k(2) a k(4)] by (simp add: ls1_def)
  have rel: "releaseLayer_loop E a 0 [] ls1 = (r, ls')"
    using run k cid by (simp add: ls_Release_def hasReference_def ls1_def releaseLayer_def)
  have post: "store_inv E P ls'" "\<not> is_panic r" "layerMap ls' \<subseteq>\<^sub>m layerMap ls"
    using releaseLayer_loop_post [OF inv1 _ rel] by (auto simp: release_post_def ls1_def setLayer_def)
  have refs: "references (lay ls' b) = (if b = a then references (lay ls b) - {l} else references (lay ls b))"
    if bl: "b \<in> live ls" for b
  proof -
    obtain kb where kb: "heap ls b = Some kb" using wf_liveE [OF inv_wf [OF inv] bl] by metis
    have h1: "heap ls1 b = Some (if b = a then deleteReference k l else kb)"
      using kb by (simp add: ls1_def setLayer_def)
    have "map_option references (heap ls' b) = map_option references (heap ls1 b)" by (rule loop_references [OF rel])
    then obtain k' where "heap ls' b = Some k'" "references k' = references (if b = a then deleteReference k l else kb)"
      unfolding h1 by (cases "heap ls' b") simp_all
    with kb k(2) show ?thesis by (simp add: lay_def deleteReference_def split: if_splits)
  qed
  have sub: "live ls' \<subseteq> live ls"
  proof
    fix x assume "x \<in> live ls'"
    then obtain d where d: "layerMap ls' d = Some x" by (auto simp: ran_def)
    then have "layerMap ls d = Some x" using post(3) by (metis domI map_le_def)
    then show "x \<in> live ls" by (rule ranI)
  qed
  show ?thesis
  proof (intro set_eqI iffI)
    fix x assume "x \<in> held_refs ls'"
    then obtain b where b: "b \<in> live ls'" "x \<in> references (lay ls' b)" by (auto simp: held_refs_def)
    then have bl: "b \<in> live ls" using sub by blast
    with b refs have "x \<in> references (lay ls b)" "b = a \<longrightarrow> x \<noteq> l" by (auto split: if_splits)
    with bl unique show "x \<in> held_refs ls - {l}" by (auto simp: held_refs_def)
  next
    fix x assume x: "x \<in> held_refs ls - {l}"
    then obtain c' b where rx: "referenced ls c' b x" using held_refs_iff [OF inv] by blast
    then have "referenced ls1 c' b x" using x k(2) by (auto simp: referenced_def ls1_def setLayer_def deleteReference_def)
    from loop_referenced [OF this rel post(2) inv_wf [OF inv1] inv_pending_live [OF inv1] inv1]
    have "referenced ls' c' b x" by simp
    then show "x \<in> held_refs ls'" using held_refs_iff [OF post(1)] by blast
  qed
qed

lemma ls_Get_err: "ls_Get c ls = (Err e, ls') \<Longrightarrow> ls' = ls"
proof (cases "getWithoutLock c ls")
  case (Pair o1 ls1)
  assume "ls_Get c ls = (Err e, ls')"
  with Pair show ?thesis
    using getWithoutLock_None [of c ls ls1] by (cases o1) (auto simp: ls_Get_def split: prod.splits)
qed

interpretation lg: layer_getter "layer_getter_of E" "store_inv E no_pending" held_refs for E :: "'w env"
proof unfold_locales
  fix s :: "'w layerStore" and c r s'
  assume inv: "store_inv E no_pending s" and run: "lg_Get (layer_getter_of E) c s = (r, s')"
  have get: "ls_Get c s = (r, s')" using run by (simp add: layer_getter_of_def)
  note ok = ls_Get_ok [OF inv get]
  show "store_inv E no_pending s' \<and> \<not> is_panic r \<and>
      (\<forall>l. r = Ok l \<longrightarrow> l \<notin> held_refs s \<and> held_refs s' = insert l (held_refs s)) \<and> (\<forall>e. r = Err e \<longrightarrow> held_refs s' = held_refs s)"
  proof (cases r)
    case (Ok l)
    with ok held_get [OF inv get [unfolded Ok]] show ?thesis by (simp add: op_ok_def)
  next
    case (Err e)
    with ok ls_Get_err [OF get [unfolded Err]] show ?thesis by (simp add: op_ok_def)
  next
    case (Panic p)
    with ok show ?thesis by (simp add: op_ok_def)
  qed
next
  fix s :: "'w layerStore" and l rr s'
  assume inv: "store_inv E no_pending s" and l: "l \<in> held_refs s" and run: "lg_Release (layer_getter_of E) l s = (rr, s')"
  have rel: "ls_Release E l s = (rr, s')" using run by (simp add: layer_getter_of_def)
  show "store_inv E no_pending s' \<and> \<not> is_panic rr \<and> held_refs s' = held_refs s - {l}"
    using ls_Release_ok [OF inv rel] held_release [OF inv l rel] by (simp add: op_ok_def)
qed

section \<open>The engine's image store\<close>

definition engine_images :: "'w env \<Rightarrow> (string \<Rightarrow> go_error + Image) \<Rightarrow> ('w imageFS, 'w layerStore) imageEnv" where
  "engine_images E unmarshal =
     \<lparr>ieFs = fs_backend E, ieLss = [GOOS \<mapsto> layer_getter_of E], ieUnmarshal = unmarshal, ieFromBytes = FromBytes E\<rparr>"

interpretation ic: image_client "layer_getter_of E" "store_inv E no_pending" held_refs "engine_images E u"
  for E :: "'w env" and u
  by unfold_locales (simp add: engine_images_def split: if_splits)

abbreviation engine_inv :: "'w env \<Rightarrow> ('w imageFS, 'w layerStore) imageStore \<Rightarrow> bool" where
  "engine_inv E \<equiv> img_inv (store_inv E no_pending) held_refs {}"

lemma fs_Set_valid:
  assumes "\<And>c. Validate (FromBytes E c) = None" "be_Set (ieFs (engine_images E u)) c b = (Ok d, b')"
  shows "Validate d = None"
  using ifs.set_ok [of E c b d b'] assms by (simp add: engine_images_def)

section \<open>Properties\<close>

text \<open>
  C10: Creating, deleting and re-parenting images keeps the image store and the layer store in
  step: the references held in the layer store are exactly those of the stored images, no two
  images share a reference, the digest index lists exactly the images, and the layer store's
  own invariant holds.  An operation can break this only by panicking.
\<close>

theorem image_store_invariant:
  assumes "\<And>c. Validate (FromBytes E c) = None" and "engine_inv E st"
    and "is_Create (engine_images E u) config st = (r1, st1)" and "is_Delete (engine_images E u) i st = (r2, st2)"
    and "is_SetParent (engine_images E u) i p st = (r3, st3)"
  shows "(is_panic r1 \<or> engine_inv E st1) \<and> (is_panic r2 \<or> engine_inv E st2) \<and> engine_inv E st3"
proof -
  have "is_panic r1 \<or> engine_inv E st1"
    using validD [OF ic.create_keeps assms(2,3)] fs_Set_valid [OF assms(1)] by blast
  moreover have "is_panic r2 \<or> engine_inv E st2" using validD [OF ic.delete_keeps assms(2,4)] by simp
  moreover have "engine_inv E st3" using keepsD [OF ic.setParent_keeps assms(2,5)] by simp
  ultimately show ?thesis by simp
qed

text \<open>An environment with well-formed digests, for the witnesses.\<close>

definition hash_env :: "unit env" where
  "hash_env = demo_env\<lparr>FromBytes := \<lambda>s. demo_hex (if s = ''base'' then CHR ''a'' else CHR ''b'')\<rparr>"

lemma hash_env_valid: "Validate (FromBytes hash_env c) = None"
  by (simp add: hash_env_def demo_hex_valid)

definition demo_images :: "(unit imageFS, unit layerStore) imageStore" where
  "demo_images =
     \<lparr>images = Map.empty, digestSet = [], backend = \<lparr>content = Map.empty, listing = [], imetadata = (\<lambda>_. Map.empty), fsWorld = ()\<rparr>,
      layers = demo_init\<rparr>"

lemma demo_images_inv: "engine_inv hash_env demo_images"
  by (simp add: img_inv_def demo_images_def owned_def held_refs_def) (simp add: init_store_def)

definition demo_unmarshal :: "string \<Rightarrow> go_error + Image" where
  "demo_unmarshal c = (if c = ''cfg'' then Inr (zero_Image\<lparr>imgRootFS := Some NewRootFS\<rparr>) else Inl (Errorf ''invalid''))"

lemma demo_fs_Set: "\<exists>b'. fs_Set hash_env ''cfg'' b = (Ok (demo_hex CHR ''b''), b')"
  by (simp add: fs_Set_def fs_os_def hash_env_def demo_env_def noSep_def Let_def demo_hex_def)

lemma demo_create:
  "\<exists>st. is_Create (engine_images hash_env demo_unmarshal) ''cfg'' demo_images = (Ok (demo_hex CHR ''b''), st) \<and>
     images st \<noteq> Map.empty"
proof -
  obtain b' where b': "fs_Set hash_env ''cfg'' (backend demo_images) = (Ok (demo_hex CHR ''b''), b')" using demo_fs_Set by blast
  have "images demo_images = Map.empty" "digestSet demo_images = []" by (simp_all add: demo_images_def)
  then show ?thesis using demo_hex_valid(2) b'
    by (simp add: is_Create_def bindM_def liftE_def demo_unmarshal_def engine_images_def ret_def NewRootFS_def
        onBackend_def fs_backend_def is_createLocked_def RootFS_ChainID_def CreateChainID_def is_addImage_def
        zero_Image_def layerCount_def ds_Add_def sort_Search_def search_loop.simps Let_def)
qed

theorem image_store_invariant_witness:
  "engine_inv hash_env (snd (is_Create (engine_images hash_env demo_unmarshal) ''cfg'' demo_images)) \<and>
   images (snd (is_Create (engine_images hash_env demo_unmarshal) ''cfg'' demo_images)) \<noteq> Map.empty"
proof -
  let ?K = "engine_images hash_env demo_unmarshal"
  obtain r1 st1 where c: "is_Create ?K ''cfg'' demo_images = (r1, st1)" by fastforce
  obtain r2 st2 where d: "is_Delete ?K ''x'' demo_images = (r2, st2)" by fastforce
  obtain r3 st3 where p: "is_SetParent ?K ''x'' ''y'' demo_images = (r3, st3)" by fastforce
  have "\<not> is_panic r1 \<and> images st1 \<noteq> Map.empty" using demo_create c by auto
  with image_store_invariant [OF hash_env_valid demo_images_inv c d p] c show ?thesis by simp
qed

section \<open>Reading back what was created\<close>

text \<open>No system call of the backend fails.\<close>

definition os_works :: "'w env \<Rightarrow> bool" where
  "os_works E \<longleftrightarrow> (\<forall>op path w. fst (os_op E op path w) = None)"

lemma valid_has_sep: "Validate d = None \<Longrightarrow> \<not> noSep d"
  by (auto simp: Validate_def noSep_def SplitN2_Some split: if_splits option.splits prod.splits)

lemma fs_get_stored:
  assumes "os_works E" "Validate (FromBytes E c) = None" "content b (FromBytes E c) = Some c"
  shows "\<exists>w. fs_get E (FromBytes E c) b = (Ok c, b\<lparr>fsWorld := w\<rparr>)"
  using assms valid_has_sep [OF assms(2)] by (auto simp: fs_get_def fs_os_eq os_works_def)

lemma fs_GetMetadata_stored:
  assumes "os_works E" "Validate (FromBytes E c) = None" "content b (FromBytes E c) = Some c"
  shows "\<exists>r w. fs_GetMetadata E (FromBytes E c) k b = (r, b\<lparr>fsWorld := w\<rparr>) \<and>
    (case imetadata b (FromBytes E c) k of Some v \<Rightarrow> r = Ok v | None \<Rightarrow> \<exists>e. r = Err e)"
proof -
  obtain w where w: "fs_get E (FromBytes E c) b = (Ok c, b\<lparr>fsWorld := w\<rparr>)" using fs_get_stored [OF assms] by blast
  show ?thesis using assms(1) by (auto simp: fs_GetMetadata_def w fs_os_eq os_works_def split: option.splits)
qed

lemma is_Get_stored:
  assumes "os_works E" "Validate (FromBytes E c) = None" "content (backend st) (FromBytes E c) = Some c"
    and "u c = Inr img" "imgRootFS img \<noteq> None"
  shows "\<exists>w. is_Get (engine_images E u) (FromBytes E c) st =
    (Ok (img\<lparr>rawJSON := c, computedID := FromBytes E c,
             imgParent := (case imetadata (backend st) (FromBytes E c) ''parent'' of Some p \<Rightarrow> p | None \<Rightarrow> '''')\<rparr>),
     st\<lparr>backend := (backend st)\<lparr>fsWorld := w\<rparr>\<rparr>)"
proof -
  obtain w1 where g: "fs_get E (FromBytes E c) (backend st) = (Ok c, (backend st)\<lparr>fsWorld := w1\<rparr>)"
    using fs_get_stored [OF assms(1-3)] by blast
  have "content ((backend st)\<lparr>fsWorld := w1\<rparr>) (FromBytes E c) = Some c" using assms(3) by simp
  from fs_GetMetadata_stored [OF assms(1,2) this, of "''parent''"] obtain r w2 where
    p: "fs_GetMetadata E (FromBytes E c) ''parent'' ((backend st)\<lparr>fsWorld := w1\<rparr>) = (r, (backend st)\<lparr>fsWorld := w2\<rparr>)"
      "case imetadata (backend st) (FromBytes E c) ''parent'' of Some v \<Rightarrow> r = Ok v | None \<Rightarrow> \<exists>e. r = Err e"
    by auto
  have s1: "onBackend (be_Get (ieFs (engine_images E u)) (FromBytes E c)) st = (Ok c, st\<lparr>backend := (backend st)\<lparr>fsWorld := w1\<rparr>\<rparr>)"
    by (simp add: onBackend_def engine_images_def fs_backend_def g)
  have s2: "liftE (NewFromJSON u c) t = (Ok (img\<lparr>rawJSON := c\<rparr>), t)" for t :: "('a imageFS, 'a layerStore) imageStore"
    using assms(4,5) by (auto simp: liftE_def NewFromJSON_def ret_def)
  have s3: "tryM (is_GetParent (engine_images E u) (FromBytes E c)) (st\<lparr>backend := (backend st)\<lparr>fsWorld := w1\<rparr>\<rparr>) =
      (Ok (imetadata (backend st) (FromBytes E c) ''parent''), st\<lparr>backend := (backend st)\<lparr>fsWorld := w2\<rparr>\<rparr>)"
    using p(2) by (cases "imetadata (backend st) (FromBytes E c) ''parent''")
      (auto simp add: tryM_def is_GetParent_def onBackend_def engine_images_def fs_backend_def p(1))
  have "ieUnmarshal (engine_images E u) = u" by (simp add: engine_images_def)
  then have "is_Get (engine_images E u) (FromBytes E c) st =
    ret (img\<lparr>rawJSON := c, computedID := FromBytes E c,
             imgParent := (case imetadata (backend st) (FromBytes E c) ''parent'' of Some p \<Rightarrow> p | None \<Rightarrow> '''')\<rparr>)
     (st\<lparr>backend := (backend st)\<lparr>fsWorld := w2\<rparr>\<rparr>)"
    unfolding is_Get_def by (simp add: bindM_def s1 s2 s3)
  then show ?thesis by (auto simp: ret_def)
qed

text \<open>What a successful \<open>Create\<close> has stored.\<close>

lemma addImage_backend: "is_addImage i l st = (r, st') \<Longrightarrow> backend st' = backend st \<and> \<not> is_panic r \<and> (\<forall>d. r = Ok d \<longrightarrow> d = i)"
  by (auto simp: is_addImage_def Let_def split: prod.splits option.splits)

lemma retainLayer_backend: "retainLayer K img l st = (r, st') \<Longrightarrow> backend st' = backend st"
  by (auto simp: retainLayer_def onLayers_def nilPanic_def panicM_def split: prod.splits option.splits)

lemma createLocked_backend:
  assumes "is_createLocked K img rootFS i st = (r, st')"
  shows "backend st' = backend st \<and> (\<forall>d. r = Ok d \<longrightarrow> d = i)"
proof -
  obtain r1 st1 where q: "retainLayer K img (RootFS_ChainID (ieFromBytes K) rootFS) st = (r1, st1)" by fastforce
  show ?thesis
    using assms q retainLayer_backend [OF q] addImage_backend
    by (cases r1) (fastforce simp: is_createLocked_def Let_def bindM_def mapErr_def split: if_splits)+
qed

lemma create_stored:
  assumes "is_Create (engine_images E u) c st = (Ok i, st1)"
  shows "i = FromBytes E c \<and> content (backend st1) i = Some c \<and> imetadata (backend st1) = imetadata (backend st) \<and>
    (\<exists>img. u c = Inr img \<and> imgRootFS img \<noteq> None)"
proof -
  obtain img where img: "u c = Inr img"
    using assms by (auto simp: is_Create_def bindM_def liftE_def raise_def engine_images_def split: sum.splits)
  obtain rfs where rfs: "imgRootFS img = Some rfs"
    using assms img by (cases "imgRootFS img") (auto simp: is_Create_def bindM_def liftE_def ret_def nilPanic_def panicM_def engine_images_def)
  have "bindM (onBackend (be_Set (fs_backend E) c)) (is_createLocked (engine_images E u) img rfs) st = (Ok i, st1)"
    using assms img rfs by (simp add: is_Create_def bindM_def liftE_def ret_def raise_def engine_images_def split: if_splits)
  then obtain d st0 where s: "onBackend (be_Set (fs_backend E) c) st = (Ok d, st0)"
    and l: "is_createLocked (engine_images E u) img rfs d st0 = (Ok i, st1)"
    unfolding bindM_Ok by blast
  from s obtain b where b: "be_Set (fs_backend E) c (backend st) = (Ok d, b)" "backend st0 = b"
    by (auto simp: onBackend_def split: prod.splits)
  show ?thesis using ifs.set_ok [OF b(1)] b(2) createLocked_backend [OF l] img rfs by auto
qed

text \<open>
  C20: A configuration that \<open>Create\<close> accepted is read back by \<open>Get\<close>: as long as no system call
  fails, \<open>Get\<close> of the returned identifier yields the decoded configuration, with the raw bytes,
  the identifier and the recorded parent filled in.
\<close>

theorem create_get_roundtrip:
  assumes "os_works E" and "\<And>c. Validate (FromBytes E c) = None"
    and "is_Create (engine_images E u) c st = (Ok i, st1)"
  shows "\<exists>img. u c = Inr img \<and>
    fst (is_Get (engine_images E u) i st1) =
      Ok (img\<lparr>rawJSON := c, computedID := i,
              imgParent := (case imetadata (backend st) i ''parent'' of Some p \<Rightarrow> p | None \<Rightarrow> '''')\<rparr>)"
proof -
  from create_stored [OF assms(3)] obtain img where
    i: "i = FromBytes E c" "content (backend st1) i = Some c" "imetadata (backend st1) = imetadata (backend st)"
      "u c = Inr img" "imgRootFS img \<noteq> None" by blast
  with is_Get_stored [OF assms(1,2), where c = c and st = st1 and u = u and img = img] show ?thesis by auto
qed

theorem create_get_roundtrip_witness:
  "\<exists>st1. is_Create (engine_images hash_env demo_unmarshal) ''cfg'' demo_images = (Ok (demo_hex CHR ''b''), st1) \<and>
     is_ok (fst (is_Get (engine_images hash_env demo_unmarshal) (demo_hex CHR ''b'') st1))"
proof -
  obtain st1 where c: "is_Create (engine_images hash_env demo_unmarshal) ''cfg'' demo_images = (Ok (demo_hex CHR ''b''), st1)"
    using demo_create by blast
  have "os_works hash_env" by (simp add: os_works_def hash_env_def demo_env_def)
  from create_get_roundtrip [OF this hash_env_valid c] c show ?thesis by auto
qed

lemma restore_other_case_os_panics:
  assumes "os_works E" "Validate (FromBytes E c) = None" "u c = Inr img" "imgRootFS img = Some rfs"
    and "RootFS_ChainID (FromBytes E) rfs \<noteq> ''''" "IsOSSupported (OperatingSystem img)"
    and "ieLss (engine_images E u) (OperatingSystem img) = None" "content (backend st) (FromBytes E c) = Some c"
  shows "is_panic (fst (restoreImage (engine_images E u) (FromBytes E c) st))"
proof -
  have "imgRootFS img \<noteq> None" using assms(4) by simp
  from is_Get_stored [where u = u, OF assms(1,2,8,3) this] obtain img' st' where
    g: "is_Get (engine_images E u) (FromBytes E c) st = (Ok img', st')"
    and img': "imgRootFS img' = imgRootFS img" "OperatingSystem img' = OperatingSystem img"
    by (auto simp: OperatingSystem_def)
  then have t: "tryM (is_Get (engine_images E u) (FromBytes E c)) st = (Ok (Some img'), st')" by (simp add: tryM_def)
  have "ieFromBytes (engine_images E u) = FromBytes E" by (simp add: engine_images_def)
  then show ?thesis
    using assms(4-7) by (simp add: restoreImage_def bindM_def [of "tryM x" for x] t img' Let_def retainLayer_def nilPanic_def panicM_def)
qed

text \<open>
  C21: The operating system of an image is compared case-insensitively by \<open>IsOSSupported\<close> but
  looked up literally among the layer stores, so a configuration with layers that spells the
  host's operating system in another case makes \<open>Create\<close> dereference a missing layer store.  The
  configuration is already on disk by then, and restoring it panics as well.
\<close>

theorem create_other_case_os_panics:
  assumes "os_works E" and "\<And>c. Validate (FromBytes E c) = None"
    and "u c = Inr img" and "imgRootFS img = Some rfs" and "RootFS_ChainID (FromBytes E) rfs \<noteq> ''''"
    and "layerCount (imgHistory img) \<le> length (DiffIDs rfs)" and "c \<noteq> ''''"
    and "OperatingSystem img \<noteq> GOOS" and "EqualFold GOOS (OperatingSystem img)"
    and "images st (FromBytes E c) = None"
  shows "\<exists>p st1. is_Create (engine_images E u) c st = (Panic p, st1) \<and>
     is_panic (fst (restoreImage (engine_images E u) (FromBytes E c) st1))"
proof -
  let ?K = "engine_images E u" and ?i = "FromBytes E c"
  have v: "Validate ?i = None" by (rule assms(2))
  have os: "IsOSSupported (OperatingSystem img)" "ieLss ?K (OperatingSystem img) = None"
    using assms(8,9) by (auto simp: IsOSSupported_def engine_images_def)
  obtain b' where b': "fs_Set E c (backend st) = (Ok ?i, b')" "content b' ?i = Some c"
    using assms(1,7) valid_has_sep [OF v] by (auto simp: fs_Set_def Let_def fs_os_eq os_works_def)
  have r: "retainLayer ?K img l t = nilPanic t" for l t by (simp add: retainLayer_def os(2))
  have set: "onBackend (be_Set (ieFs ?K) c) st = (Ok ?i, st\<lparr>backend := b'\<rparr>)"
    by (simp add: onBackend_def engine_images_def fs_backend_def b'(1))
  have K: "ieFromBytes ?K = FromBytes E" "ieUnmarshal ?K = u" by (simp_all add: engine_images_def)
  have "is_createLocked ?K img rfs ?i (st\<lparr>backend := b'\<rparr>) = nilPanic (st\<lparr>backend := b'\<rparr>)"
    using assms(5,10) os(1) by (simp add: is_createLocked_def Let_def bindM_def mapErr_def r nilPanic_def panicM_def K)
  then have "is_Create ?K c st = nilPanic (st\<lparr>backend := b'\<rparr>)"
    using assms(3,4,6) by (simp add: is_Create_def bindM_def set liftE_def ret_def K)
  moreover have "is_panic (fst (restoreImage ?K ?i (st\<lparr>backend := b'\<rparr>)))"
    using restore_other_case_os_panics [OF assms(1) v assms(3-5) os] b'(2) by simp
  ultimately show ?thesis by (auto simp: nilPanic_def panicM_def)
qed

definition mixed_case_unmarshal :: "string \<Rightarrow> go_error + Image" where
  "mixed_case_unmarshal c = Inr (zero_Image\<lparr>imgRootFS := Some (RootFS_Append NewRootFS ''sha256:x''), imgOS := ''Linux''\<rparr>)"

theorem create_other_case_os_panics_witness:
  "is_panic (fst (is_Create (engine_images hash_env mixed_case_unmarshal) ''cfg'' demo_images))"
proof -
  let ?img = "zero_Image\<lparr>imgRootFS := Some (RootFS_Append NewRootFS ''sha256:x''), imgOS := ''Linux''\<rparr>"
  have "os_works hash_env" by (simp add: os_works_def hash_env_def demo_env_def)
  moreover have "mixed_case_unmarshal ''cfg'' = Inr ?img" by (simp add: mixed_case_unmarshal_def)
  moreover have "imgRootFS ?img = Some (RootFS_Append NewRootFS ''sha256:x'')" by simp
  moreover have "RootFS_ChainID (FromBytes hash_env) (RootFS_Append NewRootFS ''sha256:x'') \<noteq> ''''"
    by (simp add: RootFS_ChainID_def RootFS_Append_def NewRootFS_def CreateChainID_def GOOS_def)
  moreover have "layerCount (imgHistory ?img) \<le> length (DiffIDs (RootFS_Append NewRootFS ''sha256:x''))"
    by (simp add: layerCount_def zero_Image_def)
  moreover have "OperatingSystem ?img \<noteq> GOOS" "EqualFold GOOS (OperatingSystem ?img)"
    by (simp_all add: OperatingSystem_def GOOS_def) code_simp
  moreover have "images demo_images (FromBytes hash_env ''cfg'') = None" by (simp add: demo_images_def)
  ultimately show ?thesis
    using create_other_case_os_panics [OF _ hash_env_valid, of mixed_case_unmarshal "''cfg''" ?img _ demo_images] by fastforce
qed

end
