(* ===== verification/Image_Commit.thy ===== *)
theory Image_Commit
  imports Image_Layers
begin

text \<open>
  Committing a container to an image (\<open>daemon/images/image_commit.go\<close>): the read-write layer is
  exported as an archive, registered as a layer and described by a child image.  With \<open>simp\<close> the
  new image starts from an empty root file system instead of that of its parent.
\<close>

section \<open>Committing\<close>

record CommitConfig =
  cmAuthor :: string
  cmComment :: string
  cmConfig :: "Config option"
  cmContainerConfig :: Config
  cmContainerID :: string
  cmMountLabel :: string
  cmOS :: string
  cmParentImageID :: string

text \<open>The stores, the JSON package, and what a new image is stamped with.\<close>

record ('b, 'w) commitEnv =
  cmLayers :: "'w env"
  cmImages :: "('b, 'w layerStore) imageEnv"
  cmLayerStores :: "string \<Rightarrow> bool"
  cmMarshal :: "Image \<Rightarrow> go_error + string"
  cmVersion :: string
  cmNow :: string

definition fromSum :: "('s \<Rightarrow> (go_error + 'a) \<times> 's) \<Rightarrow> ('s, 'a) M" where
  "fromSum f s = (case f s of (Inl e, s') \<Rightarrow> (Err e, s') | (Inr a, s') \<Rightarrow> (Ok a, s'))"

text \<open>
  The archive of the read-write layer, with the layer that stays mounted and referenced until the
  archive is closed.
\<close>

definition exportContainerRw :: "'w env \<Rightarrow> string \<Rightarrow> string \<Rightarrow> ('w layerStore, string \<times> RWLayer) M" where
  "exportContainerRw E id1 mountLabel =
     bindM (ls_GetRWLayer id1) (\<lambda>rwlayer.
     onErr
       (bindM (fromSum (rw_Mount E rwlayer mountLabel)) (\<lambda>_.
        onErr (bindM (fromSum (rw_TarStream E rwlayer)) (\<lambda>tar. ret (tar, rwlayer))) (fromStmt (rw_Unmount E rwlayer))))
       (ls_ReleaseRWLayer E rwlayer))"

definition closeRw :: "'w env \<Rightarrow> RWLayer \<Rightarrow> ('w layerStore, unit) M" where
  "closeRw E rwlayer =
     bindM (tryM (fromStmt (rw_Unmount E rwlayer))) (\<lambda>_.
     bindM (tryM (ls_ReleaseRWLayer E rwlayer)) (\<lambda>_. ret ()))"

definition childConfig :: "CommitConfig \<Rightarrow> string \<Rightarrow> ChildConfig" where
  "childConfig c diff =
     \<lparr>ccContainerID = cmContainerID c, ccAuthor = cmAuthor c, ccComment = cmComment c, ccDiffID = diff,
      ccContainerConfig = cmContainerConfig c, ccConfig = cmConfig c\<rparr>"

definition commit_create ::
  "('b, 'w) commitEnv \<Rightarrow> CommitConfig \<Rightarrow> bool \<Rightarrow> Image \<Rightarrow> Layer \<Rightarrow> (('b, 'w layerStore) imageStore, string) M" where
  "commit_create K c simp par l =
     bindM getM (\<lambda>st.
     let cc = childConfig c (Layer_DiffID (layers st) l) in
     bindM (liftE (cmMarshal K (NewChildImage (cmVersion K) (cmNow K) par cc (cmOS c)))) (\<lambda>config.
     bindM (is_Create (cmImages K) config) (\<lambda>id1.
     if cmParentImageID c \<noteq> '''' \<or> simp then bindM (is_SetParent (cmImages K) id1 (cmParentImageID c)) (\<lambda>_. ret id1)
     else ret id1)))"

definition commit_parent ::
  "('b, 'w) commitEnv \<Rightarrow> CommitConfig \<Rightarrow> bool \<Rightarrow> (('b, 'w layerStore) imageStore, Image) M" where
  "commit_parent K c simp =
     (if cmParentImageID c = '''' \<or> simp then ret (zero_Image\<lparr>imgRootFS := Some NewRootFS\<rparr>)
      else is_Get (cmImages K) (cmParentImageID c))"

definition commit_body ::
  "('b, 'w) commitEnv \<Rightarrow> CommitConfig \<Rightarrow> bool \<Rightarrow> string \<Rightarrow> (('b, 'w layerStore) imageStore, string) M" where
  "commit_body K c simp tar =
     bindM (commit_parent K c simp) (\<lambda>par.
     case imgRootFS par of
       None \<Rightarrow> nilPanic
     | Some rootFS \<Rightarrow>
         bindM (onLayers (ls_Register (cmLayers K) tar (RootFS_ChainID (FromBytes (cmLayers K)) rootFS))) (\<lambda>l.
         afterM (commit_create K c simp par l) (onLayers (ls_Release (cmLayers K) l))))"

definition CommitImage ::
  "('b, 'w) commitEnv \<Rightarrow> CommitConfig \<Rightarrow> bool \<Rightarrow> (('b, 'w layerStore) imageStore, string) M" where
  "CommitImage K c simp =
     (if \<not> cmLayerStores K (cmOS c) then raise ErrNotSupportedOperatingSystem
      else
        bindM (onLayers (exportContainerRw (cmLayers K) (cmContainerID c) (cmMountLabel c))) (\<lambda>(tar, rwlayer).
        afterM (commit_body K c simp tar) (onLayers (closeRw (cmLayers K) rwlayer))))"

text \<open>The commit of a build step looks up the container for the fields it fills in.\<close>

record buildContainer =
  bcMountLabel :: string
  bcOS :: string
  bcImageID :: string

definition CommitBuildStep ::
  "('b, 'w) commitEnv \<Rightarrow> (string \<rightharpoonup> buildContainer) \<Rightarrow> CommitConfig \<Rightarrow> (('b, 'w layerStore) imageStore, string) M" where
  "CommitBuildStep K containers c =
     (case containers (cmContainerID c) of
        None \<Rightarrow> raise (Errorf (''container not found: '' @ cmContainerID c))
      | Some b \<Rightarrow>
          CommitImage K (c\<lparr>cmMountLabel := bcMountLabel b, cmOS := bcOS b, cmParentImageID := bcImageID b\<rparr>) False)"

section \<open>Helpers\<close>

lemma afterM_Ok: "afterM m c s = (Ok a, s') \<Longrightarrow> \<exists>s1 b. m s = (Ok a, s1) \<and> tryM c s1 = (Ok b, s')"
  by (auto simp: afterM_def bindM_Ok catchM_def raise_def ret_def bindM_def tryM_def split: prod.splits outcome.splits)

lemma onLayers_Ok: "onLayers m st = (Ok a, st') \<longleftrightarrow> (\<exists>ls. m (layers st) = (Ok a, ls) \<and> st' = st\<lparr>layers := ls\<rparr>)"
  by (auto simp: onLayers_def split: prod.splits)

lemma try_onLayers_images: "tryM (onLayers m) st = (r, st') \<Longrightarrow> images st' = images st"
  by (auto simp: tryM_def onLayers_def split: prod.splits outcome.splits)

lemma fromSum_world_inv: "store_inv E P s \<Longrightarrow> fromSum (onWorld f) s = (a, s') \<Longrightarrow> store_inv E P s'"
proof -
  assume i: "store_inv E P s" and r: "fromSum (onWorld f) s = (a, s')"
  from r have "snd (onWorld f s) = s'" by (auto simp: fromSum_def split: prod.splits sum.splits)
  then show "store_inv E P s'" using i onWorld_inv [of E P f s] by simp
qed

lemma onErr_Ok: "onErr m c s = (Ok y, s') \<Longrightarrow> m s = (Ok y, s')"
  by (auto simp: onErr_def catchM_def bindM_def tryM_def raise_def split: prod.splits outcome.splits)

lemma export_inv:
  assumes "store_inv E P ls" "exportContainerRw E i label ls = (Ok x, ls')"
  shows "store_inv E P ls'"
proof -
  obtain rw ls1 where g: "ls_GetRWLayer i ls = (Ok rw, ls1)"
    and o: "onErr (bindM (fromSum (rw_Mount E rw label)) (\<lambda>_. onErr (bindM (fromSum (rw_TarStream E rw)) (\<lambda>tar. ret (tar, rw)))
       (fromStmt (rw_Unmount E rw)))) (ls_ReleaseRWLayer E rw) ls1 = (Ok x, ls')"
    using assms(2) unfolding exportContainerRw_def bindM_Ok by blast
  obtain p ls2 where m: "fromSum (rw_Mount E rw label) ls1 = (Ok p, ls2)"
    and t: "onErr (bindM (fromSum (rw_TarStream E rw)) (\<lambda>tar. ret (tar, rw))) (fromStmt (rw_Unmount E rw)) ls2 = (Ok x, ls')"
    using onErr_Ok [OF o] unfolding bindM_Ok by blast
  obtain tar where t2: "fromSum (rw_TarStream E rw) ls2 = (Ok tar, ls')"
    using onErr_Ok [OF t] by (auto simp: bindM_Ok ret_def)
  have "store_inv E P ls1" using ls_GetRWLayer_ok [OF assms(1) g] by (simp add: op_ok_def)
  then have "store_inv E P ls2" using m fromSum_world_inv unfolding rw_Mount_def by blast
  then show ?thesis using t2 fromSum_world_inv unfolding rw_TarStream_def by blast
qed

lemma SetParent_child:
  assumes "is_SetParent K i par st = (Ok x, st')"
  shows "\<exists>pm. images st' par = Some pm \<and> i \<in> imChildren pm"
proof -
  have p: "images st par \<noteq> None" using assms by (auto simp: is_SetParent_def bindM_def getM_def raise_def split: if_splits)
  obtain s1 where u: "unlinkParent K i st = (Ok (), s1)"
    and r: "bindM (updM (\<lambda>st. case images st par of None \<Rightarrow> st
           | Some pm \<Rightarrow> st\<lparr>images := (images st)(par \<mapsto> pm\<lparr>imChildren := insert i (imChildren pm)\<rparr>)\<rparr>))
         (\<lambda>_. onBackend (be_SetMetadata (ieFs K) i ''parent'' par)) s1 = (Ok x, st')"
    using assms p unfolding is_SetParent_def by (auto simp: bindM_Ok getM_def)
  have same: "is_GetParent K i st = (q, s0) \<Longrightarrow> images s0 = images st" for q s0
    by (auto simp: is_GetParent_def onBackend_def split: prod.splits)
  have "images s1 par \<noteq> None"
    using u p same unfolding unlinkParent_def
    by (fastforce simp: bindM_Ok tryM_def updM_def ret_def split: prod.splits outcome.splits option.splits if_splits)
  then obtain pm where pm: "images s1 par = Some pm" by blast
  then show ?thesis using r by (auto simp: bindM_Ok updM_def onBackend_def split: prod.splits)
qed

text \<open>What a commit that returns has done, step by step.\<close>

lemma commit_steps:
  assumes "store_inv (cmLayers K) P (layers st)" "CommitImage K c simp st = (Ok i, st')"
  obtains tar rw par rootFS l s0 s1 config s2 s3 where
    "commit_parent K c simp s0 = (Ok par, s1)" "imgRootFS par = Some rootFS"
    "store_inv (cmLayers K) P (layers s0)"
    "onLayers (ls_Register (cmLayers K) tar (RootFS_ChainID (FromBytes (cmLayers K)) rootFS)) s1 = (Ok l, s2)"
    "cmMarshal K (NewChildImage (cmVersion K) (cmNow K) par (childConfig c (Layer_DiffID (layers s2) l)) (cmOS c)) = Inr config"
    "is_Create (cmImages K) config s2 = (Ok i, s3)"
    "cmParentImageID c \<noteq> '''' \<or> simp \<Longrightarrow> \<exists>pm. images st' (cmParentImageID c) = Some pm \<and> i \<in> imChildren pm"
    "onLayers (exportContainerRw (cmLayers K) (cmContainerID c) (cmMountLabel c)) st = (Ok (tar, rw), s0)"
proof -
  obtain tar rw s0 where e: "onLayers (exportContainerRw (cmLayers K) (cmContainerID c) (cmMountLabel c)) st = (Ok (tar, rw), s0)"
    and a: "afterM (commit_body K c simp tar) (onLayers (closeRw (cmLayers K) rw)) s0 = (Ok i, st')"
    using assms(2) by (auto simp: CommitImage_def bindM_Ok raise_def split: if_splits)
  have inv: "store_inv (cmLayers K) P (layers s0)" using e export_inv [OF assms(1)] by (auto simp: onLayers_Ok)
  obtain s5 b where b: "commit_body K c simp tar s0 = (Ok i, s5)" "tryM (onLayers (closeRw (cmLayers K) rw)) s5 = (Ok b, st')"
    using afterM_Ok [OF a] by blast
  obtain par s1 where p: "commit_parent K c simp s0 = (Ok par, s1)"
    and c: "(case imgRootFS par of None \<Rightarrow> nilPanic
     | Some rootFS \<Rightarrow>
         bindM (onLayers (ls_Register (cmLayers K) tar (RootFS_ChainID (FromBytes (cmLayers K)) rootFS))) (\<lambda>l.
         afterM (commit_create K c simp par l) (onLayers (ls_Release (cmLayers K) l)))) s1 = (Ok i, s5)"
    using b(1) unfolding commit_body_def bindM_Ok by blast
  obtain rootFS where r: "imgRootFS par = Some rootFS" using c by (cases "imgRootFS par") (auto simp: nilPanic_def panicM_def)
  obtain l s2 where l: "onLayers (ls_Register (cmLayers K) tar (RootFS_ChainID (FromBytes (cmLayers K)) rootFS)) s1 = (Ok l, s2)"
    and a2: "afterM (commit_create K c simp par l) (onLayers (ls_Release (cmLayers K) l)) s2 = (Ok i, s5)"
    using c r by (auto simp: bindM_Ok)
  obtain s4 d where d: "commit_create K c simp par l s2 = (Ok i, s4)" "tryM (onLayers (ls_Release (cmLayers K) l)) s4 = (Ok d, s5)"
    using afterM_Ok [OF a2] by blast
  let ?img = "NewChildImage (cmVersion K) (cmNow K) par (childConfig c (Layer_DiffID (layers s2) l)) (cmOS c)"
  have "bindM (liftE (cmMarshal K ?img)) (\<lambda>config. bindM (is_Create (cmImages K) config) (\<lambda>id1.
     if cmParentImageID c \<noteq> '''' \<or> simp then bindM (is_SetParent (cmImages K) id1 (cmParentImageID c)) (\<lambda>_. ret id1)
     else ret id1)) s2 = (Ok i, s4)"
    using d(1) by (simp add: commit_create_def bindM_def [of getM] getM_def Let_def)
  then obtain config j s3 where m: "cmMarshal K ?img = Inr config" and k: "is_Create (cmImages K) config s2 = (Ok j, s3)"
    and f: "(if cmParentImageID c \<noteq> '''' \<or> simp then bindM (is_SetParent (cmImages K) j (cmParentImageID c)) (\<lambda>_. ret j) else ret j) s3 = (Ok i, s4)"
    unfolding bindM_Ok by (auto simp: liftE_def raise_def ret_def split: sum.splits)
  have j: "j = i" using f by (auto simp: bindM_Ok ret_def split: if_splits)
  have "\<exists>pm. images st' (cmParentImageID c) = Some pm \<and> i \<in> imChildren pm" if "cmParentImageID c \<noteq> '''' \<or> simp"
  proof -
    have "\<exists>x. is_SetParent (cmImages K) i (cmParentImageID c) s3 = (Ok x, s4)" using f that j by (auto simp: bindM_Ok ret_def)
    then obtain pm where "images s4 (cmParentImageID c) = Some pm" "i \<in> imChildren pm" using SetParent_child by blast
    then show ?thesis using try_onLayers_images [OF d(2)] try_onLayers_images [OF b(2)] by auto
  qed
  then show ?thesis using that [OF p r inv l m] k j e by blast
qed

lemma commit_parent_layers:
  assumes "commit_parent K c simp s0 = (Ok par, s1)"
  shows "layers s1 = layers s0"
proof -
  have b: "onBackend m s = (r, s') \<Longrightarrow> layers s' = layers s" for m :: "('a, 'c) M" and s s' :: "('a, 'd) imageStore" and r
    by (auto simp: onBackend_def split: prod.splits)
  have g: "is_GetParent (cmImages K) i s = (r, s') \<Longrightarrow> layers s' = layers s" for i s r s'
    by (auto simp: is_GetParent_def onBackend_def split: prod.splits)
  have t: "tryM (is_GetParent (cmImages K) i) s = (r, s') \<Longrightarrow> layers s' = layers s" for i s r s'
    using g by (auto simp: tryM_def split: prod.splits outcome.splits)
  show ?thesis
  proof (cases "cmParentImageID c = '''' \<or> simp")
    case False
    then have "is_Get (cmImages K) (cmParentImageID c) s0 = (Ok par, s1)" using assms by (simp add: commit_parent_def)
    then obtain cfg t1 img t2 p t3 where "onBackend (be_Get (ieFs (cmImages K)) (cmParentImageID c)) s0 = (Ok cfg, t1)"
      "liftE (NewFromJSON (ieUnmarshal (cmImages K)) cfg) t1 = (Ok img, t2)"
      "tryM (is_GetParent (cmImages K) (cmParentImageID c)) t2 = (Ok p, t3)" "s1 = t3"
      unfolding is_Get_def bindM_Ok by (auto simp: ret_def)
    then show ?thesis using b t by (auto simp: liftE_def raise_def ret_def split: sum.splits)
  qed (use assms in \<open>auto simp: commit_parent_def ret_def\<close>)
qed


text \<open>A container on an empty store, committed in the simplified way although it has a parent.\<close>

definition demo_rw_env :: "unit env" where
  "demo_rw_env = demo_env\<lparr>drv_Diff := (\<lambda>_ _ w. (Inr ''tar'', w))\<rparr>"

lemma demo_rw_simps:
  "drv_Create demo_rw_env a b w = (None, w)" "drv_CreateReadWrite demo_rw_env a b o1 w = (None, w)"
  "drv_ApplyDiff demo_rw_env a b ts w = (Inr (word_of_nat (length ts)), w)" "drv_Get demo_rw_env a b w = (Inr ''/mnt'', w)"
  "drv_Diff demo_rw_env a b w = (Inr ''tar'', w)" "os_op demo_rw_env a b w = (None, w)" "FromBytes demo_rw_env s = ''sha256:'' @ s"
  "GenerateRandomID demo_rw_env w = (''c0ffee'', w)"
  by (simp_all add: demo_rw_env_def demo_env_def)

lemmas demo_rw_eval = init_store_def registerWithDescriptor_def register_body_def register_commit_def onWorld_def onMeta_def
  StartTransaction_def applyTar_def newLayer_def storeLayer_def SetDiffID_def SetSize_def SetCacheID_def SetDescriptor_def
  SetParent_def setOS_def ws_WriteFile_def layerChainID_def layerCacheID_def getWithoutLock_def tx_Commit_def insertLayer_def
  getReference_def setLayer_def empty_fms_def empty_descriptor_def Let_def demo_rw_simps

definition demo_rw_store :: "unit layerStore" where
  "demo_rw_store = snd (ls_CreateRWLayer demo_rw_env ''c'' '''' None demo_init)"

lemma demo_rw_store_eq:
  "demo_rw_store =
     \<lparr>heap = \<lambda>x. None, layerMap = \<lambda>x. None,
      mounts = [''c'' \<mapsto> \<lparr>mname = ''c'', mountID = ''c0ffee'', initID = '''', mparent = None, mreferences = {RWRef 0 ''c'' ''c0ffee'' ''''}\<rparr>],
      fresh = Suc 0, useTarSplit = False, lsOS = GOOS,
      meta = \<lparr>layerDirs = \<lambda>x. None, mountDirs = [''c'' \<mapsto> [''mount-id'' \<mapsto> ''c0ffee'']]\<rparr>, world = ()\<rparr>"
  unfolding demo_rw_store_def
  by (simp add: demo_rw_eval ls_CreateRWLayer_def createRW_body_def no_opts_def mount_commit_def saveMount_def SetMountID_def
      write_mount_file_def m_getReference_def cacheParent_def)

lemma demo_rw_inv: "store_inv demo_rw_env no_pending demo_rw_store"
  using ls_CreateRWLayer_ok [OF init_store_inv, of demo_rw_env "''c''" "''''" None] unfolding demo_rw_store_def
  by (metis op_ok_def prod.collapse)

definition demo_exported :: "unit layerStore" where
  "demo_exported = snd (exportContainerRw demo_rw_env ''c'' '''' demo_rw_store)"

lemma demo_rw_export:
  "exportContainerRw demo_rw_env ''c'' '''' demo_rw_store = (Ok (''tar'', RWRef 1 ''c'' ''c0ffee'' ''''), demo_exported) \<and>
   demo_exported =
     \<lparr>heap = \<lambda>x. None, layerMap = \<lambda>x. None,
      mounts = [''c'' \<mapsto> \<lparr>mname = ''c'', mountID = ''c0ffee'', initID = '''', mparent = None,
        mreferences = {RWRef 1 ''c'' ''c0ffee'' '''', RWRef 0 ''c'' ''c0ffee'' ''''}\<rparr>],
      fresh = 2, useTarSplit = False, lsOS = GOOS,
      meta = \<lparr>layerDirs = \<lambda>x. None, mountDirs = [''c'' \<mapsto> [''mount-id'' \<mapsto> ''c0ffee'']]\<rparr>, world = ()\<rparr>"
  unfolding demo_exported_def demo_rw_store_eq
  by (simp add: demo_rw_eval exportContainerRw_def bindM_def ls_GetRWLayer_def m_getReference_def cacheParent_def onErr_def catchM_def
      fromSum_def rw_Mount_def rw_TarStream_def ret_def)

lemma demo_rw_register: "\<exists>l ls2. ls_Register demo_rw_env ''tar'' '''' demo_exported = (Ok l, ls2)"
proof -
  have e: "demo_exported =
     \<lparr>heap = \<lambda>x. None, layerMap = \<lambda>x. None,
      mounts = [''c'' \<mapsto> \<lparr>mname = ''c'', mountID = ''c0ffee'', initID = '''', mparent = None,
        mreferences = {RWRef 1 ''c'' ''c0ffee'' '''', RWRef 0 ''c'' ''c0ffee'' ''''}\<rparr>],
      fresh = 2, useTarSplit = False, lsOS = GOOS,
      meta = \<lparr>layerDirs = \<lambda>x. None, mountDirs = [''c'' \<mapsto> [''mount-id'' \<mapsto> ''c0ffee'']]\<rparr>, world = ()\<rparr>"
    using demo_rw_export by blast
  show ?thesis unfolding e by (simp add: demo_rw_eval ls_Register_def)
qed

lemma demo_rw_run:
  "\<exists>rw ls l ls2. exportContainerRw demo_rw_env ''c'' '''' demo_rw_store = (Ok (''tar'', rw), ls) \<and>
     ls_Register demo_rw_env ''tar'' '''' ls = (Ok l, ls2)"
  using demo_rw_export demo_rw_register by blast

definition demo_commit_env :: "(unit, unit) commitEnv" where
  "demo_commit_env =
     \<lparr>cmLayers = demo_rw_env,
      cmImages =
        \<lparr>ieFs = \<lparr>be_Walk = (\<lambda>w. (Ok [], w)), be_Get = (\<lambda>_ w. (Ok '''', w)), be_Set = (\<lambda>_ w. (Ok (demo_hex CHR ''b''), w)),
           be_Delete = (\<lambda>_ w. (Ok (), w)), be_SetMetadata = (\<lambda>_ _ _ w. (Ok (), w)), be_GetMetadata = (\<lambda>_ _ w. (Err (Errorf ''none''), w)),
           be_DeleteMetadata = (\<lambda>_ _ w. (Ok (), w))\<rparr>,
         ieLss = [GOOS \<mapsto> layer_getter_of demo_rw_env],
         ieUnmarshal = (\<lambda>s. Inr (zero_Image\<lparr>imgRootFS := Some NewRootFS\<rparr>)), ieFromBytes = (\<lambda>s. ''sha256:'' @ s)\<rparr>,
      cmLayerStores = (\<lambda>os. os = ''linux''), cmMarshal = (\<lambda>img. Inr (concat (diffIDs_of img))), cmVersion = '''', cmNow = ''''\<rparr>"

definition demo_commit_store :: "(unit, unit layerStore) imageStore" where
  "demo_commit_store =
     \<lparr>images = [''sha256:parent'' \<mapsto> \<lparr>imLayer = None, imChildren = {}\<rparr>], digestSet = [], backend = (), layers = demo_rw_store\<rparr>"

definition demo_commit_cfg :: CommitConfig where
  "demo_commit_cfg =
     \<lparr>cmAuthor = '''', cmComment = '''', cmConfig = None, cmContainerConfig = empty_Config, cmContainerID = ''c'',
      cmMountLabel = '''', cmOS = ''linux'', cmParentImageID = ''sha256:parent''\<rparr>"

lemma afterM_done: "m s = (Ok a, s1) \<Longrightarrow> \<not> is_panic (fst (c s1)) \<Longrightarrow> afterM m c s = (Ok a, snd (c s1))"
  by (cases "c s1"; cases "fst (c s1)") (auto simp: afterM_def bindM_def catchM_def tryM_def ret_def)

lemma closeRw_done: "store_inv E P ls \<Longrightarrow> \<not> is_panic (fst (closeRw E rw ls))"
proof -
  assume inv: "store_inv E P ls"
  obtain r ls1 where u: "onWorld (drv_Put E (rw_mountID rw)) ls = (r, ls1)" by fastforce
  have inv1: "store_inv E P ls1" using inv onWorld_inv [of E P "drv_Put E (rw_mountID rw)" ls] u by simp
  obtain q ls2 where q: "ls_ReleaseRWLayer E rw ls1 = (q, ls2)" by fastforce
  then have "\<not> is_panic q" using ls_ReleaseRWLayer_ok [OF inv1] by (simp add: op_ok_def)
  then show ?thesis using u q
    by (cases r; cases q) (auto simp: closeRw_def rw_Unmount_def bindM_def tryM_def fromStmt_def ret_def)
qed

lemma demo_commit_runs: "\<exists>st'. CommitImage demo_commit_env demo_commit_cfg True demo_commit_store = (Ok (demo_hex CHR ''b''), st')"
proof -
  obtain rw ls l ls2 where r: "exportContainerRw demo_rw_env ''c'' '''' demo_rw_store = (Ok (''tar'', rw), ls)"
    "ls_Register demo_rw_env ''tar'' '''' ls = (Ok l, ls2)" using demo_rw_run by blast
  have i1: "store_inv demo_rw_env no_pending ls" by (rule export_inv [OF demo_rw_inv r(1)])
  have i2: "store_inv demo_rw_env no_pending ls2"
    using registerWithDescriptor_ok [OF i1] r(2) by (auto simp: ls_Register_def op_ok_def)
  let ?s1 = "demo_commit_store\<lparr>layers := ls\<rparr>" and ?s2 = "demo_commit_store\<lparr>layers := ls2\<rparr>"
  have c: "\<exists>s3. commit_create demo_commit_env demo_commit_cfg True (zero_Image\<lparr>imgRootFS := Some NewRootFS\<rparr>) l ?s2 = (Ok (demo_hex CHR ''b''), s3) \<and>
      layers s3 = ls2"
  proof -
    have "demo_hex CHR ''b'' \<noteq> ''sha256:parent''" by (simp add: demo_hex_def numeral_eq_Suc)
    then show ?thesis
      using demo_hex_valid(2)
      by (simp add: commit_create_def bindM_def getM_def liftE_def ret_def demo_commit_env_def is_Create_def layerCount_def zero_Image_def
          onBackend_def is_createLocked_def RootFS_ChainID_def CreateChainID_def NewRootFS_def is_addImage_def ds_Add_def sort_Search_def
          search_loop.simps Let_def demo_commit_store_def demo_commit_cfg_def is_SetParent_def unlinkParent_def tryM_def is_GetParent_def updM_def)
  qed
  then obtain s3 where s3: "commit_create demo_commit_env demo_commit_cfg True (zero_Image\<lparr>imgRootFS := Some NewRootFS\<rparr>) l ?s2 = (Ok (demo_hex CHR ''b''), s3)"
    "layers s3 = ls2" by blast
  obtain q ls3 where q: "ls_Release demo_rw_env l ls2 = (q, ls3)" by fastforce
  have p: "\<not> is_panic q" "store_inv demo_rw_env no_pending ls3" using ls_Release_ok [OF i2 q] by (simp_all add: op_ok_def)
  let ?s4 = "s3\<lparr>layers := ls3\<rparr>"
  have a1: "afterM (commit_create demo_commit_env demo_commit_cfg True (zero_Image\<lparr>imgRootFS := Some NewRootFS\<rparr>) l)
      (onLayers (ls_Release demo_rw_env l)) ?s2 = (Ok (demo_hex CHR ''b''), ?s4)"
    by (subst afterM_done [where a = "demo_hex CHR ''b''" and ?s1.0 = s3]) (use q p(1) s3 in \<open>simp_all add: onLayers_def\<close>)
  have b: "commit_body demo_commit_env demo_commit_cfg True ''tar'' ?s1 = (Ok (demo_hex CHR ''b''), ?s4)"
  proof -
    have e: "cmLayers demo_commit_env = demo_rw_env" by (simp add: demo_commit_env_def)
    have ch: "RootFS_ChainID (FromBytes demo_rw_env) NewRootFS = ''''" by (simp add: RootFS_ChainID_def CreateChainID_def NewRootFS_def)
    have rg: "onLayers (ls_Register demo_rw_env ''tar'' '''') ?s1 = (Ok l, ?s2)" using r(2) by (simp add: onLayers_def)
    have "imgRootFS (zero_Image\<lparr>imgRootFS := Some NewRootFS\<rparr>) = Some NewRootFS" by simp
    then show ?thesis
      unfolding commit_body_def commit_parent_def e
      by (simp only: simp_thms if_True bindM_def ret_def prod.case outcome.case option.case ch rg a1)
  qed
  have n: "\<not> is_panic (fst (closeRw demo_rw_env rw ls3))" by (rule closeRw_done [OF p(2)])
  have ne: "\<not> is_panic (fst (onLayers (closeRw demo_rw_env rw) ?s4))"
    using n by (auto simp: onLayers_def split: prod.splits)
  have x: "onLayers (exportContainerRw demo_rw_env ''c'' '''') demo_commit_store = (Ok (''tar'', rw), ?s1)"
    using r(1) by (simp add: onLayers_def demo_commit_store_def)
  have f: "cmLayers demo_commit_env = demo_rw_env" "cmContainerID demo_commit_cfg = ''c''" "cmMountLabel demo_commit_cfg = ''''"
    "cmLayerStores demo_commit_env (cmOS demo_commit_cfg)"
    by (simp_all add: demo_commit_env_def demo_commit_cfg_def)
  have "afterM (commit_body demo_commit_env demo_commit_cfg True ''tar'') (onLayers (closeRw demo_rw_env rw)) ?s1 =
      (Ok (demo_hex CHR ''b''), snd (onLayers (closeRw demo_rw_env rw) ?s4))"
    by (rule afterM_done) (fact b, fact ne)
  then show ?thesis unfolding CommitImage_def using f x by (simp add: bindM_def)
qed


end
