(* ===== verification/Go_Strings.thy ===== *)
theory Go_Strings
  imports Go_Prelude
begin

text \<open>
  More of the Go standard library: splitting and joining strings, and reading and printing
  signed numbers (\<open>strings.Split\<close>, \<open>strings.Join\<close>, \<open>strconv.Atoi\<close>, \<open>fmt.Sprintf\<close>).
\<close>

section \<open>Splitting and joining\<close>

text \<open>\<open>strings.Split\<close> with a one-character separator; the result is never empty.\<close>

fun Split :: "char \<Rightarrow> string \<Rightarrow> string list" where
  "Split c [] = [[]]"
| "Split c (x # xs) =
     (if x = c then [] # Split c xs
      else case Split c xs of [] \<Rightarrow> [[x]] | p # ps \<Rightarrow> (x # p) # ps)"

lemma Split_not_Nil [simp]: "Split c s \<noteq> []"
  by (induction s) (auto split: list.splits)

lemma Split_none [simp]: "c \<notin> set s \<Longrightarrow> Split c s = [s]"
  by (induction s) auto

lemma Split_append [simp]: "c \<notin> set a \<Longrightarrow> Split c (a @ c # b) = a # Split c b"
  by (induction a) auto

fun Join :: "string \<Rightarrow> string list \<Rightarrow> string" where
  "Join sep [] = []"
| "Join sep [x] = x"
| "Join sep (x # y # ys) = x @ sep @ Join sep (y # ys)"

lemma Split_Join: "xs \<noteq> [] \<Longrightarrow> \<forall>x \<in> set xs. c \<notin> set x \<Longrightarrow> Split c (Join [c] xs) = xs"
  by (induction "[c]" xs rule: Join.induct) auto

lemma Join_head: "Join sep ((x # a) # l) = x # Join sep (a # l)"
  by (cases l) simp_all

lemma Join_Split: "Join [c] (Split c s) = s"
proof (induction s)
  case (Cons x xs)
  then show ?case by (cases "Split c xs") (auto simp: Join_head)
qed simp

section \<open>Signed numbers\<close>

definition show_int :: "int \<Rightarrow> string" where
  "show_int i = (if i < 0 then CHR ''-'' # show_nat (nat (- i)) else show_nat (nat i))"

definition max_int64 :: int where
  "max_int64 = 2 ^ 63 - 1"

definition min_int64 :: int where
  "min_int64 = - (2 ^ 63)"

text \<open>
  \<open>strconv.Atoi\<close>, the value without the error: zero for a malformed number and the nearest
  64-bit number for one out of range.
\<close>

definition Atoi_digits :: "bool \<Rightarrow> string \<Rightarrow> int" where
  "Atoi_digits neg s =
     (case parse_nat s of
        None \<Rightarrow> 0
      | Some n \<Rightarrow> if neg then max min_int64 (- int n) else min max_int64 (int n))"

fun Atoi :: "string \<Rightarrow> int" where
  "Atoi [] = 0"
| "Atoi (c # cs) =
     (if c = CHR ''-'' then Atoi_digits True cs else if c = CHR ''+'' then Atoi_digits False cs
      else Atoi_digits False (c # cs))"

end
