(* ===== verification/Go_Paths.thy ===== *)
theory Go_Paths
  imports Go_Strings
begin

text \<open>
  Slash-separated paths (\<open>path.Clean\<close>, \<open>path.Join\<close>, \<open>path.Dir\<close> of the Go library, which on Linux
  are also those of \<open>filepath\<close>), and the list of names an absolute path stands for.
\<close>

section \<open>Cleaning\<close>

text \<open>One element of a path, added to the elements already cleaned.\<close>

definition clean_step :: "bool \<Rightarrow> string list \<Rightarrow> string \<Rightarrow> string list" where
  "clean_step rooted acc c =
     (if c = '''' \<or> c = ''.'' then acc
      else if c = ''..'' then
        (if acc \<noteq> [] \<and> last acc \<noteq> ''..'' then butlast acc else if rooted then acc else acc @ [''..''])
      else acc @ [c])"

definition path_Clean :: "string \<Rightarrow> string" where
  "path_Clean p =
     (let rooted = HasPrefix p ''/''; cs = foldl (clean_step rooted) [] (Split (CHR ''/'') p) in
      if rooted then ''/'' @ Join ''/'' cs else if cs = [] then ''.'' else Join ''/'' cs)"

definition path_Join :: "string list \<Rightarrow> string" where
  "path_Join es =
     (let xs = filter (\<lambda>e. e \<noteq> '''') es in if xs = [] then '''' else path_Clean (Join ''/'' xs))"

definition path_Dir :: "string \<Rightarrow> string" where
  "path_Dir p =
     path_Clean (let d = butlast (Split (CHR ''/'') p) in if d = [] then '''' else Join ''/'' d @ ''/'')"

text \<open>The names on the way to an absolute path.\<close>

definition comps :: "string \<Rightarrow> string list" where
  "comps p = foldl (clean_step True) [] (Split (CHR ''/'') p)"

section \<open>Names\<close>

definition name :: "string \<Rightarrow> bool" where
  "name c \<longleftrightarrow> c \<noteq> '''' \<and> c \<noteq> ''.'' \<and> c \<noteq> ''..'' \<and> CHR ''/'' \<notin> set c"

abbreviation rooted :: "string \<Rightarrow> bool" where
  "rooted p \<equiv> HasPrefix p ''/''"

lemma rooted_Cons [simp]: "rooted (CHR ''/'' # s)"
  by (simp add: HasPrefix_iff)

lemma Split_append2: "Split c (p @ c # q) = Split c p @ Split c q"
  by (induction p) (auto split: list.splits)

lemma Split_elem: "x \<in> set (Split c s) \<Longrightarrow> c \<notin> set x"
proof (induction s arbitrary: x)
  case (Cons a s)
  then show ?case by (cases "Split c s") (auto split: if_splits)
qed simp

lemma clean_step_name [simp]: "name c \<Longrightarrow> clean_step r acc c = acc @ [c]"
  by (simp add: clean_step_def name_def)

lemma foldl_clean_names: "\<forall>c \<in> set cs. name c \<Longrightarrow> foldl (clean_step r) acc cs = acc @ cs"
  by (induction cs arbitrary: acc) auto

lemma clean_step_names:
  "\<forall>x \<in> set acc. name x \<Longrightarrow> CHR ''/'' \<notin> set c \<Longrightarrow> \<forall>x \<in> set (clean_step True acc c). name x"
  unfolding clean_step_def name_def by (auto dest: in_set_butlastD)

lemma foldl_names:
  "\<forall>x \<in> set acc. name x \<Longrightarrow> \<forall>c \<in> set cs. CHR ''/'' \<notin> set c \<Longrightarrow> \<forall>x \<in> set (foldl (clean_step True) acc cs). name x"
proof (induction cs arbitrary: acc)
  case (Cons c cs)
  have s: "CHR ''/'' \<notin> set c" "\<forall>c \<in> set cs. CHR ''/'' \<notin> set c" using Cons.prems(2) by (meson list.set_intros)+
  have "\<forall>x \<in> set (clean_step True acc c). name x" by (rule clean_step_names [OF Cons.prems(1) s(1)])
  from Cons.IH [OF this s(2)] show ?case by (simp only: foldl_Cons)
qed simp

lemma comps_names: "\<forall>x \<in> set (comps p). name x"
  unfolding comps_def by (rule foldl_names) (auto dest: Split_elem)

lemma comps_append: "comps (p @ CHR ''/'' # q) = foldl (clean_step True) (comps p) (Split (CHR ''/'') q)"
  by (simp add: comps_def Split_append2)

lemma comps_absolute:
  assumes "\<forall>c \<in> set cs. name c"
  shows "comps (''/'' @ Join ''/'' cs) = cs"
proof (cases "cs = []")
  case True
  then show ?thesis by (simp add: comps_def clean_step_def)
next
  case False
  have "Split (CHR ''/'') (Join ''/'' cs) = cs"
    using assms False by (intro Split_Join) (auto simp: name_def)
  then show ?thesis using assms by (simp add: comps_def foldl_clean_names) (simp add: clean_step_def foldl_clean_names)
qed

lemma path_Clean_rooted: "rooted p \<Longrightarrow> path_Clean p = ''/'' @ Join ''/'' (comps p)"
  by (simp add: path_Clean_def comps_def)

lemma comps_Clean: "rooted p \<Longrightarrow> comps (path_Clean p) = comps p"
  using comps_absolute [OF comps_names] by (simp add: path_Clean_rooted)

lemma rooted_Clean [simp]: "rooted p \<Longrightarrow> rooted (path_Clean p)"
  by (simp add: path_Clean_rooted)

lemma path_Clean_eq: "rooted p \<Longrightarrow> rooted q \<Longrightarrow> path_Clean p = path_Clean q \<longleftrightarrow> comps p = comps q"
  by (metis comps_Clean path_Clean_rooted)

section \<open>Joining\<close>

lemma rooted_not_Nil: "rooted h \<Longrightarrow> h \<noteq> ''''"
  by (auto simp: HasPrefix_iff)

lemma rooted_append: "rooted h \<Longrightarrow> rooted (h @ x)"
  by (auto simp: HasPrefix_iff)

lemma path_Join2: "rooted h \<Longrightarrow> a \<noteq> '''' \<Longrightarrow> path_Join [h, a] = path_Clean (h @ CHR ''/'' # a)"
  by (simp add: path_Join_def rooted_not_Nil)

lemma path_Join3: "rooted h \<Longrightarrow> a \<noteq> '''' \<Longrightarrow> b \<noteq> '''' \<Longrightarrow> path_Join [h, a, b] = path_Clean (h @ CHR ''/'' # a @ CHR ''/'' # b)"
  by (simp add: path_Join_def rooted_not_Nil)

lemma comps_Join2: "rooted h \<Longrightarrow> a \<noteq> '''' \<Longrightarrow> comps (path_Join [h, a]) = foldl (clean_step True) (comps h) (Split (CHR ''/'') a)"
  by (simp add: path_Join2 comps_Clean comps_append rooted_append)

lemma comps_Join3:
  assumes "rooted h" "a \<noteq> ''''" "b \<noteq> ''''"
  shows "comps (path_Join [h, a, b]) = foldl (clean_step True) (foldl (clean_step True) (comps h) (Split (CHR ''/'') a)) (Split (CHR ''/'') b)"
  using assms by (simp add: path_Join3 comps_Clean comps_append Split_append2 rooted_append)

lemma rooted_Join2 [simp]: "rooted h \<Longrightarrow> a \<noteq> '''' \<Longrightarrow> rooted (path_Join [h, a])"
  by (simp add: path_Join2 rooted_append)

lemma rooted_Join3 [simp]: "rooted h \<Longrightarrow> a \<noteq> '''' \<Longrightarrow> b \<noteq> '''' \<Longrightarrow> rooted (path_Join [h, a, b])"
  by (simp add: path_Join3 rooted_append)

lemma name_simps [simp]: "name a \<Longrightarrow> a \<noteq> ''''" "name a \<Longrightarrow> Split (CHR ''/'') a = [a]"
  by (simp_all add: name_def)

lemma comps_name2 [simp]: "rooted h \<Longrightarrow> name a \<Longrightarrow> comps (path_Join [h, a]) = comps h @ [a]"
  by (simp add: comps_Join2)

lemma comps_name3 [simp]: "rooted h \<Longrightarrow> name a \<Longrightarrow> name b \<Longrightarrow> comps (path_Join [h, a, b]) = comps h @ [a, b]"
  by (simp add: comps_Join3)

text \<open>A path that was joined is clean, so that it is known by its names.\<close>

lemma path_Join2_eq: "rooted h \<Longrightarrow> a \<noteq> '''' \<Longrightarrow> path_Join [h, a] = ''/'' @ Join ''/'' (comps (path_Join [h, a]))"
  by (simp add: path_Join2 path_Clean_rooted rooted_append comps_absolute [OF comps_names, simplified])

lemma path_Join3_eq: "rooted h \<Longrightarrow> a \<noteq> '''' \<Longrightarrow> b \<noteq> '''' \<Longrightarrow> path_Join [h, a, b] = ''/'' @ Join ''/'' (comps (path_Join [h, a, b]))"
  by (simp add: path_Join3 path_Clean_rooted rooted_append comps_absolute [OF comps_names, simplified])

lemma Join_snoc: "cs \<noteq> [] \<Longrightarrow> Join sep (cs @ [x]) = Join sep cs @ sep @ x"
  by (induction sep cs rule: Join.induct) auto

text \<open>The directory of a joined path.\<close>

lemma path_Dir_Join:
  assumes "\<forall>c \<in> set cs. name c" "name x"
  shows "path_Dir (''/'' @ Join ''/'' (cs @ [x])) = ''/'' @ Join ''/'' cs"
proof -
  have "Split (CHR ''/'') (Join ''/'' (cs @ [x])) = cs @ [x]"
    using assms by (intro Split_Join) (auto simp: name_def)
  then have "butlast (Split (CHR ''/'') (''/'' @ Join ''/'' (cs @ [x]))) = '''' # cs" by simp
  then have "path_Dir (''/'' @ Join ''/'' (cs @ [x])) = path_Clean (Join ''/'' ('''' # cs) @ ''/'')"
    by (simp add: path_Dir_def)
  also have "Join ''/'' ('''' # cs) @ ''/'' = (if cs = [] then ''/'' else ''/'' @ Join ''/'' cs @ ''/'')"
    by (cases cs) simp_all
  also have "path_Clean \<dots> = ''/'' @ Join ''/'' cs"
  proof (cases "cs = []")
    case False
    have "comps (''/'' @ Join ''/'' cs @ ''/'') = foldl (clean_step True) (comps (''/'' @ Join ''/'' cs)) (Split (CHR ''/'') '''')"
      using comps_append [of "''/'' @ Join ''/'' cs" "''''"] by simp
    then have "comps (''/'' @ Join ''/'' cs @ ''/'') = cs"
      using comps_absolute [OF assms(1)] by (simp add: clean_step_def)
    then show ?thesis using False by (simp add: path_Clean_rooted)
  qed (simp add: path_Clean_rooted comps_def clean_step_def)
  finally show ?thesis .
qed

end
