(* ===== verification/Id_Tools.thy ===== *)
theory Id_Tools
  imports Go_Strings "HOL-Library.Multiset"
begin

text \<open>
  The mapping of user and group identifiers of a container to those of the host
  (\<open>pkg/idtools/idtools.go\<close>): the ranges of the files \<open>/etc/subuid\<close> and \<open>/etc/subgid\<close>, the maps made
  from them, and the translation in both directions.  A nil slice is \<open>None\<close>.  Sums of Go integers
  wrap at 64 bits.
\<close>

section \<open>Maps\<close>

definition wrap64 :: "int \<Rightarrow> int" where
  "wrap64 x = (x + 2 ^ 63) mod 2 ^ 64 - 2 ^ 63"

lemma wrap64_id: "- (2 ^ 63) \<le> x \<Longrightarrow> x < 2 ^ 63 \<Longrightarrow> wrap64 x = x"
  by (simp add: wrap64_def)

record IDMap =
  ContainerID :: int
  HostID :: int
  mapSize :: int

record subIDRange =
  rangeStart :: int
  rangeLength :: int

record IDPair =
  pairUID :: int
  pairGID :: int

record IDMappings =
  uids :: "IDMap list option"
  gids :: "IDMap list option"

fun toContainer_loop :: "int \<Rightarrow> IDMap list \<Rightarrow> go_error + int" where
  "toContainer_loop hostID [] = Inl (Errorf (''Host ID '' @ show_int hostID @ '' cannot be mapped to a container ID''))"
| "toContainer_loop hostID (m # ms) =
     (if hostID \<ge> HostID m \<and> hostID \<le> wrap64 (wrap64 (HostID m + mapSize m) - 1)
      then Inr (wrap64 (ContainerID m + wrap64 (hostID - HostID m)))
      else toContainer_loop hostID ms)"

definition toContainer :: "int \<Rightarrow> IDMap list option \<Rightarrow> go_error + int" where
  "toContainer hostID idMap = (case idMap of None \<Rightarrow> Inr hostID | Some ms \<Rightarrow> toContainer_loop hostID ms)"

fun toHost_loop :: "int \<Rightarrow> IDMap list \<Rightarrow> go_error + int" where
  "toHost_loop contID [] = Inl (Errorf (''Container ID '' @ show_int contID @ '' cannot be mapped to a host ID''))"
| "toHost_loop contID (m # ms) =
     (if contID \<ge> ContainerID m \<and> contID \<le> wrap64 (wrap64 (ContainerID m + mapSize m) - 1)
      then Inr (wrap64 (HostID m + wrap64 (contID - ContainerID m)))
      else toHost_loop contID ms)"

definition toHost :: "int \<Rightarrow> IDMap list option \<Rightarrow> go_error + int" where
  "toHost contID idMap = (case idMap of None \<Rightarrow> Inr contID | Some ms \<Rightarrow> toHost_loop contID ms)"

text \<open>A failed translation gives \<open>-1\<close> and the error; the pair is what the caller reads.\<close>

definition GetRootUIDGID :: "IDMap list option \<Rightarrow> IDMap list option \<Rightarrow> (int \<times> int) \<times> go_error option" where
  "GetRootUIDGID uidMap gidMap =
     (case toHost 0 uidMap of
        Inl e \<Rightarrow> ((- 1, - 1), Some e)
      | Inr uid \<Rightarrow>
          (case toHost 0 gidMap of
             Inl e \<Rightarrow> ((- 1, - 1), Some e)
           | Inr gid \<Rightarrow> ((uid, gid), None)))"

definition RootPair :: "IDMappings \<Rightarrow> IDPair" where
  "RootPair i = (case fst (GetRootUIDGID (uids i) (gids i)) of (u, g) \<Rightarrow> \<lparr>pairUID = u, pairGID = g\<rparr>)"

definition ids_ToHost :: "IDMappings \<Rightarrow> IDPair \<Rightarrow> go_error + IDPair" where
  "ids_ToHost i pair =
     (let target = RootPair i in
      case (if pairUID pair \<noteq> pairUID target then toHost (pairUID pair) (uids i) else Inr (pairUID target)) of
        Inl e \<Rightarrow> Inl e
      | Inr u \<Rightarrow>
          (case (if pairGID pair \<noteq> pairGID target then toHost (pairGID pair) (gids i) else Inr (pairGID target)) of
             Inl e \<Rightarrow> Inl e
           | Inr g \<Rightarrow> Inr \<lparr>pairUID = u, pairGID = g\<rparr>))"

definition ids_ToContainer :: "IDMappings \<Rightarrow> IDPair \<Rightarrow> go_error + (int \<times> int)" where
  "ids_ToContainer i pair =
     (case toContainer (pairUID pair) (uids i) of
        Inl e \<Rightarrow> Inl e
      | Inr u \<Rightarrow> (case toContainer (pairGID pair) (gids i) of Inl e \<Rightarrow> Inl e | Inr g \<Rightarrow> Inr (u, g)))"

definition ids_Empty :: "IDMappings \<Rightarrow> bool" where
  "ids_Empty i \<longleftrightarrow> (case uids i of None \<Rightarrow> True | Some ms \<Rightarrow> ms = []) \<and> (case gids i of None \<Rightarrow> True | Some ms \<Rightarrow> ms = [])"

fun createIDMap_loop :: "int \<Rightarrow> subIDRange list \<Rightarrow> IDMap list" where
  "createIDMap_loop containerID [] = []"
| "createIDMap_loop containerID (r # rs) =
     \<lparr>ContainerID = containerID, HostID = rangeStart r, mapSize = rangeLength r\<rparr>
     # createIDMap_loop (wrap64 (containerID + rangeLength r)) rs"

definition createIDMap :: "subIDRange list \<Rightarrow> IDMap list" where
  "createIDMap subidRanges = createIDMap_loop 0 (sort_key rangeStart subidRanges)"

section \<open>The files\<close>

text \<open>\<open>strconv.Atoi\<close> with its error: a sign, digits, and the range of the type.\<close>

definition Atoi_sign :: "bool \<Rightarrow> string \<Rightarrow> go_error + int" where
  "Atoi_sign neg ds =
     (case parse_nat ds of
        None \<Rightarrow> Inl (Errorf ''strconv.Atoi: invalid syntax'')
      | Some n \<Rightarrow>
          let v = (if neg then - int n else int n) in
          if v < min_int64 \<or> v > max_int64 then Inl (Errorf ''strconv.Atoi: value out of range'') else Inr v)"

definition AtoiE :: "string \<Rightarrow> go_error + int" where
  "AtoiE s =
     (case s of
        c # cs \<Rightarrow> if c = CHR ''-'' then Atoi_sign True cs else if c = CHR ''+'' then Atoi_sign False cs else Atoi_sign False s
      | [] \<Rightarrow> Inl (Errorf ''strconv.Atoi: invalid syntax''))"

text \<open>
  The lines the scanner delivers; the error that ends a scan early is asked for only inside the
  loop, where there is none, so it is never seen.
\<close>

record subidFile =
  scanLines :: "string list"
  scanErr :: "go_error option"

fun parseSubid_loop :: "string \<Rightarrow> string \<Rightarrow> string list \<Rightarrow> subIDRange list \<Rightarrow> go_error + subIDRange list" where
  "parseSubid_loop path username [] rangeList = Inr rangeList"
| "parseSubid_loop path username (l # ls) rangeList =
     (let text1 = TrimSpace l in
      if text1 = '''' \<or> HasPrefix text1 ''#'' then parseSubid_loop path username ls rangeList
      else case Split (CHR '':'') text1 of
        [p0, p1, p2] \<Rightarrow>
          if p0 = username \<or> username = ''ALL'' then
            (case AtoiE p1 of
               Inl e \<Rightarrow> Inl (Errorf (''String to int conversion failed during subuid/gid parsing of '' @ path))
             | Inr startid \<Rightarrow>
                 (case AtoiE p2 of
                    Inl e \<Rightarrow> Inl (Errorf (''String to int conversion failed during subuid/gid parsing of '' @ path))
                  | Inr len \<Rightarrow>
                      parseSubid_loop path username ls (rangeList @ [\<lparr>rangeStart = startid, rangeLength = len\<rparr>])))
          else parseSubid_loop path username ls rangeList
      | _ \<Rightarrow> Inl (Errorf (''Cannot parse subuid/gid information: Format not correct for '' @ path @ '' file'')))"

definition parseSubidFile :: "(string \<Rightarrow> go_error + subidFile) \<Rightarrow> string \<Rightarrow> string \<Rightarrow> go_error + subIDRange list" where
  "parseSubidFile open1 path username =
     (case open1 path of
        Inl e \<Rightarrow> Inl e
      | Inr f \<Rightarrow> parseSubid_loop path username (scanLines f) [])"

definition parseSubuid :: "(string \<Rightarrow> go_error + subidFile) \<Rightarrow> string \<Rightarrow> go_error + subIDRange list" where
  "parseSubuid open1 username = parseSubidFile open1 ''/etc/subuid'' username"

definition parseSubgid :: "(string \<Rightarrow> go_error + subidFile) \<Rightarrow> string \<Rightarrow> go_error + subIDRange list" where
  "parseSubgid open1 username = parseSubidFile open1 ''/etc/subgid'' username"

definition NewIDMappings :: "(string \<Rightarrow> go_error + subidFile) \<Rightarrow> string \<Rightarrow> string \<Rightarrow> go_error + IDMappings" where
  "NewIDMappings open1 username groupname =
     (case parseSubuid open1 username of
        Inl e \<Rightarrow> Inl e
      | Inr us \<Rightarrow>
          (case parseSubgid open1 groupname of
             Inl e \<Rightarrow> Inl e
           | Inr gs \<Rightarrow>
               if us = [] then Inl (Errorf (''No subuid ranges found for user '' @ username))
               else if gs = [] then Inl (Errorf (''No subgid ranges found for group '' @ groupname))
               else Inr \<lparr>uids = Some (createIDMap us), gids = Some (createIDMap gs)\<rparr>))"

section \<open>Translation is a bijection\<close>

text \<open>Ranges in order, which do not overlap and stay within the integers.\<close>

fun separate :: "int \<Rightarrow> subIDRange list \<Rightarrow> bool" where
  "separate from1 [] \<longleftrightarrow> True"
| "separate from1 (r # rs) \<longleftrightarrow>
     from1 \<le> rangeStart r \<and> 0 < rangeLength r \<and> rangeStart r + rangeLength r < 2 ^ 63 \<and>
     separate (rangeStart r + rangeLength r) rs"

definition range_total :: "subIDRange list \<Rightarrow> int" where
  "range_total rs = sum_list (map rangeLength rs)"

lemma range_total_simps [simp]: "range_total [] = 0" "range_total (r # rs) = rangeLength r + range_total rs"
  by (simp_all add: range_total_def)

lemma separate_total: "separate h rs \<Longrightarrow> 0 \<le> range_total rs"
  by (induction h rs rule: separate.induct) auto

lemma map_loop_roundtrip:
  assumes "separate h rs" "0 \<le> h" "0 \<le> c" "c + range_total rs < 2 ^ 63" "c \<le> x" "x < c + range_total rs"
  shows "\<exists>y. toHost_loop x (createIDMap_loop c rs) = Inr y \<and> h \<le> y \<and> toContainer_loop y (createIDMap_loop c rs) = Inr x"
  using assms
proof (induction h rs arbitrary: c rule: separate.induct)
  case (2 h r rs)
  let ?s = "rangeStart r" and ?n = "rangeLength r"
  have r: "h \<le> ?s" "0 < ?n" "?s + ?n < 2 ^ 63" "separate (?s + ?n) rs" using 2(2) by auto
  have t: "0 \<le> range_total rs" using separate_total [OF r(4)] by simp
  have w: "wrap64 (?s + ?n) = ?s + ?n" "wrap64 (?s + ?n - 1) = ?s + ?n - 1" "wrap64 (c + ?n) = c + ?n"
    "wrap64 (c + ?n - 1) = c + ?n - 1"
    using r 2(3-5) t by (auto intro!: wrap64_id)
  show ?case
  proof (cases "x < c + ?n")
    case True
    then have "wrap64 (x - c) = x - c" "wrap64 (?s + (x - c)) = ?s + (x - c)" "wrap64 (?s + (x - c) - ?s) = x - c"
      "wrap64 (c + (x - c)) = x"
      using r 2(3-7) t by (auto intro!: wrap64_id)
    then show ?thesis using True 2(6) r(1) by (simp add: w)
  next
    case False
    have b: "0 \<le> ?s + ?n" "0 \<le> c + ?n" "c + ?n + range_total rs < 2 ^ 63" "c + ?n \<le> x" "x < c + ?n + range_total rs"
      using False r 2(3-7) t by auto
    obtain y where y: "toHost_loop x (createIDMap_loop (c + ?n) rs) = Inr y" "?s + ?n \<le> y"
      "toContainer_loop y (createIDMap_loop (c + ?n) rs) = Inr x"
      using 2(1) [OF r(4) b] by blast
    then show ?thesis using False r by (intro exI [of _ y]) (simp add: w)
  qed
qed simp

lemma map_loop_outside:
  assumes "separate h rs" "0 \<le> h" "0 \<le> c" "c + range_total rs < 2 ^ 63" "x < c \<or> c + range_total rs \<le> x"
  shows "\<exists>e. toHost_loop x (createIDMap_loop c rs) = Inl e"
  using assms
proof (induction h rs arbitrary: c rule: separate.induct)
  case (2 h r rs)
  let ?s = "rangeStart r" and ?n = "rangeLength r"
  have r: "h \<le> ?s" "0 < ?n" "?s + ?n < 2 ^ 63" "separate (?s + ?n) rs" using 2(2) by auto
  have t: "0 \<le> range_total rs" using separate_total [OF r(4)] by simp
  have w: "wrap64 (c + ?n) = c + ?n" "wrap64 (c + ?n - 1) = c + ?n - 1"
    using r 2(3-5) t by (auto intro!: wrap64_id)
  have b: "0 \<le> ?s + ?n" "0 \<le> c + ?n" "c + ?n + range_total rs < 2 ^ 63" "x < c + ?n \<or> c + ?n + range_total rs \<le> x"
    using r 2(3-6) t by auto
  show ?case using 2(1) [OF r(4) b] r t 2(6) by (auto simp: w)
qed simp

lemma total_sort: "range_total (sort_key f rs) = range_total rs"
  by (simp add: range_total_def) (metis mset_map mset_sort sum_mset_sum_list)



text \<open>A scan that ends with an error is taken for the end of the file.\<close>

lemma scan_error_ignored: "parseSubidFile (\<lambda>p. Inr \<lparr>scanLines = ls, scanErr = Some e\<rparr>) path u =
    parseSubidFile (\<lambda>p. Inr \<lparr>scanLines = ls, scanErr = None\<rparr>) path u"
  by (simp add: parseSubidFile_def)

end
