(* ===== verification/Overlay_Options.thy ===== *)
theory Overlay_Options
  imports Go_Prelude
begin

text \<open>
  The mount options of the overlay file system module (\<open>overlayfs/super.c\<close>), with the option
  \<open>simp\<close> that makes every access copy a file into the upper layer.  Strings are C strings
  without the terminating zero.  \<open>nomem\<close> tells for which strings \<open>kstrdup\<close> and \<open>match_strdup\<close>
  find no memory.
\<close>

section \<open>Error numbers\<close>

definition EPERM :: int where "EPERM = 1"
definition ENOENT :: int where "ENOENT = 2"
definition EINTR :: int where "EINTR = 4"
definition EIO :: int where "EIO = 5"
definition ENOMEM :: int where "ENOMEM = 12"
definition EINVAL :: int where "EINVAL = 22"
definition EROFS :: int where "EROFS = 30"
definition ERANGE :: int where "ERANGE = 34"
definition ENODATA :: int where "ENODATA = 61"
definition EOPNOTSUPP :: int where "EOPNOTSUPP = 95"
definition ECHILD :: int where "ECHILD = 10"

lemmas errno_defs = EPERM_def ENOENT_def EINTR_def EIO_def ENOMEM_def EINVAL_def EROFS_def ERANGE_def
  ENODATA_def EOPNOTSUPP_def ECHILD_def

section \<open>Configuration\<close>

datatype xino = OVL_XINO_OFF | OVL_XINO_AUTO | OVL_XINO_ON

record ovl_config =
  lowerdir :: "string option"
  upperdir :: "string option"
  cfgWorkdir :: "string option"
  default_permissions :: bool
  redirect_dir :: bool
  redirect_follow :: bool
  redirect_mode :: string
  cfgIndex :: bool
  nfs_export :: bool
  cfgXino :: xino
  simp_on :: bool

text \<open>The module parameters that give the defaults.\<close>

record ovl_params =
  ovl_redirect_dir_def :: bool
  ovl_redirect_always_follow :: bool
  ovl_index_def :: bool
  ovl_nfs_export_def :: bool
  ovl_xino_auto_def :: bool

definition ovl_redirect_mode_def :: "ovl_params \<Rightarrow> string" where
  "ovl_redirect_mode_def P = (if ovl_redirect_dir_def P then ''on'' else ''off'')"

fun ovl_xino_str :: "xino \<Rightarrow> string" where
  "ovl_xino_str OVL_XINO_OFF = ''off''"
| "ovl_xino_str OVL_XINO_AUTO = ''auto''"
| "ovl_xino_str OVL_XINO_ON = ''on''"

definition ovl_xino_def :: "ovl_params \<Rightarrow> xino" where
  "ovl_xino_def P = (if ovl_xino_auto_def P then OVL_XINO_AUTO else OVL_XINO_OFF)"

text \<open>The configuration \<open>ovl_fill_super\<close> starts from.\<close>

definition default_config :: "ovl_params \<Rightarrow> ovl_config" where
  "default_config P =
     \<lparr>lowerdir = None, upperdir = None, cfgWorkdir = None, default_permissions = False, redirect_dir = False,
      redirect_follow = False, redirect_mode = '''', cfgIndex = ovl_index_def P, nfs_export = ovl_nfs_export_def P,
      cfgXino = ovl_xino_def P, simp_on = False\<rparr>"

section \<open>Tokens\<close>

datatype ovl_token =
    OPT_LOWERDIR | OPT_UPPERDIR | OPT_WORKDIR | OPT_DEFAULT_PERMISSIONS | OPT_REDIRECT_DIR
  | OPT_INDEX_ON | OPT_INDEX_OFF | OPT_NFS_EXPORT_ON | OPT_NFS_EXPORT_OFF
  | OPT_XINO_ON | OPT_XINO_OFF | OPT_XINO_AUTO | OPT_SIMP_ON | OPT_SIMP_OFF | OPT_ERR

text \<open>
  A pattern is a literal, followed by \<open>%s\<close> when the flag is set.  \<open>match_token\<close> of the kernel
  library takes the first pattern that matches; \<open>%s\<close> matches any non-empty rest.
\<close>

definition ovl_tokens :: "(ovl_token \<times> string \<times> bool) list" where
  "ovl_tokens =
     [(OPT_LOWERDIR, ''lowerdir='', True), (OPT_UPPERDIR, ''upperdir='', True), (OPT_WORKDIR, ''workdir='', True),
      (OPT_DEFAULT_PERMISSIONS, ''default_permissions'', False), (OPT_REDIRECT_DIR, ''redirect_dir='', True),
      (OPT_INDEX_ON, ''index=on'', False), (OPT_INDEX_OFF, ''index=off'', False),
      (OPT_NFS_EXPORT_ON, ''nfs_export=on'', False), (OPT_NFS_EXPORT_OFF, ''nfs_export=off'', False),
      (OPT_XINO_ON, ''xino=on'', False), (OPT_XINO_OFF, ''xino=off'', False), (OPT_XINO_AUTO, ''xino=auto'', False),
      (OPT_SIMP_ON, ''simp=on'', False), (OPT_SIMP_OFF, ''simp=off'', False)]"

fun match_token :: "string \<Rightarrow> (ovl_token \<times> string \<times> bool) list \<Rightarrow> ovl_token \<times> string" where
  "match_token p [] = (OPT_ERR, '''')"
| "match_token p ((t, lit, arg) # ts) =
     (if arg then if HasPrefix p lit \<and> drop (length lit) p \<noteq> '''' then (t, drop (length lit) p) else match_token p ts
      else if p = lit then (t, '''') else match_token p ts)"

section \<open>Parsing\<close>

text \<open>
  \<open>ovl_next_opt\<close> cuts the string at the first comma that is not escaped; the option keeps its
  backslashes.
\<close>

fun ovl_next_opt :: "string \<Rightarrow> string \<times> string option" where
  "ovl_next_opt [] = ([], None)"
| "ovl_next_opt (c # cs) =
     (if c = CHR 0x5C then
        (case cs of
           [] \<Rightarrow> ([c], None)
         | d # ds \<Rightarrow> apfst (\<lambda>s. c # d # s) (ovl_next_opt ds))
      else if c = CHR '','' then ([], Some cs)
      else apfst (Cons c) (ovl_next_opt cs))"

definition ovl_parse_redirect_mode :: "ovl_params \<Rightarrow> ovl_config \<Rightarrow> string \<Rightarrow> go_error option \<times> ovl_config" where
  "ovl_parse_redirect_mode P c mode =
     (if mode = ''on'' then (None, c\<lparr>redirect_dir := True, redirect_follow := True\<rparr>)
      else if mode = ''follow'' then (None, c\<lparr>redirect_follow := True\<rparr>)
      else if mode = ''off'' then
        (None, if ovl_redirect_always_follow P then c\<lparr>redirect_follow := True\<rparr> else c)
      else if mode \<noteq> ''nofollow'' then (Some (Errno (- EINVAL)), c)
      else (None, c))"

text \<open>One option: the body of the loop.  An allocation that fails leaves the field empty.\<close>

definition strdup_field ::
  "(string \<Rightarrow> bool) \<Rightarrow> string \<Rightarrow> (string option \<Rightarrow> ovl_config \<Rightarrow> ovl_config) \<Rightarrow> ovl_config stmt" where
  "strdup_field nomem s f c =
     (if nomem s then (Some (Errno (- ENOMEM)), f None c) else (None, f (Some s) c))"

definition ovl_apply_opt :: "(string \<Rightarrow> bool) \<Rightarrow> string \<Rightarrow> ovl_config stmt" where
  "ovl_apply_opt nomem p c =
     (case match_token p ovl_tokens of
        (OPT_UPPERDIR, a) \<Rightarrow> strdup_field nomem a (\<lambda>v c. c\<lparr>upperdir := v\<rparr>) c
      | (OPT_LOWERDIR, a) \<Rightarrow> strdup_field nomem a (\<lambda>v c. c\<lparr>lowerdir := v\<rparr>) c
      | (OPT_WORKDIR, a) \<Rightarrow> strdup_field nomem a (\<lambda>v c. c\<lparr>cfgWorkdir := v\<rparr>) c
      | (OPT_DEFAULT_PERMISSIONS, a) \<Rightarrow> (None, c\<lparr>default_permissions := True\<rparr>)
      | (OPT_REDIRECT_DIR, a) \<Rightarrow>
          if nomem a then (Some (Errno (- ENOMEM)), c) else (None, c\<lparr>redirect_mode := a\<rparr>)
      | (OPT_INDEX_ON, a) \<Rightarrow> (None, c\<lparr>cfgIndex := True\<rparr>)
      | (OPT_INDEX_OFF, a) \<Rightarrow> (None, c\<lparr>cfgIndex := False\<rparr>)
      | (OPT_NFS_EXPORT_ON, a) \<Rightarrow> (None, c\<lparr>nfs_export := True\<rparr>)
      | (OPT_NFS_EXPORT_OFF, a) \<Rightarrow> (None, c\<lparr>nfs_export := False\<rparr>)
      | (OPT_XINO_ON, a) \<Rightarrow> (None, c\<lparr>cfgXino := OVL_XINO_ON\<rparr>)
      | (OPT_XINO_OFF, a) \<Rightarrow> (None, c\<lparr>cfgXino := OVL_XINO_OFF\<rparr>)
      | (OPT_XINO_AUTO, a) \<Rightarrow> (None, c\<lparr>cfgXino := OVL_XINO_AUTO\<rparr>)
      | (OPT_SIMP_ON, a) \<Rightarrow> (None, c\<lparr>simp_on := True\<rparr>)
      | (OPT_SIMP_OFF, a) \<Rightarrow> (None, c\<lparr>simp_on := False\<rparr>)
      | (OPT_ERR, a) \<Rightarrow> (Some (Errno (- EINVAL)), c))"

lemma ovl_next_opt_shorter: "snd (ovl_next_opt s) = Some r \<Longrightarrow> length r < length s"
  by (induction s rule: ovl_next_opt.induct) (auto simp: less_SucI split: if_splits list.splits)

function ovl_parse_loop :: "(string \<Rightarrow> bool) \<Rightarrow> string option \<Rightarrow> ovl_config stmt" where
  "ovl_parse_loop nomem None c = (None, c)"
| "ovl_parse_loop nomem (Some s) c =
     (case ovl_next_opt s of
        (p, rest) \<Rightarrow>
          if p = '''' then ovl_parse_loop nomem rest c
          else case ovl_apply_opt nomem p c of
            (Some e, c') \<Rightarrow> (Some e, c')
          | (None, c') \<Rightarrow> ovl_parse_loop nomem rest c')"
  by pat_completeness auto
termination
  by (relation "measure (\<lambda>(n, o1, c). case o1 of None \<Rightarrow> 0 | Some s \<Rightarrow> Suc (length s))")
    (auto split: option.splits intro!: ovl_next_opt_shorter, (metis snd_conv)+)

declare ovl_parse_loop.simps [simp del]

definition ovl_parse_opt :: "ovl_params \<Rightarrow> (string \<Rightarrow> bool) \<Rightarrow> string option \<Rightarrow> ovl_config stmt" where
  "ovl_parse_opt P nomem opt c =
     (if nomem (ovl_redirect_mode_def P) then (Some (Errno (- ENOMEM)), c)
      else case ovl_parse_loop nomem opt (c\<lparr>redirect_mode := ovl_redirect_mode_def P\<rparr>) of
        (Some e, c1) \<Rightarrow> (Some e, c1)
      | (None, c1) \<Rightarrow>
          let c2 = (if upperdir c1 = None then c1\<lparr>cfgWorkdir := None\<rparr> else c1)
          in ovl_parse_redirect_mode P c2 (redirect_mode c2))"

section \<open>Printing\<close>

text \<open>\<open>seq_show_option\<close> escapes its value in a way that the parameter \<open>esc\<close> stands for.\<close>

definition seq_show_option :: "(string \<Rightarrow> string) \<Rightarrow> string \<Rightarrow> string option \<Rightarrow> string" where
  "seq_show_option esc name v = '','' @ name @ (case v of None \<Rightarrow> '''' | Some s \<Rightarrow> ''='' @ esc s)"

definition on_off :: "bool \<Rightarrow> string" where
  "on_off b = (if b then ''on'' else ''off'')"

definition ovl_show_options :: "ovl_params \<Rightarrow> (string \<Rightarrow> string) \<Rightarrow> ovl_config \<Rightarrow> string" where
  "ovl_show_options P esc c =
     seq_show_option esc ''lowerdir'' (lowerdir c) @
     (if upperdir c \<noteq> None
      then seq_show_option esc ''upperdir'' (upperdir c) @ seq_show_option esc ''workdir'' (cfgWorkdir c) else '''') @
     (if default_permissions c then '',default_permissions'' else '''') @
     (if redirect_mode c \<noteq> ovl_redirect_mode_def P then '',redirect_dir='' @ redirect_mode c else '''') @
     (if cfgIndex c \<noteq> ovl_index_def P then '',index='' @ on_off (cfgIndex c) else '''') @
     (if nfs_export c \<noteq> ovl_nfs_export_def P then '',nfs_export='' @ on_off (nfs_export c) else '''') @
     (if cfgXino c \<noteq> ovl_xino_def P then '',xino='' @ ovl_xino_str (cfgXino c) else '''')"

section \<open>Lower directories\<close>

text \<open>\<open>ovl_unescape\<close> drops the backslash before a character; a last single backslash is dropped too.\<close>

fun ovl_unescape :: "string \<Rightarrow> string" where
  "ovl_unescape [] = []"
| "ovl_unescape (c # cs) =
     (if c = CHR 0x5C then (case cs of [] \<Rightarrow> [] | d # ds \<Rightarrow> d # ovl_unescape ds)
      else c # ovl_unescape cs)"

text \<open>
  \<open>ovl_split_lowerdirs\<close> unescapes in place and cuts at the colons that are not escaped; the
  result is the list of the zero-terminated pieces, whose number is the counter it returns.
\<close>

fun cons_hd :: "char \<Rightarrow> string list \<Rightarrow> string list" where
  "cons_hd c [] = [[c]]"
| "cons_hd c (x # xs) = (c # x) # xs"

fun ovl_split_lowerdirs :: "string \<Rightarrow> string list" where
  "ovl_split_lowerdirs [] = [[]]"
| "ovl_split_lowerdirs (c # cs) =
     (if c = CHR 0x5C then (case cs of [] \<Rightarrow> [[]] | d # ds \<Rightarrow> cons_hd d (ovl_split_lowerdirs ds))
      else if c = CHR '':'' then [] # ovl_split_lowerdirs cs
      else cons_hd c (ovl_split_lowerdirs cs))"

definition OVL_MAX_STACK :: nat where
  "OVL_MAX_STACK = 500"

section \<open>Appending an option\<close>

text \<open>A string that does not end inside an escape: a comma after it is a separator.\<close>

fun escape_closed :: "string \<Rightarrow> bool" where
  "escape_closed [] = True"
| "escape_closed (c # cs) =
     (if c = CHR 0x5C then (case cs of [] \<Rightarrow> False | d # ds \<Rightarrow> escape_closed ds) else escape_closed cs)"

lemma ovl_next_opt_append:
  "escape_closed s \<Longrightarrow> ovl_next_opt (s @ CHR '','' # t) =
     (fst (ovl_next_opt s), Some (case snd (ovl_next_opt s) of None \<Rightarrow> t | Some r \<Rightarrow> r @ CHR '','' # t))"
  by (induction s rule: escape_closed.induct) (auto split: if_splits list.splits option.splits)

lemma escape_closed_rest: "escape_closed s \<Longrightarrow> snd (ovl_next_opt s) = Some r \<Longrightarrow> escape_closed r"
  by (induction s rule: escape_closed.induct) (auto split: if_splits list.splits)

text \<open>The loop runs over an appended option after the options before it.\<close>

lemma ovl_parse_loop_append:
  assumes "escape_closed s"
  shows "ovl_parse_loop nomem (Some (s @ CHR '','' # t)) c =
    (case ovl_parse_loop nomem (Some s) c of
       (Some e, c') \<Rightarrow> (Some e, c')
     | (None, c') \<Rightarrow> ovl_parse_loop nomem (Some t) c')"
  using assms
proof (induction "length s" arbitrary: s c rule: less_induct)
  case less
  obtain p o1 where n: "ovl_next_opt s = (p, o1)" by fastforce
  have n': "ovl_next_opt (s @ CHR '','' # t) = (p, Some (case o1 of None \<Rightarrow> t | Some r \<Rightarrow> r @ CHR '','' # t))"
    using ovl_next_opt_append [OF less.prems] n by simp
  show ?case
  proof (cases o1)
    case None
    then show ?thesis using n n' by (simp add: ovl_parse_loop.simps split: option.splits prod.splits del: ovl_next_opt.simps)
  next
    case (Some r)
    have "length r < length s" using ovl_next_opt_shorter n Some by (metis snd_conv)
    moreover have "escape_closed r" using escape_closed_rest [OF less.prems] n Some by simp
    ultimately have "ovl_parse_loop nomem (Some (r @ CHR '','' # t)) d =
        (case ovl_parse_loop nomem (Some r) d of (Some e, c') \<Rightarrow> (Some e, c') | (None, c') \<Rightarrow> ovl_parse_loop nomem (Some t) c')"
      for d using less.hyps by blast
    then show ?thesis using n n' Some
      by (simp add: ovl_parse_loop.simps split: option.splits prod.splits del: ovl_next_opt.simps)
  qed
qed

text \<open>The switch of the copy-on-access mode is independent of the rest of the final checks.\<close>

lemma ovl_parse_redirect_simp:
  "ovl_parse_redirect_mode P c m = (e, c') \<Longrightarrow>
     ovl_parse_redirect_mode P (c\<lparr>simp_on := b\<rparr>) m = (e, c'\<lparr>simp_on := b\<rparr>)"
  by (auto simp: ovl_parse_redirect_mode_def split: if_splits)

lemma simp_option_loop:
  "ovl_parse_loop nomem (Some ''simp=on'') c = (None, c\<lparr>simp_on := True\<rparr>)"
  "ovl_parse_loop nomem (Some ''simp=off'') c = (None, c\<lparr>simp_on := False\<rparr>)"
  by (simp_all add: ovl_parse_loop.simps ovl_apply_opt_def ovl_tokens_def)

text \<open>
  C18: Appending \<open>,simp=on\<close> to mount options that the module accepts turns the copy-on-access mode
  on, whatever the options before said about it, and changes nothing else; the options must
  not end in an unfinished escape.
\<close>

theorem simp_on_appended:
  assumes "ovl_parse_opt P nomem (Some opts) c = (None, cfg)" and "escape_closed opts"
  shows "ovl_parse_opt P nomem (Some (opts @ '',simp=on'')) c = (None, cfg\<lparr>simp_on := True\<rparr>)"
proof -
  let ?c = "c\<lparr>redirect_mode := ovl_redirect_mode_def P\<rparr>"
  have mem: "\<not> nomem (ovl_redirect_mode_def P)" using assms(1) by (simp add: ovl_parse_opt_def split: if_splits)
  obtain e c1 where l: "ovl_parse_loop nomem (Some opts) ?c = (e, c1)" by fastforce
  with assms(1) mem have e: "e = None" by (simp add: ovl_parse_opt_def split: option.splits)
  define c2 where "c2 = (if upperdir c1 = None then c1\<lparr>cfgWorkdir := None\<rparr> else c1)"
  have r: "ovl_parse_redirect_mode P c2 (redirect_mode c2) = (None, cfg)"
    using assms(1) mem unfolding ovl_parse_opt_def l e c2_def Let_def by simp
  have "ovl_parse_loop nomem (Some (opts @ '',simp=on'')) ?c = (None, c1\<lparr>simp_on := True\<rparr>)"
    unfolding ovl_parse_loop_append [OF assms(2)] l e by (simp add: simp_option_loop)
  moreover have swap: "d\<lparr>simp_on := True, cfgWorkdir := None\<rparr> = d\<lparr>cfgWorkdir := None, simp_on := True\<rparr>" for d :: ovl_config
    by simp
  ultimately have "ovl_parse_opt P nomem (Some (opts @ '',simp=on'')) c =
      ovl_parse_redirect_mode P (c2\<lparr>simp_on := True\<rparr>) (redirect_mode c2)"
    using mem by (simp add: ovl_parse_opt_def c2_def Let_def swap)
  then show ?thesis using ovl_parse_redirect_simp [OF r] by simp
qed

definition plain_params :: ovl_params where
  "plain_params = \<lparr>ovl_redirect_dir_def = False, ovl_redirect_always_follow = True, ovl_index_def = False,
     ovl_nfs_export_def = False, ovl_xino_auto_def = False\<rparr>"

theorem simp_on_appended_witness:
  "ovl_parse_opt plain_params (\<lambda>_. False) (Some ''lowerdir=/l,upperdir=/u,workdir=/w,simp=on'') (default_config plain_params) =
     (None, (snd (ovl_parse_opt plain_params (\<lambda>_. False) (Some ''lowerdir=/l,upperdir=/u,workdir=/w'') (default_config plain_params)))
        \<lparr>simp_on := True\<rparr>)"
proof -
  have "fst (ovl_parse_opt plain_params (\<lambda>_. False) (Some ''lowerdir=/l,upperdir=/u,workdir=/w'') (default_config plain_params)) = None"
    by (simp add: ovl_parse_opt_def plain_params_def default_config_def ovl_redirect_mode_def_def ovl_parse_loop.simps
        ovl_apply_opt_def ovl_tokens_def strdup_field_def ovl_parse_redirect_mode_def Let_def)
  then have e: "ovl_parse_opt plain_params (\<lambda>_. False) (Some ''lowerdir=/l,upperdir=/u,workdir=/w'') (default_config plain_params) =
     (None, snd (ovl_parse_opt plain_params (\<lambda>_. False) (Some ''lowerdir=/l,upperdir=/u,workdir=/w'') (default_config plain_params)))"
    by (metis prod.collapse)
  have "escape_closed ''lowerdir=/l,upperdir=/u,workdir=/w''" by simp
  from simp_on_appended [OF e this] show ?thesis by simp
qed

text \<open>
  The option list shown for a mount does not tell whether copy-on-access is on, so a mount
  cannot be reproduced from it: two configurations that differ only there print alike.
\<close>

lemma show_options_omits_simp:
  "ovl_show_options P esc (c\<lparr>simp_on := True\<rparr>) = ovl_show_options P esc (c\<lparr>simp_on := False\<rparr>)"
  by (simp add: ovl_show_options_def)

fun escape_colons :: "string \<Rightarrow> string" where
  "escape_colons [] = []"
| "escape_colons (c # cs) = (if c = CHR '':'' then CHR 0x5C # c # escape_colons cs else c # escape_colons cs)"

fun join_colon :: "string list \<Rightarrow> string" where
  "join_colon [] = []"
| "join_colon [x] = x"
| "join_colon (x # xs) = x @ CHR '':'' # join_colon xs"

lemma split_escaped_last: "CHR 0x5C \<notin> set d \<Longrightarrow> ovl_split_lowerdirs (escape_colons d) = [d]"
  by (induction d) auto

lemma split_escaped_cons:
  "CHR 0x5C \<notin> set d \<Longrightarrow> ovl_split_lowerdirs (escape_colons d @ CHR '':'' # t) = d # ovl_split_lowerdirs t"
  by (induction d) auto



end
