(* ===== verification/Overlay2_Driver.thy ===== *)
theory Overlay2_Driver
  imports Go_Paths Id_Tools Overlay_Options "HOL-Library.Sublist"
begin

text \<open>
  The storage driver \<open>overlay2\<close> (\<open>daemon/graphdriver/overlay2\<close>, with the reference counter of
  \<open>daemon/graphdriver\<close> and the helpers of \<open>pkg/idtools\<close> and \<open>pkg/system\<close> it calls).  A layer is a
  directory below the home of the driver; files name the layers below it, and \<open>Get\<close> turns them into
  the options of an overlay mount.  The state holds the files, the table of mounts and the
  reference counts.  Every call of the operating system takes one tick of a clock, and \<open>faults\<close>
  tells which of them fail, so that every error path can be taken.
\<close>

section \<open>The operating system\<close>

definition EEXIST :: int where "EEXIST = 17"
definition EBUSY :: int where "EBUSY = 16"
definition ENOTDIR :: int where "ENOTDIR = 20"
definition EISDIR :: int where "EISDIR = 21"

lemmas os_errno_defs = EEXIST_def EBUSY_def ENOTDIR_def EISDIR_def ENOENT_def EINVAL_def

datatype node = Directory | Regular string | Symlink string

record minfo =
  miCheck :: bool
  miCount :: int

text \<open>A mount has its target, the directory relative options are read from, and the options.\<close>

record osState =
  files :: "string list \<rightharpoonup> node"
  mountTable :: "(string list \<times> string \<times> string) list"
  counts :: "string \<rightharpoonup> minfo"
  clock :: nat

record sysEnv =
  faults :: "nat \<Rightarrow> go_error option"
  randomID :: "nat \<Rightarrow> string"
  pageSize :: nat
  RAMInBytes :: "string \<Rightarrow> go_error + int"

definition IsNotExist :: "go_error \<Rightarrow> bool" where "IsNotExist e \<longleftrightarrow> e = Errno ENOENT"
definition IsExist :: "go_error \<Rightarrow> bool" where "IsExist e \<longleftrightarrow> e = Errno EEXIST"

definition os_call :: "sysEnv \<Rightarrow> (osState, 'a) M \<Rightarrow> (osState, 'a) M" where
  "os_call S m st =
     (case faults S (clock st) of
        Some e \<Rightarrow> (Err e, st\<lparr>clock := clock st + 1\<rparr>)
      | None \<Rightarrow> m (st\<lparr>clock := clock st + 1\<rparr>))"

text \<open>Look at the error of a call, as \<open>x, err := m()\<close> does.\<close>

definition attempt :: "('s, 'a) M \<Rightarrow> ('s, go_error + 'a) M" where
  "attempt m s = (case m s of (Ok a, s') \<Rightarrow> (Ok (Inr a), s') | (Err e, s') \<Rightarrow> (Ok (Inl e), s') | (Panic p, s') \<Rightarrow> (Panic p, s'))"

text \<open>The path behind a symbolic link; the driver has no links to links.\<close>

definition resolve :: "osState \<Rightarrow> string \<Rightarrow> string list" where
  "resolve st p = (case files st (comps p) of Some (Symlink t) \<Rightarrow> comps (path_Join [path_Dir p, t]) | _ \<Rightarrow> comps p)"

definition found :: "node option \<Rightarrow> node outcome" where
  "found x = (case x of None \<Rightarrow> Err (Errno ENOENT) | Some n \<Rightarrow> Ok n)"

definition os_Stat :: "sysEnv \<Rightarrow> string \<Rightarrow> (osState, node) M" where
  "os_Stat S p = os_call S (\<lambda>st. (found (files st (resolve st p)), st))"

definition os_Lstat :: "sysEnv \<Rightarrow> string \<Rightarrow> (osState, node) M" where
  "os_Lstat S p = os_call S (\<lambda>st. (found (files st (comps p)), st))"

definition os_ReadFile :: "sysEnv \<Rightarrow> string \<Rightarrow> (osState, string) M" where
  "os_ReadFile S p = os_call S (\<lambda>st.
     (case files st (resolve st p) of
        Some (Regular b) \<Rightarrow> Ok b
      | None \<Rightarrow> Err (Errno ENOENT)
      | _ \<Rightarrow> Err (Errno EISDIR), st))"

definition parentDir :: "osState \<Rightarrow> string list \<Rightarrow> bool" where
  "parentDir st k \<longleftrightarrow> files st (butlast k) = Some Directory"

definition os_WriteFile :: "sysEnv \<Rightarrow> string \<Rightarrow> string \<Rightarrow> (osState, unit) M" where
  "os_WriteFile S p b = os_call S (\<lambda>st.
     let k = resolve st p in
     if \<not> parentDir st k then (Err (Errno ENOENT), st)
     else if files st k = Some Directory then (Err (Errno EISDIR), st)
     else (Ok (), st\<lparr>files := (files st)(k \<mapsto> Regular b)\<rparr>))"

definition os_Symlink :: "sysEnv \<Rightarrow> string \<Rightarrow> string \<Rightarrow> (osState, unit) M" where
  "os_Symlink S t p = os_call S (\<lambda>st.
     let k = comps p in
     if files st k \<noteq> None then (Err (Errno EEXIST), st)
     else if \<not> parentDir st k then (Err (Errno ENOENT), st)
     else (Ok (), st\<lparr>files := (files st)(k \<mapsto> Symlink t)\<rparr>))"

definition os_Readlink :: "sysEnv \<Rightarrow> string \<Rightarrow> (osState, string) M" where
  "os_Readlink S p = os_call S (\<lambda>st.
     (case files st (comps p) of
        Some (Symlink t) \<Rightarrow> Ok t
      | None \<Rightarrow> Err (Errno ENOENT)
      | _ \<Rightarrow> Err (Errno EINVAL), st))"

definition os_Mkdir :: "sysEnv \<Rightarrow> string \<Rightarrow> (osState, unit) M" where
  "os_Mkdir S p = os_call S (\<lambda>st.
     let k = comps p in
     if files st k \<noteq> None then (Err (Errno EEXIST), st)
     else if \<not> parentDir st k then (Err (Errno ENOENT), st)
     else (Ok (), st\<lparr>files := (files st)(k \<mapsto> Directory)\<rparr>))"

definition os_MkdirAll :: "sysEnv \<Rightarrow> string \<Rightarrow> (osState, unit) M" where
  "os_MkdirAll S p = os_call S (\<lambda>st.
     if list_ex (\<lambda>k. files st k \<noteq> None \<and> files st k \<noteq> Some Directory) (prefixes (comps p)) then (Err (Errno ENOTDIR), st)
     else (Ok (), st\<lparr>files := (\<lambda>k. if prefix k (comps p) then Some Directory else files st k)\<rparr>))"

text \<open>Removing a tree fails while something is mounted in it.\<close>

definition os_RemoveAll :: "sysEnv \<Rightarrow> string \<Rightarrow> (osState, unit) M" where
  "os_RemoveAll S p = os_call S (\<lambda>st.
     if list_ex (\<lambda>(t, _). prefix (comps p) t) (mountTable st) then (Err (Errno EBUSY), st)
     else (Ok (), st\<lparr>files := (\<lambda>k. if prefix (comps p) k then None else files st k)\<rparr>))"

text \<open>The directories the driver removes this way are empty mount points.\<close>

definition os_Rmdir :: "sysEnv \<Rightarrow> string \<Rightarrow> (osState, unit) M" where
  "os_Rmdir S p = os_call S (\<lambda>st.
     if list_ex (\<lambda>(t, _). t = comps p) (mountTable st) then (Err (Errno EBUSY), st)
     else if files st (comps p) = None then (Err (Errno ENOENT), st)
     else (Ok (), st\<lparr>files := (files st)(comps p := None)\<rparr>))"

text \<open>Ownership is not part of the state; a change of owner either is one call or is not needed.\<close>

definition os_Chown :: "sysEnv \<Rightarrow> string \<Rightarrow> (osState, unit) M" where
  "os_Chown S p = os_call S (ret ())"

definition os_Mount :: "sysEnv \<Rightarrow> string \<Rightarrow> string \<Rightarrow> string \<Rightarrow> (osState, unit) M" where
  "os_Mount S wd target data = os_call S (\<lambda>st.
     let k = (if HasPrefix target ''/'' then comps target else comps (path_Join [wd, target])) in
     if files st k = Some Directory then (Ok (), st\<lparr>mountTable := (k, wd, data) # mountTable st\<rparr>)
     else (Err (Errno ENOENT), st))"

fun remove_mount :: "string list \<Rightarrow> (string list \<times> string \<times> string) list \<Rightarrow> (string list \<times> string \<times> string) list" where
  "remove_mount k [] = []"
| "remove_mount k ((t, x) # ms) = (if t = k then ms else (t, x) # remove_mount k ms)"

definition os_Unmount :: "sysEnv \<Rightarrow> string \<Rightarrow> (osState, unit) M" where
  "os_Unmount S p = os_call S (\<lambda>st.
     if list_ex (\<lambda>(t, _). t = comps p) (mountTable st)
     then (Ok (), st\<lparr>mountTable := remove_mount (comps p) (mountTable st)\<rparr>)
     else (Err (Errno EINVAL), st))"

definition RecursiveUnmount :: "sysEnv \<Rightarrow> string \<Rightarrow> (osState, unit) M" where
  "RecursiveUnmount S p = os_call S (updM (\<lambda>st. st\<lparr>mountTable := filter (\<lambda>(t, _). \<not> prefix (comps p) t) (mountTable st)\<rparr>))"

section \<open>Helpers\<close>

definition lazyChown :: "sysEnv \<Rightarrow> string \<Rightarrow> (osState, unit) M" where
  "lazyChown S p = bindM (os_Stat S p) (\<lambda>_. os_Chown S p)"

text \<open>The directories above \<open>p\<close> that do not exist yet, from below.\<close>

definition missing_dirs :: "string \<Rightarrow> osState \<Rightarrow> string list" where
  "missing_dirs p st =
     map (\<lambda>k. ''/'' @ Join ''/'' k)
       (filter (\<lambda>k. k \<noteq> [] \<and> k \<noteq> comps p \<and> files st k = None) (rev (prefixes (comps p))))"

definition mkdirAs :: "sysEnv \<Rightarrow> string \<Rightarrow> bool \<Rightarrow> bool \<Rightarrow> (osState, unit) M" where
  "mkdirAs S p mkAll chownExisting =
     bindM (attempt (os_Stat S p)) (\<lambda>r.
     case r of
       Inr n \<Rightarrow>
         if n \<noteq> Directory then raise (Errno ENOTDIR)
         else if \<not> chownExisting then ret ()
         else os_Chown S p
     | Inl e \<Rightarrow>
         let paths = (if IsNotExist e then [p] else []) in
         bindM
           (if mkAll then
              bindM getM (\<lambda>st.
              bindM (os_MkdirAll S p) (\<lambda>_. ret (paths @ missing_dirs p st)))
            else
              bindM (attempt (os_Mkdir S p)) (\<lambda>r.
              case r of
                Inl e1 \<Rightarrow> if IsExist e1 then ret paths else raise e1
              | Inr _ \<Rightarrow> ret paths)) (\<lambda>ps.
         forM ps (lazyChown S)))"

definition MkdirAllAndChown :: "sysEnv \<Rightarrow> string \<Rightarrow> (osState, unit) M" where
  "MkdirAllAndChown S p = mkdirAs S p True True"

definition MkdirAndChown :: "sysEnv \<Rightarrow> string \<Rightarrow> (osState, unit) M" where
  "MkdirAndChown S p = mkdirAs S p False True"

text \<open>\<open>EnsureRemoveAll\<close>: the error of the removal is taken to be about the directory itself.\<close>

fun ensureRemove_loop :: "sysEnv \<Rightarrow> string \<Rightarrow> nat \<Rightarrow> (osState, unit) M" where
  "ensureRemove_loop S dir n =
     bindM (attempt (os_RemoveAll S dir)) (\<lambda>r.
     case r of
       Inr _ \<Rightarrow> ret ()
     | Inl e \<Rightarrow>
         if IsNotExist e then ret ()
         else if e \<noteq> Errno EBUSY then raise e
         else
           bindM getM (\<lambda>st.
           bindM
             (if list_ex (\<lambda>(t, _). t = comps dir) (mountTable st) then
                bindM (attempt (os_Unmount S dir)) (\<lambda>u.
                bindM getM (\<lambda>st1.
                case u of
                  Inl e1 \<Rightarrow>
                    if list_ex (\<lambda>(t, _). t = comps dir) (mountTable st1)
                    then raise (Wrap (''error while removing '' @ dir) e1) else ret ()
                | Inr _ \<Rightarrow> ret ()))
              else ret ()) (\<lambda>_.
           case n of 0 \<Rightarrow> raise e | Suc n1 \<Rightarrow> ensureRemove_loop S dir n1)))"

declare ensureRemove_loop.simps [simp del]

definition EnsureRemoveAll :: "sysEnv \<Rightarrow> string \<Rightarrow> (osState, unit) M" where
  "EnsureRemoveAll S dir = bindM (tryM (RecursiveUnmount S dir)) (\<lambda>_. ensureRemove_loop S dir 50)"

section \<open>Reference counter\<close>

definition IsMounted :: "string \<Rightarrow> osState \<Rightarrow> bool" where
  "IsMounted p st \<longleftrightarrow> files st (comps p) \<noteq> None \<and> list_ex (\<lambda>(t, _). prefix t (comps p)) (mountTable st)"

definition incdec :: "string \<Rightarrow> int \<Rightarrow> (osState, int) M" where
  "incdec p by1 st =
     (let m = (case counts st p of None \<Rightarrow> \<lparr>miCheck = False, miCount = 0\<rparr> | Some m \<Rightarrow> m);
          m1 = (if miCheck m then m
                else \<lparr>miCheck = True, miCount = (if IsMounted p st then miCount m + 1 else miCount m)\<rparr>);
          n = miCount m1 + by1
      in (Ok n, st\<lparr>counts := (if n \<le> 0 then (counts st)(p := None) else (counts st)(p \<mapsto> m1\<lparr>miCount := n\<rparr>))\<rparr>))"

definition Increment :: "string \<Rightarrow> (osState, int) M" where
  "Increment p = incdec p 1"

definition Decrement :: "string \<Rightarrow> (osState, int) M" where
  "Decrement p = incdec p (- 1)"

section \<open>The driver\<close>

record overlayOptions =
  overrideKernelCheck :: bool
  quotaSize :: nat

record Driver =
  home :: string
  uidMaps :: "IDMap list option"
  gidMaps :: "IDMap list option"
  drvOptions :: overlayOptions
  hasQuotaCtl :: bool
  projectQuotaSupported :: bool
  supportsDType :: bool

definition maxDepth :: nat where "maxDepth = 128"
definition idLength :: nat where "idLength = 26"
definition linkDir :: string where "linkDir = ''l''"
definition lowerFile :: string where "lowerFile = ''lower''"

definition drv_dir :: "Driver \<Rightarrow> string \<Rightarrow> string" where
  "drv_dir D id1 = path_Join [home D, id1]"

definition getDiffPath :: "Driver \<Rightarrow> string \<Rightarrow> string" where
  "getDiffPath D id1 = path_Join [drv_dir D id1, ''diff'']"

definition rootIDs :: "Driver \<Rightarrow> (osState, unit) M" where
  "rootIDs D = (case snd (GetRootUIDGID (uidMaps D) (gidMaps D)) of None \<Rightarrow> ret () | Some e \<Rightarrow> raise e)"

fun parseStorageOpt :: "sysEnv \<Rightarrow> (string \<times> string) list \<Rightarrow> nat \<Rightarrow> go_error + nat" where
  "parseStorageOpt S [] sz = Inr sz"
| "parseStorageOpt S ((key, val) # opts) sz =
     (if ToLower key = ''size'' then
        (case RAMInBytes S val of Inl e \<Rightarrow> Inl e | Inr n \<Rightarrow> parseStorageOpt S opts (nat (n mod 2 ^ 64)))
      else Inl (Errorf (''Unknown option '' @ ToLower key)))"

definition setQuota :: "sysEnv \<Rightarrow> Driver \<Rightarrow> (osState, unit) M" where
  "setQuota S D = (if hasQuotaCtl D then os_call S (ret ()) else nilDeref)"

definition getLower :: "sysEnv \<Rightarrow> Driver \<Rightarrow> string \<Rightarrow> (osState, string) M" where
  "getLower S D parent =
     (let parentDir = drv_dir D parent in
      bindM (os_Lstat S parentDir) (\<lambda>_.
      bindM (os_ReadFile S (path_Join [parentDir, ''link''])) (\<lambda>parentLink.
      bindM (tryM (os_ReadFile S (path_Join [parentDir, lowerFile]))) (\<lambda>parentLower.
      let lowers = path_Join [linkDir, parentLink]
                   # (case parentLower of None \<Rightarrow> [] | Some s \<Rightarrow> Split (CHR '':'') s) in
      if length lowers > maxDepth then raise (Sentinel ''max depth exceeded'')
      else ret (Join '':'' lowers)))))"

text \<open>\<open>create\<close>, from the directory of the layer on.\<close>

definition create_body :: "sysEnv \<Rightarrow> Driver \<Rightarrow> string \<Rightarrow> string \<Rightarrow> (string \<times> string) list \<Rightarrow> (osState, unit) M" where
  "create_body S D id1 parent opts =
     (let dir = drv_dir D id1 in
      bindM
        (if opts \<noteq> [] then
           bindM (liftE (parseStorageOpt S opts 0)) (\<lambda>sz. if sz > 0 then setQuota S D else ret ())
         else ret ()) (\<lambda>_.
      bindM (MkdirAndChown S (path_Join [dir, ''diff''])) (\<lambda>_.
      bindM getM (\<lambda>st.
      let lid = randomID S (clock st) in
      bindM (os_Symlink S (path_Join [''..'', id1, ''diff'']) (path_Join [home D, linkDir, lid])) (\<lambda>_.
      bindM (os_WriteFile S (path_Join [dir, ''link'']) lid) (\<lambda>_.
      if parent = '''' then ret ()
      else
        bindM (MkdirAndChown S (path_Join [dir, ''work''])) (\<lambda>_.
        bindM (getLower S D parent) (\<lambda>lower.
        if lower \<noteq> '''' then os_WriteFile S (path_Join [dir, lowerFile]) lower else ret ()))))))))"

definition drv_create :: "sysEnv \<Rightarrow> Driver \<Rightarrow> string \<Rightarrow> string \<Rightarrow> (string \<times> string) list \<Rightarrow> (osState, unit) M" where
  "drv_create S D id1 parent opts =
     (let dir = drv_dir D id1 in
      bindM (rootIDs D) (\<lambda>_.
      bindM (MkdirAllAndChown S (path_Dir dir)) (\<lambda>_.
      bindM (MkdirAndChown S dir) (\<lambda>_.
      onErr (create_body S D id1 parent opts) (os_RemoveAll S dir)))))"

text \<open>The storage options are a map, here without order; nil options are the empty map.\<close>

definition drv_Create :: "sysEnv \<Rightarrow> Driver \<Rightarrow> string \<Rightarrow> string \<Rightarrow> (string \<times> string) list \<Rightarrow> (osState, unit) M" where
  "drv_Create S D id1 parent opts =
     (if map_of opts ''size'' \<noteq> None then raise (Errorf ''--storage-opt size is only supported for ReadWrite Layers'')
      else drv_create S D id1 parent opts)"

definition drv_CreateReadWrite :: "sysEnv \<Rightarrow> Driver \<Rightarrow> string \<Rightarrow> string \<Rightarrow> (string \<times> string) list \<Rightarrow> (osState, unit) M" where
  "drv_CreateReadWrite S D id1 parent opts =
     (if opts \<noteq> [] \<and> \<not> projectQuotaSupported D then
        raise (Errorf ''--storage-opt is supported only for overlay over xfs with 'pquota' mount option'')
      else
        drv_create S D id1 parent
          (if map_of opts ''size'' = None then (''size'', show_nat (quotaSize (drvOptions D))) # opts else opts))"

fun lowerDirs_loop :: "sysEnv \<Rightarrow> Driver \<Rightarrow> string list \<Rightarrow> (osState, string list) M" where
  "lowerDirs_loop S D [] = ret []"
| "lowerDirs_loop S D (s # ss) =
     bindM (os_Readlink S (path_Join [home D, s])) (\<lambda>lp.
     bindM (lowerDirs_loop S D ss) (\<lambda>rest.
     ret (path_Clean (path_Join [home D, linkDir, lp]) # rest)))"

definition getLowerDirs :: "sysEnv \<Rightarrow> Driver \<Rightarrow> string \<Rightarrow> (osState, string list) M" where
  "getLowerDirs S D id1 =
     bindM (attempt (os_ReadFile S (path_Join [drv_dir D id1, lowerFile]))) (\<lambda>r.
     case r of
       Inr lowers \<Rightarrow> lowerDirs_loop S D (Split (CHR '':'') lowers)
     | Inl e \<Rightarrow> if IsNotExist e then ret [] else raise e)"

definition GetMetadata :: "sysEnv \<Rightarrow> Driver \<Rightarrow> string \<Rightarrow> (osState, (string \<times> string) list) M" where
  "GetMetadata S D id1 =
     (let dir = drv_dir D id1 in
      bindM (os_Stat S dir) (\<lambda>_.
      bindM (getLowerDirs S D id1) (\<lambda>lowerDirs.
      ret ([(''WorkDir'', path_Join [dir, ''work'']), (''MergedDir'', path_Join [dir, ''merged'']),
            (''UpperDir'', path_Join [dir, ''diff''])]
           @ (if lowerDirs \<noteq> [] then [(''LowerDir'', Join '':'' lowerDirs)] else [])))))"

definition drv_Remove :: "sysEnv \<Rightarrow> Driver \<Rightarrow> string \<Rightarrow> (osState, unit) M" where
  "drv_Remove S D id1 =
     (if id1 = '''' then raise (Errorf ''refusing to remove the directories: id is empty'')
      else
        let dir = drv_dir D id1 in
        bindM (tryM (os_ReadFile S (path_Join [dir, ''link'']))) (\<lambda>r.
        bindM
          (case r of
             Some lid \<Rightarrow> if lid = '''' then ret None else tryM (os_RemoveAll S (path_Join [home D, linkDir, lid]))
           | None \<Rightarrow> ret None) (\<lambda>_.
        catchM (EnsureRemoveAll S dir) (\<lambda>e. if IsNotExist e then ret () else raise e))))"

section \<open>Mounting\<close>

definition abs_opts :: "Driver \<Rightarrow> string \<Rightarrow> string \<Rightarrow> string" where
  "abs_opts D id1 lowers =
     ''lowerdir='' @ Join '':'' (map (\<lambda>s. path_Join [home D, s]) (Split (CHR '':'') lowers)) @
     '',upperdir='' @ path_Join [drv_dir D id1, ''diff''] @ '',workdir='' @ path_Join [drv_dir D id1, ''work'']"

definition rel_opts :: "string \<Rightarrow> string \<Rightarrow> string" where
  "rel_opts id1 lowers =
     ''lowerdir='' @ lowers @ '',upperdir='' @ path_Join [id1, ''diff''] @ '',workdir='' @ path_Join [id1, ''work'']"

text \<open>
  \<open>label.FormatMountLabel\<close> of the SELinux build; the other build returns its argument.  \<open>Get\<close> only
  calls it with an empty label.
\<close>

definition FormatMountLabel :: "string \<Rightarrow> string \<Rightarrow> string" where
  "FormatMountLabel src mountLabel =
     (if mountLabel = '''' then src
      else if src = '''' then ''context='' @ [CHR 0x22] @ mountLabel @ [CHR 0x22]
      else src @ '',context='' @ [CHR 0x22] @ mountLabel @ [CHR 0x22])"

definition mountFrom :: "sysEnv \<Rightarrow> string \<Rightarrow> string \<Rightarrow> string \<Rightarrow> (osState, unit) M" where
  "mountFrom S dir target label1 =
     bindM (os_call S (ret ())) (\<lambda>_.
     catchM (os_Mount S dir target label1) (\<lambda>e. raise (Errorf (''mountfrom re-exec error: '' @ err_string e))))"

definition mount_layer :: "sysEnv \<Rightarrow> Driver \<Rightarrow> string \<Rightarrow> string \<Rightarrow> string \<Rightarrow> (osState, string) M" where
  "mount_layer S D id1 mountLabel lowers =
     (let mergedDir = path_Join [drv_dir D id1, ''merged''];
          opts = (if mountLabel \<noteq> '''' then abs_opts D id1 lowers @ mountLabel else abs_opts D id1 lowers);
          mountLabel1 = (if mountLabel \<noteq> '''' then '''' else mountLabel);
          mountData = FormatMountLabel opts mountLabel1;
          page = (if pageSize S > 4096 then 4096 else pageSize S) in
      bindM (rootIDs D) (\<lambda>_.
      bindM (MkdirAndChown S mergedDir) (\<lambda>_.
      bindM
        (if length mountData > page then
           let data1 = FormatMountLabel (rel_opts id1 lowers) mountLabel1 in
           if length data1 > page then raise (Errorf (''cannot mount layer, mount label too large '' @ show_nat (length data1)))
           else catchM (mountFrom S (home D) (path_Join [id1, ''merged'']) data1)
                  (\<lambda>e. raise (Errorf (''error creating overlay mount to '' @ mergedDir @ '': '' @ err_string e)))
         else catchM (os_Mount S ''/'' mergedDir mountData)
                (\<lambda>e. raise (Errorf (''error creating overlay mount to '' @ mergedDir @ '': '' @ err_string e)))) (\<lambda>_.
      bindM (os_Chown S (path_Join [path_Join [drv_dir D id1, ''work''], ''work''])) (\<lambda>_.
      ret mergedDir)))))"

text \<open>What \<open>Get\<close> does when it fails after it has counted itself.\<close>

definition get_undo :: "sysEnv \<Rightarrow> string \<Rightarrow> (osState, unit) M" where
  "get_undo S mergedDir =
     bindM (Decrement mergedDir) (\<lambda>c.
     if c \<le> 0 then
       bindM (tryM (os_Unmount S mergedDir)) (\<lambda>_.
       bindM (tryM (os_Rmdir S mergedDir)) (\<lambda>_. ret ()))
     else ret ())"

definition drv_Get :: "sysEnv \<Rightarrow> Driver \<Rightarrow> string \<Rightarrow> string \<Rightarrow> (osState, string) M" where
  "drv_Get S D id1 mountLabel =
     (let dir = drv_dir D id1 in
      bindM (os_Stat S dir) (\<lambda>_.
      bindM (attempt (os_ReadFile S (path_Join [dir, lowerFile]))) (\<lambda>r.
      case r of
        Inl e \<Rightarrow> if IsNotExist e then ret (path_Join [dir, ''diff'']) else raise e
      | Inr lowers \<Rightarrow>
          let mergedDir = path_Join [dir, ''merged''] in
          bindM (Increment mergedDir) (\<lambda>count.
          if count > 1 then ret mergedDir
          else onErr (mount_layer S D id1 mountLabel lowers) (get_undo S mergedDir)))))"

definition drv_Put :: "sysEnv \<Rightarrow> Driver \<Rightarrow> string \<Rightarrow> (osState, unit) M" where
  "drv_Put S D id1 =
     (let dir = drv_dir D id1 in
      bindM (attempt (os_ReadFile S (path_Join [dir, lowerFile]))) (\<lambda>r.
      case r of
        Inl e \<Rightarrow> if IsNotExist e then ret () else raise e
      | Inr _ \<Rightarrow>
          let mountpoint = path_Join [dir, ''merged''] in
          bindM (Decrement mountpoint) (\<lambda>count.
          if count > 0 then ret ()
          else
            bindM (tryM (os_Unmount S mountpoint)) (\<lambda>_.
            bindM (tryM (os_Rmdir S mountpoint)) (\<lambda>_. ret ())))))"

definition drv_Exists :: "sysEnv \<Rightarrow> Driver \<Rightarrow> string \<Rightarrow> (osState, bool) M" where
  "drv_Exists S D id1 = bindM (tryM (os_Stat S (drv_dir D id1))) (\<lambda>r. ret (r \<noteq> None))"

section \<open>Differences\<close>

definition isParent :: "sysEnv \<Rightarrow> Driver \<Rightarrow> string \<Rightarrow> string \<Rightarrow> (osState, bool) M" where
  "isParent S D id1 parent =
     bindM (tryM (getLowerDirs S D id1)) (\<lambda>r.
     case r of
       None \<Rightarrow> ret False
     | Some lowers \<Rightarrow>
         if parent = '''' \<and> lowers \<noteq> [] then ret False
         else
           let parentDir = drv_dir D parent;
               ld = (case lowers of [] \<Rightarrow> '''' | l # _ \<Rightarrow> path_Dir l) in
           if ld = '''' \<and> parent = '''' then ret True else ret (ld = parentDir))"

text \<open>
  Applying and producing differences: in the layer's own directory when the parent is the layer
  below, and by the generic driver otherwise.  Both ways are parameters.
\<close>

record 'a diffOps =
  naiveOp :: "string \<Rightarrow> string \<Rightarrow> (osState, 'a) M"
  nativeOp :: "string \<Rightarrow> (osState, 'a) M"

definition drv_ApplyDiff :: "sysEnv \<Rightarrow> Driver \<Rightarrow> 'a diffOps \<Rightarrow> string \<Rightarrow> string \<Rightarrow> (osState, 'a) M" where
  "drv_ApplyDiff S D ops id1 parent =
     bindM (isParent S D id1 parent) (\<lambda>p.
     if \<not> p then naiveOp ops id1 parent else nativeOp ops (getDiffPath D id1))"

definition drv_DiffSize :: "sysEnv \<Rightarrow> Driver \<Rightarrow> bool \<Rightarrow> 'a diffOps \<Rightarrow> string \<Rightarrow> string \<Rightarrow> (osState, 'a) M" where
  "drv_DiffSize S D useNaiveDiff ops id1 parent =
     (if useNaiveDiff then naiveOp ops id1 parent
      else bindM (isParent S D id1 parent) (\<lambda>p.
        if \<not> p then naiveOp ops id1 parent else nativeOp ops (getDiffPath D id1)))"

definition drv_Diff :: "sysEnv \<Rightarrow> Driver \<Rightarrow> bool \<Rightarrow> 'a diffOps \<Rightarrow> string \<Rightarrow> string \<Rightarrow> (osState, 'a) M" where
  "drv_Diff S D useNaiveDiff ops id1 parent =
     (if useNaiveDiff then naiveOp ops id1 parent
      else bindM (isParent S D id1 parent) (\<lambda>p.
        if \<not> p then naiveOp ops id1 parent else nativeOp ops (getDiffPath D id1)))"

definition drv_Changes :: "'a diffOps \<Rightarrow> string \<Rightarrow> string \<Rightarrow> (osState, 'a) M" where
  "drv_Changes ops id1 parent = naiveOp ops id1 parent"

section \<open>Start-up\<close>

record VersionInfo =
  vKernel :: int
  vMajor :: int
  vMinor :: int

definition CompareKernelVersion :: "VersionInfo \<Rightarrow> VersionInfo \<Rightarrow> int" where
  "CompareKernelVersion a b =
     (if vKernel a < vKernel b then - 1 else if vKernel a > vKernel b then 1
      else if vMajor a < vMajor b then - 1 else if vMajor a > vMajor b then 1
      else if vMinor a < vMinor b then - 1 else if vMinor a > vMinor b then 1
      else 0)"

definition ParseKeyValueOpt :: "string \<Rightarrow> go_error + (string \<times> string)" where
  "ParseKeyValueOpt opt =
     (case SplitN2 (CHR ''='') opt of
        (a, Some b) \<Rightarrow> Inr (TrimSpace a, TrimSpace b)
      | (a, None) \<Rightarrow> Inl (Errorf (''Unable to parse key/value option: '' @ opt)))"

definition ParseBool :: "string \<Rightarrow> go_error + bool" where
  "ParseBool s =
     (if s \<in> {''1'', ''t'', ''T'', ''TRUE'', ''true'', ''True''} then Inr True
      else if s \<in> {''0'', ''f'', ''F'', ''FALSE'', ''false'', ''False''} then Inr False
      else Inl (Errorf ''strconv.ParseBool: invalid syntax''))"

fun parseOptions_loop :: "sysEnv \<Rightarrow> string list \<Rightarrow> overlayOptions \<Rightarrow> go_error + overlayOptions" where
  "parseOptions_loop S [] o1 = Inr o1"
| "parseOptions_loop S (opt # opts) o1 =
     (case ParseKeyValueOpt opt of
        Inl e \<Rightarrow> Inl e
      | Inr (key, val) \<Rightarrow>
          if ToLower key = ''overlay2.override_kernel_check'' then
            (case ParseBool val of Inl e \<Rightarrow> Inl e | Inr b \<Rightarrow> parseOptions_loop S opts (o1\<lparr>overrideKernelCheck := b\<rparr>))
          else if ToLower key = ''overlay2.size'' then
            (case RAMInBytes S val of Inl e \<Rightarrow> Inl e | Inr n \<Rightarrow> parseOptions_loop S opts (o1\<lparr>quotaSize := nat (n mod 2 ^ 64)\<rparr>))
          else Inl (Errorf (''overlay2: unknown option '' @ ToLower key)))"

definition parseOptions :: "sysEnv \<Rightarrow> string list \<Rightarrow> go_error + overlayOptions" where
  "parseOptions S options = parseOptions_loop S options \<lparr>overrideKernelCheck = False, quotaSize = 0\<rparr>"

datatype FsMagic =
    FsMagicAufs | FsMagicBtrfs | FsMagicCramfs | FsMagicEcryptfs | FsMagicExtfs | FsMagicF2fs
  | FsMagicGPFS | FsMagicJffs2Fs | FsMagicJfs | FsMagicNfsFs | FsMagicRAMFs | FsMagicReiserFs
  | FsMagicSmbFs | FsMagicSquashFs | FsMagicTmpFs | FsMagicVxFS | FsMagicXfs | FsMagicZfs
  | FsMagicOverlay
  | FsMagicUnsupported | FsMagicOther int

fun FsNames :: "FsMagic \<rightharpoonup> string" where
  "FsNames FsMagicAufs = Some ''aufs''"
| "FsNames FsMagicBtrfs = Some ''btrfs''"
| "FsNames FsMagicCramfs = Some ''cramfs''"
| "FsNames FsMagicEcryptfs = Some ''ecryptfs''"
| "FsNames FsMagicExtfs = Some ''extfs''"
| "FsNames FsMagicF2fs = Some ''f2fs''"
| "FsNames FsMagicGPFS = Some ''gpfs''"
| "FsNames FsMagicJffs2Fs = Some ''jffs2''"
| "FsNames FsMagicJfs = Some ''jfs''"
| "FsNames FsMagicNfsFs = Some ''nfs''"
| "FsNames FsMagicOverlay = Some ''overlayfs''"
| "FsNames FsMagicRAMFs = Some ''ramfs''"
| "FsNames FsMagicReiserFs = Some ''reiserfs''"
| "FsNames FsMagicSmbFs = Some ''smb''"
| "FsNames FsMagicSquashFs = Some ''squashfs''"
| "FsNames FsMagicTmpFs = Some ''tmpfs''"
| "FsNames FsMagicUnsupported = Some ''unsupported''"
| "FsNames FsMagicVxFS = Some ''vxfs''"
| "FsNames FsMagicXfs = Some ''xfs''"
| "FsNames FsMagicZfs = Some ''zfs''"
| "FsNames _ = None"

text \<open>What start-up finds out about the host; the functions take the directory that is tested.\<close>

record hostInfo =
  supportsOverlay :: "go_error option"
  GetKernelVersion :: "go_error + VersionInfo"
  GetFSMagic :: "string \<Rightarrow> go_error + FsMagic"
  supportsMultipleLowerDir :: "string \<Rightarrow> go_error option"
  SupportsDType :: "string \<Rightarrow> go_error + bool"
  IsInitialized :: "string \<Rightarrow> bool"
  quota_NewControl :: "string \<Rightarrow> go_error option"

definition ErrNotSupported :: go_error where
  "ErrNotSupported = Sentinel ''driver not supported''"

definition ErrIncompatibleFS :: go_error where
  "ErrIncompatibleFS = Sentinel ''backing file system is unsupported for this graph driver''"

definition ErrDTypeNotSupported :: "string \<Rightarrow> string \<Rightarrow> go_error" where
  "ErrDTypeNotSupported driver backingFs =
     Errorf (driver @ '': the backing '' @ backingFs
       @ '' filesystem is formatted without d_type support, which leads to incorrect behavior.''
       @ (if backingFs = ''xfs'' then '' Reformat the filesystem with ftype=1 to enable d_type support.'' else '''')
       @ (if backingFs = ''extfs''
          then '' Reformat the filesystem (or use tune2fs) with -O filetype flag to enable d_type support.'' else '''')
       @ '' Backing filesystems without d_type support are not supported.'')"

definition check_fs :: "FsMagic \<Rightarrow> VersionInfo \<Rightarrow> bool \<Rightarrow> bool" where
  "check_fs fsMagic v override \<longleftrightarrow>
     (if fsMagic \<in> {FsMagicAufs, FsMagicEcryptfs, FsMagicNfsFs, FsMagicOverlay, FsMagicZfs} then False
      else if fsMagic = FsMagicBtrfs then
        \<not> (CompareKernelVersion v \<lparr>vKernel = 4, vMajor = 7, vMinor = 0\<rparr> < 0 \<and> \<not> override)
      else True)"

text \<open>The quota control: whether there is one, or the error that the size option is not supported.\<close>

definition init_quota :: "hostInfo \<Rightarrow> string \<Rightarrow> string \<Rightarrow> overlayOptions \<Rightarrow> go_error + bool" where
  "init_quota H home1 backingFs opts =
     (if backingFs = ''xfs'' then
        (case quota_NewControl H home1 of
           None \<Rightarrow> Inr True
         | Some e \<Rightarrow>
             if quotaSize opts > 0
             then Inl (Errorf (''Storage option overlay2.size not supported. Filesystem does not support Project Quota: '' @ err_string e))
             else Inr False)
      else if quotaSize opts > 0
      then Inl (Errorf (''Storage Option overlay2.size only supported for backingFS XFS. Found '' @ backingFs))
      else Inr False)"

definition drv_Init ::
  "hostInfo \<Rightarrow> sysEnv \<Rightarrow> string \<Rightarrow> string list \<Rightarrow> IDMap list option \<Rightarrow> IDMap list option \<Rightarrow> (osState, Driver) M" where
  "drv_Init H S home1 options uidMaps1 gidMaps1 =
     bindM (liftE (parseOptions S options)) (\<lambda>opts.
     if supportsOverlay H \<noteq> None then raise ErrNotSupported
     else
       bindM (liftE (GetKernelVersion H)) (\<lambda>v.
       bindM (attempt (os_Stat S home1)) (\<lambda>r.
       let testdir = (case r of Inl e \<Rightarrow> if IsNotExist e then path_Dir home1 else home1 | Inr _ \<Rightarrow> home1) in
       bindM (liftE (GetFSMagic H testdir)) (\<lambda>fsMagic.
       let backingFs = (case FsNames fsMagic of None \<Rightarrow> ''<unknown>'' | Some n \<Rightarrow> n) in
       if \<not> check_fs fsMagic v (overrideKernelCheck opts) then raise ErrIncompatibleFS
       else if CompareKernelVersion v \<lparr>vKernel = 4, vMajor = 0, vMinor = 0\<rparr> < 0 \<and> \<not> overrideKernelCheck opts
               \<and> supportsMultipleLowerDir H testdir \<noteq> None then raise ErrNotSupported
       else
         bindM (liftE (SupportsDType H testdir)) (\<lambda>dtype.
         if \<not> dtype \<and> \<not> IsInitialized H home1 then raise (ErrDTypeNotSupported ''overlay2'' backingFs)
         else
           case snd (GetRootUIDGID uidMaps1 gidMaps1) of
             Some e \<Rightarrow> raise e
           | None \<Rightarrow>
               bindM (MkdirAllAndChown S (path_Join [home1, linkDir])) (\<lambda>_.
               bindM (liftE (init_quota H home1 backingFs opts)) (\<lambda>q.
               ret \<lparr>home = home1, uidMaps = uidMaps1, gidMaps = gidMaps1, drvOptions = opts, hasQuotaCtl = q,
                    projectQuotaSupported = q, supportsDType = dtype\<rparr>)))))))"

text \<open>What holds of a value whenever a computation returns one.\<close>

definition returns :: "('s, 'a) M \<Rightarrow> ('a \<Rightarrow> bool) \<Rightarrow> bool" where
  "returns m P \<longleftrightarrow> (\<forall>s a s'. m s = (Ok a, s') \<longrightarrow> P a)"

lemma returns_basic: "P a \<Longrightarrow> returns (ret a) P" "returns (raise e) P"
  by (auto simp: returns_def ret_def raise_def)

lemma returns_bind: "(\<And>a. returns (f a) P) \<Longrightarrow> returns (bindM m f) P"
  by (auto simp: returns_def bindM_Ok)

lemma returns_liftE: "(\<And>a. x = Inr a \<Longrightarrow> returns (f a) P) \<Longrightarrow> returns (bindM (liftE x) f) P"
  by (cases x) (auto simp: returns_def bindM_Ok liftE_def raise_def ret_def)

lemma returns_if: "returns m P \<Longrightarrow> returns n P \<Longrightarrow> returns (if b then m else n) P"
  by simp

lemma returns_option: "(x = None \<Longrightarrow> returns m P) \<Longrightarrow> (\<And>a. returns (f a) P) \<Longrightarrow> returns (case x of None \<Rightarrow> m | Some a \<Rightarrow> f a) P"
  by (cases x) simp_all

lemma returns_let: "returns (f x) P \<Longrightarrow> returns (let y = x in f y) P"
  by simp

text \<open>A driver that was set up has a quota control whenever a size is to be enforced.\<close>

lemma Init_quota:
  assumes "drv_Init H S home1 options u g st = (Ok D, st')"
  shows "home D = home1 \<and> (quotaSize (drvOptions D) > 0 \<longrightarrow> hasQuotaCtl D) \<and> projectQuotaSupported D = hasQuotaCtl D"
proof -
  have q: "init_quota H home1 fs opts = Inr q \<Longrightarrow> quotaSize opts > 0 \<Longrightarrow> q" for fs opts q
    by (auto simp: init_quota_def split: if_splits option.splits)
  have "returns (drv_Init H S home1 options u g)
     (\<lambda>D. home D = home1 \<and> (quotaSize (drvOptions D) > 0 \<longrightarrow> hasQuotaCtl D) \<and> projectQuotaSupported D = hasQuotaCtl D)"
    unfolding drv_Init_def
    by (intro returns_liftE returns_if returns_option returns_let returns_basic(2) returns_bind returns_basic(1)) (auto dest: q)
  then show ?thesis using assms unfolding returns_def by blast
qed

end
