(* ===== verification/Overlay2_Layers.thy ===== *)
theory Overlay2_Layers
  imports Overlay2_Driver
begin

text \<open>
  What the files of the \<open>overlay2\<close> driver mean: each layer has a link and the links of all layers
  below it, so that the driver's directories implement a forest of layers.  Creating, reading and
  removing layers are shown to keep that meaning, on a host on which no call fails.
\<close>

section \<open>Calls that do not fail\<close>

definition nofault :: "sysEnv \<Rightarrow> bool" where
  "nofault S \<longleftrightarrow> (\<forall>n. faults S n = None)"

lemma os_call_ok: "nofault S \<Longrightarrow> os_call S m st = m (st\<lparr>clock := clock st + 1\<rparr>)"
  by (simp add: os_call_def nofault_def)

lemma resolve_plain: "(\<And>t. files st (comps p) \<noteq> Some (Symlink t)) \<Longrightarrow> resolve st p = comps p"
  by (cases "files st (comps p)") (auto simp: resolve_def split: node.split)

lemma resolve_tick [simp]: "resolve (st\<lparr>clock := c\<rparr>) p = resolve st p"
  by (simp add: resolve_def)

lemma Stat_dir: "nofault S \<Longrightarrow> files st (comps p) = Some Directory \<Longrightarrow> os_Stat S p st = (Ok Directory, st\<lparr>clock := clock st + 1\<rparr>)"
  by (simp add: os_Stat_def os_call_ok resolve_plain found_def)

lemma Stat_none: "nofault S \<Longrightarrow> files st (comps p) = None \<Longrightarrow> os_Stat S p st = (Err (Errno ENOENT), st\<lparr>clock := clock st + 1\<rparr>)"
  by (simp add: os_Stat_def os_call_ok resolve_plain found_def)

lemma Lstat_dir: "nofault S \<Longrightarrow> files st (comps p) = Some Directory \<Longrightarrow> os_Lstat S p st = (Ok Directory, st\<lparr>clock := clock st + 1\<rparr>)"
  by (simp add: os_Lstat_def os_call_ok found_def)

lemma ReadFile_some: "nofault S \<Longrightarrow> files st (comps p) = Some (Regular b) \<Longrightarrow> os_ReadFile S p st = (Ok b, st\<lparr>clock := clock st + 1\<rparr>)"
  by (simp add: os_ReadFile_def os_call_ok resolve_plain)

lemma ReadFile_none: "nofault S \<Longrightarrow> files st (comps p) = None \<Longrightarrow> os_ReadFile S p st = (Err (Errno ENOENT), st\<lparr>clock := clock st + 1\<rparr>)"
  by (simp add: os_ReadFile_def os_call_ok resolve_plain)

lemma WriteFile_new:
  "nofault S \<Longrightarrow> files st (comps p) = None \<Longrightarrow> parentDir st (comps p) \<Longrightarrow>
   os_WriteFile S p b st = (Ok (), st\<lparr>files := (files st)(comps p \<mapsto> Regular b), clock := clock st + 1\<rparr>)"
  by (simp add: os_WriteFile_def os_call_ok resolve_plain Let_def parentDir_def)

lemma Symlink_new:
  "nofault S \<Longrightarrow> files st (comps p) = None \<Longrightarrow> parentDir st (comps p) \<Longrightarrow>
   os_Symlink S t p st = (Ok (), st\<lparr>files := (files st)(comps p \<mapsto> Symlink t), clock := clock st + 1\<rparr>)"
  by (simp add: os_Symlink_def os_call_ok Let_def parentDir_def)

lemma Readlink_some: "nofault S \<Longrightarrow> files st (comps p) = Some (Symlink t) \<Longrightarrow> os_Readlink S p st = (Ok t, st\<lparr>clock := clock st + 1\<rparr>)"
  by (simp add: os_Readlink_def os_call_ok)

lemma Mkdir_new:
  "nofault S \<Longrightarrow> files st (comps p) = None \<Longrightarrow> parentDir st (comps p) \<Longrightarrow>
   os_Mkdir S p st = (Ok (), st\<lparr>files := (files st)(comps p \<mapsto> Directory), clock := clock st + 1\<rparr>)"
  by (simp add: os_Mkdir_def os_call_ok Let_def parentDir_def)

lemma Chown_ok: "nofault S \<Longrightarrow> os_Chown S p st = (Ok (), st\<lparr>clock := clock st + 1\<rparr>)"
  by (simp add: os_Chown_def os_call_ok ret_def)

lemma MkdirAndChown_new:
  assumes "nofault S" "files st (comps p) = None" "parentDir st (comps p)"
  shows "MkdirAndChown S p st = (Ok (), st\<lparr>files := (files st)(comps p \<mapsto> Directory), clock := clock st + 4\<rparr>)"
  using assms
  by (simp add: MkdirAndChown_def mkdirAs_def bindM_def attempt_def Stat_none Mkdir_new Stat_dir Chown_ok ret_def IsNotExist_def
      lazyChown_def parentDir_def Let_def)

lemma MkdirAllAndChown_old:
  assumes "nofault S" "files st (comps p) = Some Directory"
  shows "MkdirAllAndChown S p st = (Ok (), st\<lparr>clock := clock st + 2\<rparr>)"
  using assms by (simp add: MkdirAllAndChown_def mkdirAs_def bindM_def attempt_def Stat_dir Chown_ok)

lemma RemoveAll_free:
  "nofault S \<Longrightarrow> \<forall>m \<in> set (mountTable st). \<not> prefix (comps p) (fst m) \<Longrightarrow>
   os_RemoveAll S p st = (Ok (), st\<lparr>files := (\<lambda>k. if prefix (comps p) k then None else files st k), clock := clock st + 1\<rparr>)"
  by (simp add: os_RemoveAll_def os_call_ok list_ex_iff split_def cong: if_cong)

section \<open>Paths of the driver\<close>

lemma const_names [simp]: "name ''diff''" "name ''link''" "name ''work''" "name ''merged''" "name ''lower''" "name ''l''"
  by (simp_all add: name_def)

definition driver_ok :: "Driver \<Rightarrow> bool" where
  "driver_ok D \<longleftrightarrow> rooted (home D) \<and> home D \<noteq> ''/'' \<and> snd (GetRootUIDGID (uidMaps D) (gidMaps D)) = None"

abbreviation at :: "Driver \<Rightarrow> string list \<Rightarrow> string list" where
  "at D k \<equiv> comps (home D) @ k"

lemma dir_facts [simp]:
  assumes "driver_ok D" "name i"
  shows "rooted (drv_dir D i)" "comps (drv_dir D i) = at D [i]"
  using assms by (simp_all add: driver_ok_def drv_dir_def)

lemma sub_facts [simp]:
  assumes "driver_ok D" "name i" "name x"
  shows "comps (path_Join [drv_dir D i, x]) = at D [i, x]"
  using assms by simp

lemma link_facts [simp]:
  assumes "driver_ok D" "name x"
  shows "comps (path_Join [home D, linkDir, x]) = at D [''l'', x]"
  using assms by (simp add: linkDir_def driver_ok_def)

lemma dir_of_dir: "driver_ok D \<Longrightarrow> name i \<Longrightarrow> path_Dir (drv_dir D i) = ''/'' @ Join ''/'' (comps (home D))"
  using path_Join2_eq [of "home D" i] path_Dir_Join [OF comps_names, of i "home D"]
  by (simp add: drv_dir_def driver_ok_def)

lemma comps_dir_of_dir [simp]: "driver_ok D \<Longrightarrow> name i \<Longrightarrow> comps (path_Dir (drv_dir D i)) = comps (home D)"
  using comps_absolute [OF comps_names, of "home D"] by (simp add: dir_of_dir)

lemma relative_diff: "name i \<Longrightarrow> path_Join [''..'', i, ''diff''] = ''../'' @ i @ ''/diff''"
  by (simp add: path_Join_def path_Clean_def Split_append2 HasPrefix_iff) (simp add: clean_step_def name_def)

lemma relative_link: "name x \<Longrightarrow> path_Join [linkDir, x] = ''l/'' @ x"
  by (simp add: path_Join_def path_Clean_def linkDir_def HasPrefix_iff)

lemma comps_lower: "driver_ok D \<Longrightarrow> name x \<Longrightarrow> comps (path_Join [home D, ''l/'' @ x]) = at D [''l'', x]"
  using comps_Join2 [of "home D" "''l/'' @ x"] by (simp add: driver_ok_def)

lemma lower_dir:
  assumes "driver_ok D" "name i"
  shows "path_Clean (path_Join [home D, linkDir, ''../'' @ i @ ''/diff'']) = getDiffPath D i"
proof -
  have s: "Split (CHR ''/'') (''../'' @ i @ ''/diff'') = [''..'', i, ''diff'']"
    using assms(2) Split_append2 [of "CHR ''/''" i "''diff''"] by simp
  have c: "comps (path_Join [home D, linkDir, ''../'' @ i @ ''/diff'']) = at D [i, ''diff'']"
    using assms comps_Join3 [of "home D" linkDir "''../'' @ i @ ''/diff''"] unfolding s
    by (simp add: driver_ok_def linkDir_def) (simp add: clean_step_def [of True "_ @ [''l'']"])
  have r: "rooted (path_Join [home D, linkDir, ''../'' @ i @ ''/diff''])"
    using assms by (simp add: driver_ok_def linkDir_def)
  have "getDiffPath D i = ''/'' @ Join ''/'' (at D [i, ''diff''])"
    using path_Join2_eq [of "drv_dir D i" "''diff''"] assms by (simp add: getDiffPath_def)
  then show ?thesis using path_Clean_rooted [OF r] c by simp
qed

section \<open>The forest of layers\<close>

text \<open>A layer has its link and the layers below it, the nearest first.\<close>

type_synonym forest = "string \<rightharpoonup> string \<times> string list"

definition layer_name :: "string \<Rightarrow> bool" where
  "layer_name i \<longleftrightarrow> name i \<and> i \<noteq> ''l''"

definition link_name :: "string \<Rightarrow> bool" where
  "link_name x \<longleftrightarrow> name x \<and> CHR '':'' \<notin> set x"

definition link_of :: "forest \<Rightarrow> string \<Rightarrow> string" where
  "link_of A i = (case A i of None \<Rightarrow> '''' | Some (x, ps) \<Rightarrow> x)"

definition lower_text :: "forest \<Rightarrow> string list \<Rightarrow> string" where
  "lower_text A ps = Join '':'' (map (\<lambda>p. ''l/'' @ link_of A p) ps)"

definition layer_at :: "Driver \<Rightarrow> forest \<Rightarrow> osState \<Rightarrow> string \<Rightarrow> string \<Rightarrow> string list \<Rightarrow> bool" where
  "layer_at D A st i x ps \<longleftrightarrow>
     layer_name i \<and> link_name x \<and> length ps \<le> maxDepth \<and> (\<forall>p \<in> set ps. A p \<noteq> None) \<and>
     files st (at D [i]) = Some Directory \<and> files st (at D [i, ''link'']) = Some (Regular x) \<and>
     files st (at D [''l'', x]) = Some (Symlink (''../'' @ i @ ''/diff'')) \<and>
     files st (at D [i, ''lower'']) = (if ps = [] then None else Some (Regular (lower_text A ps)))"

definition layers_in :: "Driver \<Rightarrow> forest \<Rightarrow> osState \<Rightarrow> bool" where
  "layers_in D A st \<longleftrightarrow> (\<forall>i x ps. A i = Some (x, ps) \<longrightarrow> layer_at D A st i x ps)"

definition implements_forest :: "Driver \<Rightarrow> forest \<Rightarrow> osState \<Rightarrow> bool" where
  "implements_forest D A st \<longleftrightarrow>
     files st (comps (home D)) = Some Directory \<and> files st (at D [''l'']) = Some Directory \<and>
     layers_in D A st \<and>
     (\<forall>i k. layer_name i \<longrightarrow> A i = None \<longrightarrow> files st (at D (i # k)) = None)"

lemma link_of_name: "layers_in D A st \<Longrightarrow> A p \<noteq> None \<Longrightarrow> link_name (link_of A p)"
  by (auto simp: layers_in_def layer_at_def link_of_def split: option.splits prod.splits)

lemma lower_parts:
  assumes "layers_in D A st" "\<forall>p \<in> set ps. A p \<noteq> None" "ps \<noteq> []"
  shows "Split (CHR '':'') (lower_text A ps) = map (\<lambda>p. ''l/'' @ link_of A p) ps"
  unfolding lower_text_def
proof (rule Split_Join)
  show "\<forall>x \<in> set (map (\<lambda>p. ''l/'' @ link_of A p) ps). CHR '':'' \<notin> set x"
    using link_of_name [OF assms(1)] assms(2) by (auto simp: link_name_def)
qed (use assms in simp)

text \<open>What a parent contributes: nothing for a layer without one, itself and what is below it otherwise.\<close>

definition below :: "forest \<Rightarrow> string \<Rightarrow> string list option" where
  "below A parent = (if parent = '''' then Some [] else case A parent of None \<Rightarrow> None | Some (x, ps) \<Rightarrow> Some (parent # ps))"

lemma below_known: "layers_in D A st \<Longrightarrow> below A parent = Some ps \<Longrightarrow> \<forall>p \<in> set ps. A p \<noteq> None"
proof -
  assume i: "layers_in D A st" and b: "below A parent = Some ps"
  show "\<forall>p \<in> set ps. A p \<noteq> None"
  proof (cases "parent = ''''")
    case False
    then obtain x qs where a: "A parent = Some (x, qs)" "ps = parent # qs"
      using b by (auto simp: below_def split: option.splits prod.splits)
    then have "layer_at D A st parent x qs" using i by (auto simp: layers_in_def)
    then show ?thesis using a by (simp add: layer_at_def)
  qed (use b in \<open>simp add: below_def\<close>)
qed

lemma implements_files: "implements_forest D A st \<Longrightarrow> files st' = files st \<Longrightarrow> implements_forest D A st'"
  by (simp add: implements_forest_def layers_in_def layer_at_def)

lemma layers_files: "layers_in D A st \<Longrightarrow> files st' = files st \<Longrightarrow> layers_in D A st'"
  by (simp add: layers_in_def layer_at_def)

section \<open>Reading the layers below\<close>

lemma lowerDirs_loop_ok:
  assumes "nofault S" "driver_ok D" "layers_in D A st" "\<forall>p \<in> set ps. A p \<noteq> None"
  shows "\<exists>c. lowerDirs_loop S D (map (\<lambda>p. ''l/'' @ link_of A p) ps) st = (Ok (map (getDiffPath D) ps), st\<lparr>clock := c\<rparr>)"
  using assms(3,4)
proof (induction ps arbitrary: st)
  case Nil
  show ?case by (intro exI [of _ "clock st"]) (simp add: ret_def)
next
  case (Cons p ps)
  obtain x qs where p: "A p = Some (x, qs)" using Cons.prems(2) by auto
  have l: "layer_at D A st p x qs" using Cons.prems(1) p by (auto simp: layers_in_def)
  have lx: "link_of A p = x" using p by (simp add: link_of_def)
  have n: "name x" "name p" using l by (simp_all add: layer_at_def link_name_def layer_name_def)
  let ?st1 = "st\<lparr>clock := clock st + 1\<rparr>"
  have r: "os_Readlink S (path_Join [home D, ''l/'' @ x]) st = (Ok (''../'' @ p @ ''/diff''), ?st1)"
    using l by (intro Readlink_some assms(1)) (simp add: comps_lower [OF assms(2) n(1), simplified] layer_at_def)
  have i: "layers_in D A ?st1" by (rule layers_files [OF Cons.prems(1)]) simp
  obtain c where c: "lowerDirs_loop S D (map (\<lambda>p. ''l/'' @ link_of A p) ps) ?st1 = (Ok (map (getDiffPath D) ps), ?st1\<lparr>clock := c\<rparr>)"
    using Cons.IH [OF i] Cons.prems(2) by auto
  show ?case
    using r c lower_dir [OF assms(2) n(2)] by (intro exI [of _ c]) (simp add: lx bindM_def ret_def)
qed

lemma getLowerDirs_ok:
  assumes "nofault S" "driver_ok D" "layers_in D A st" "A i = Some (x, ps)"
  shows "\<exists>c. getLowerDirs S D i st = (Ok (map (getDiffPath D) ps), st\<lparr>clock := c\<rparr>)"
proof -
  have l: "layer_at D A st i x ps" using assms(3,4) by (auto simp: layers_in_def)
  then have n: "name i" by (simp add: layer_at_def layer_name_def)
  let ?p = "path_Join [drv_dir D i, lowerFile]" and ?st1 = "st\<lparr>clock := clock st + 1\<rparr>"
  have cp: "comps ?p = at D [i, ''lower'']" using assms(2) n by (simp add: lowerFile_def)
  show ?thesis
  proof (cases "ps = []")
    case True
    then have "os_ReadFile S ?p st = (Err (Errno ENOENT), ?st1)"
      using l cp assms(1) by (intro ReadFile_none) (simp_all add: layer_at_def)
    then show ?thesis
      using True by (intro exI [of _ "clock st + 1"]) (simp add: getLowerDirs_def bindM_def attempt_def IsNotExist_def ret_def)
  next
    case False
    then have r: "os_ReadFile S ?p st = (Ok (lower_text A ps), ?st1)"
      using l cp assms(1) by (intro ReadFile_some) (simp_all add: layer_at_def)
    have k: "\<forall>p \<in> set ps. A p \<noteq> None" using l by (simp add: layer_at_def)
    have i: "layers_in D A ?st1" by (rule layers_files [OF assms(3)]) simp
    obtain c where "lowerDirs_loop S D (map (\<lambda>p. ''l/'' @ link_of A p) ps) ?st1 = (Ok (map (getDiffPath D) ps), ?st1\<lparr>clock := c\<rparr>)"
      using lowerDirs_loop_ok [OF assms(1,2) i k] by auto
    then show ?thesis
      using r lower_parts [OF assms(3) k False] by (intro exI [of _ c]) (simp add: getLowerDirs_def bindM_def attempt_def)
  qed
qed

section \<open>Creating a layer\<close>

lemma getLower_ok:
  assumes "nofault S" "driver_ok D" "layers_in D A st" "A parent = Some (y, qs)"
  shows "\<exists>c. getLower S D parent st =
     (if length qs < maxDepth then Ok (lower_text A (parent # qs)) else Err (Sentinel ''max depth exceeded''), st\<lparr>clock := c\<rparr>)"
proof -
  have l: "layer_at D A st parent y qs" using assms(3,4) by (auto simp: layers_in_def)
  then have n: "name parent" "name y" by (simp_all add: layer_at_def layer_name_def link_name_def)
  let ?st1 = "st\<lparr>clock := clock st + 1\<rparr>" and ?st2 = "st\<lparr>clock := clock st + 2\<rparr>" and ?st3 = "st\<lparr>clock := clock st + 3\<rparr>"
  have 1: "os_Lstat S (drv_dir D parent) st = (Ok Directory, ?st1)"
    using l n assms(1,2) by (simp add: Lstat_dir layer_at_def)
  have 2: "os_ReadFile S (path_Join [drv_dir D parent, ''link'']) ?st1 = (Ok y, ?st2)"
    using l n assms(1,2) by (subst ReadFile_some [of S _ _ y]) (simp_all add: layer_at_def)
  have e: "lower_text A (parent # qs) = Join '':'' ((''l/'' @ y) # map (\<lambda>p. ''l/'' @ link_of A p) qs)"
    using assms(4) by (simp add: lower_text_def link_of_def)
  show ?thesis
  proof (cases "qs = []")
    case True
    have 3: "os_ReadFile S (path_Join [drv_dir D parent, lowerFile]) ?st2 = (Err (Errno ENOENT), ?st3)"
      using l n assms(1,2) True by (subst ReadFile_none) (simp_all add: layer_at_def lowerFile_def)
    show ?thesis
      using True e relative_link [OF n(2)] 1 2 3
      by (intro exI [of _ "clock st + 3"]) (simp add: getLower_def Let_def bindM_def tryM_def ret_def maxDepth_def)
  next
    case False
    have 3: "os_ReadFile S (path_Join [drv_dir D parent, lowerFile]) ?st2 = (Ok (lower_text A qs), ?st3)"
      using l n assms(1,2) False by (subst ReadFile_some [of S _ _ "lower_text A qs"]) (simp_all add: layer_at_def lowerFile_def)
    have s: "Split (CHR '':'') (lower_text A qs) = map (\<lambda>p. ''l/'' @ link_of A p) qs"
      using l False by (intro lower_parts [OF assms(3)]) (simp_all add: layer_at_def)
    show ?thesis
      using e s relative_link [OF n(2)] 1 2 3
      by (intro exI [of _ "clock st + 3"]) (simp add: getLower_def Let_def bindM_def tryM_def ret_def raise_def less_eq_Suc_le not_less_eq_eq)
  qed
qed

text \<open>The files of a new layer without its \<open>lower\<close> file.\<close>

definition new_files :: "Driver \<Rightarrow> string \<Rightarrow> string \<Rightarrow> bool \<Rightarrow> (string list \<rightharpoonup> node) \<Rightarrow> (string list \<rightharpoonup> node)" where
  "new_files D i x work F =
     (let F1 = F(at D [i] \<mapsto> Directory, at D [i, ''diff''] \<mapsto> Directory, at D [''l'', x] \<mapsto> Symlink (''../'' @ i @ ''/diff''),
                 at D [i, ''link''] \<mapsto> Regular x)
      in if work then F1(at D [i, ''work''] \<mapsto> Directory) else F1)"

definition can_create :: "sysEnv \<Rightarrow> Driver \<Rightarrow> forest \<Rightarrow> osState \<Rightarrow> string \<Rightarrow> bool" where
  "can_create S D A st i \<longleftrightarrow>
     layer_name i \<and> A i = None \<and> (\<forall>n. link_name (randomID S n) \<and> files st (at D [''l'', randomID S n]) = None) \<and>
     (\<forall>m \<in> set (mountTable st). \<not> prefix (at D [i]) (fst m))"

lemma new_files_forest:
  assumes "implements_forest D A st" "layer_name i" "A i = None" "files st (at D [''l'', x]) = None" "files st' = new_files D i x work (files st)"
  shows "A j = Some (y, qs) \<Longrightarrow> layer_at D A st' j y qs"
    "layer_name j \<Longrightarrow> j \<noteq> i \<Longrightarrow> A j = None \<Longrightarrow> files st' (at D (j # k)) = None"
    "files st' (comps (home D)) = Some Directory" "files st' (at D [''l'']) = Some Directory"
proof -
  assume j: "A j = Some (y, qs)"
  then have l: "layer_at D A st j y qs" using assms(1) by (auto simp: implements_forest_def layers_in_def)
  have "j \<noteq> i" "j \<noteq> ''l''" "y \<noteq> x" "i \<noteq> ''l''" using j assms(2-4) l by (auto simp: layer_at_def layer_name_def)
  then show "layer_at D A st' j y qs" using l by (simp add: layer_at_def assms(5) new_files_def Let_def)
next
  assume "layer_name j" "j \<noteq> i" "A j = None"
  then show "files st' (at D (j # k)) = None"
    using assms(1,2) by (auto simp: implements_forest_def assms(5) new_files_def Let_def layer_name_def)
next
  show "files st' (comps (home D)) = Some Directory" "files st' (at D [''l'']) = Some Directory"
    using assms(1,2) by (auto simp: implements_forest_def assms(5) new_files_def Let_def layer_name_def)
qed

lemma create_begin:
  assumes "nofault S" "driver_ok D" "implements_forest D A st" "can_create S D A st i"
    and "st0 = st\<lparr>files := (files st)(at D [i] \<mapsto> Directory), clock := c0\<rparr>" "x = randomID S (c0 + 4)"
  shows "create_body S D i parent [] st0 =
     (if parent = '''' then ret ()
      else
        bindM (MkdirAndChown S (path_Join [drv_dir D i, ''work''])) (\<lambda>_.
        bindM (getLower S D parent) (\<lambda>lower.
        if lower \<noteq> '''' then os_WriteFile S (path_Join [drv_dir D i, lowerFile]) lower else ret ())))
       (st\<lparr>files := new_files D i x False (files st), clock := c0 + 6\<rparr>)"
proof -
  have n: "layer_name i" "name i" "i \<noteq> ''l''" "A i = None" "link_name x" "name x" "files st (at D [''l'', x]) = None"
    using assms(4,6) by (auto simp: can_create_def layer_name_def link_name_def)
  have e: "files st (at D (i # k)) = None" for k using assms(3) n by (simp add: implements_forest_def)
  have h: "files st (at D [''l'']) = Some Directory" using assms(3) by (simp add: implements_forest_def)
  let ?F1 = "(files st)(at D [i] \<mapsto> Directory, at D [i, ''diff''] \<mapsto> Directory)"
  let ?F2 = "?F1(at D [''l'', x] \<mapsto> Symlink (''../'' @ i @ ''/diff''))"
  have 1: "MkdirAndChown S (path_Join [drv_dir D i, ''diff'']) st0 = (Ok (), st\<lparr>files := ?F1, clock := c0 + 4\<rparr>)"
    using n e assms(2) by (subst MkdirAndChown_new [OF assms(1)]) (simp_all add: assms(5) parentDir_def butlast_append)
  have 2: "os_Symlink S (path_Join [''..'', i, ''diff'']) (path_Join [home D, linkDir, x]) (st\<lparr>files := ?F1, clock := c0 + 4\<rparr>)
     = (Ok (), st\<lparr>files := ?F2, clock := c0 + 5\<rparr>)"
    using n h assms(2) by (subst Symlink_new [OF assms(1)]) (simp_all add: relative_diff [simplified] parentDir_def butlast_append)
  have 3: "os_WriteFile S (path_Join [drv_dir D i, ''link'']) x (st\<lparr>files := ?F2, clock := c0 + 5\<rparr>)
     = (Ok (), st\<lparr>files := new_files D i x False (files st), clock := c0 + 6\<rparr>)"
    using n e assms(2) by (subst WriteFile_new [OF assms(1)]) (simp_all add: parentDir_def butlast_append new_files_def Let_def)
  have g: "getM (st\<lparr>files := ?F1, clock := c0 + 4\<rparr>) = (Ok (st\<lparr>files := ?F1, clock := c0 + 4\<rparr>), st\<lparr>files := ?F1, clock := c0 + 4\<rparr>)"
    by (simp add: getM_def)
  have l: "randomID S (clock (st\<lparr>files := ?F1, clock := c0 + 4\<rparr>)) = x" using assms(6) by simp
  show ?thesis
    unfolding create_body_def Let_def
    by (simp only: bindM_def 1 2 3 g l prod.case outcome.case ret_def simp_thms if_False)
qed

text \<open>
  The whole of \<open>create\<close>: with room on the stack the new layer is in the forest, otherwise its
  directory is gone again.
\<close>

lemma create_files:
  assumes "nofault S" "driver_ok D" "implements_forest D A st" "can_create S D A st i" "below A parent = Some ps"
    and "st0 = st\<lparr>files := (files st)(at D [i] \<mapsto> Directory), clock := c0\<rparr>" "x = randomID S (c0 + 4)"
  shows "\<exists>c. create_body S D i parent [] st0 =
     (if length ps \<le> maxDepth
      then (Ok (), st\<lparr>files := (if ps = [] then new_files D i x False (files st)
                               else (new_files D i x True (files st))(at D [i, ''lower''] \<mapsto> Regular (lower_text A ps))), clock := c\<rparr>)
      else (Err (Sentinel ''max depth exceeded''), st\<lparr>files := new_files D i x True (files st), clock := c\<rparr>))"
proof (cases "parent = ''''")
  case True
  then show ?thesis
    using create_begin [OF assms(1-4,6,7), of parent] assms(5)
    by (intro exI [of _ "c0 + 6"]) (simp add: below_def ret_def)
next
  case False
  obtain y qs where p: "A parent = Some (y, qs)" "ps = parent # qs"
    using assms(5) False by (auto simp: below_def split: option.splits prod.splits)
  have n: "layer_name i" "name i" "A i = None" "files st (at D [''l'', x]) = None"
    using assms(4,7) by (auto simp: can_create_def layer_name_def)
  have e: "files st (at D (i # k)) = None" for k using assms(3) n by (simp add: implements_forest_def)
  let ?st1 = "st\<lparr>files := new_files D i x False (files st), clock := c0 + 6\<rparr>"
  let ?st2 = "st\<lparr>files := new_files D i x True (files st), clock := c0 + 10\<rparr>"
  have 1: "MkdirAndChown S (path_Join [drv_dir D i, ''work'']) ?st1 = (Ok (), ?st2)"
    using n e assms(2) by (subst MkdirAndChown_new [OF assms(1)]) (simp_all add: new_files_def Let_def parentDir_def butlast_append layer_name_def)
  have l: "layers_in D A ?st2"
    using new_files_forest(1) [OF assms(3) n(1,3,4), of ?st2 True] by (simp add: layers_in_def)
  obtain c where 2: "getLower S D parent ?st2 =
     (if length qs < maxDepth then Ok (lower_text A ps) else Err (Sentinel ''max depth exceeded''), ?st2\<lparr>clock := c\<rparr>)"
    using getLower_ok [OF assms(1,2) l p(1)] p(2) by auto
  have t: "lower_text A ps \<noteq> ''''" using p(2) by (cases qs) (simp_all add: lower_text_def)
  have 3: "os_WriteFile S (path_Join [drv_dir D i, lowerFile]) b (st\<lparr>files := new_files D i x True (files st), clock := c\<rparr>) =
     (Ok (), st\<lparr>files := (new_files D i x True (files st))(at D [i, ''lower''] \<mapsto> Regular b), clock := c + 1\<rparr>)" for b
    using n e assms(2)
    by (subst WriteFile_new [OF assms(1)]) (simp_all add: new_files_def Let_def parentDir_def butlast_append lowerFile_def layer_name_def)
  show ?thesis
  proof (cases "length qs < maxDepth")
    case True
    then show ?thesis
      using create_begin [OF assms(1-4,6,7), of parent] False p(2) t
      by (intro exI [of _ "c + 1"]) (simp add: bindM_def 1 2 3)
  next
    case deep: False
    then show ?thesis
      using create_begin [OF assms(1-4,6,7), of parent] False p(2)
      by (intro exI [of _ c]) (simp add: bindM_def 1 2)
  qed
qed

lemma new_layer_forest:
  assumes "implements_forest D A st" "can_create S D A st i" "below A parent = Some ps" "length ps \<le> maxDepth" "x = randomID S c"
    and "files st' = (if ps = [] then new_files D i x False (files st)
                      else (new_files D i x True (files st))(at D [i, ''lower''] \<mapsto> Regular (lower_text A ps)))"
  shows "implements_forest D (A(i \<mapsto> (x, ps))) st'"
proof -
  let ?A = "A(i \<mapsto> (x, ps))" and ?st = "st\<lparr>files := new_files D i x (ps \<noteq> []) (files st)\<rparr>"
  have n: "layer_name i" "i \<noteq> ''l''" "A i = None" "link_name x" "files st (at D [''l'', x]) = None"
    using assms(2,5) by (auto simp: can_create_def layer_name_def)
  have e: "files st (at D (i # k)) = None" for k using assms(1) n by (simp add: implements_forest_def)
  note f = new_files_forest [OF assms(1) n(1,3,5), of ?st "ps \<noteq> []"]
  have other: "files st' k = files ?st k" if "k \<noteq> at D [i, ''lower'']" for k using that assms(6) by auto
  have l: "layers_in D A st" using assms(1) by (simp add: implements_forest_def)
  have known: "\<forall>p \<in> set ps. A p \<noteq> None" by (rule below_known [OF l assms(3)])
  have text_eq: "lower_text ?A qs = lower_text A qs" if "\<forall>p \<in> set qs. A p \<noteq> None" for qs
  proof -
    have "p \<in> set qs \<Longrightarrow> p \<noteq> i" for p using that n(3) by auto
    then have "map (\<lambda>p. ''l/'' @ link_of ?A p) qs = map (\<lambda>p. ''l/'' @ link_of A p) qs" by (simp add: link_of_def)
    then show ?thesis by (simp only: lower_text_def)
  qed
  have "layer_at D ?A st' j y qs" if j: "?A j = Some (y, qs)" for j y qs
  proof (cases "j = i")
    case True
    then have "y = x" "qs = ps" using j by simp_all
    then show ?thesis
      using True n e assms(4,6) known text_eq [OF known] by (auto simp: layer_at_def new_files_def Let_def)
  next
    case False
    then have "layer_at D A ?st j y qs" using f(1) j by simp
    then show ?thesis
      using False other text_eq [of qs] n(2) by (auto simp: layer_at_def)
  qed
  moreover have "files st' (at D (j # k)) = None" if "layer_name j" "?A j = None" for j k
    using f(2) [of j k] that other [of "at D (j # k)"] n by (auto split: if_splits)
  ultimately show ?thesis
    using f(3,4) other n by (auto simp: implements_forest_def layers_in_def)
qed

lemma removed_forest:
  assumes "implements_forest D A st" "layer_name i" "A i = None" "files st (at D [''l'', x]) = None"
    and "files st' = (\<lambda>k. if prefix (at D [i]) k then None else new_files D i x work (files st) k)"
  shows "implements_forest D A st'"
proof -
  let ?st = "st\<lparr>files := new_files D i x work (files st)\<rparr>"
  note f = new_files_forest [OF assms(1-4), of ?st work]
  have i: "i \<noteq> ''l''" using assms(2) by (simp add: layer_name_def)
  have keep: "files st' (at D (j # k)) = files ?st (at D (j # k))" if "j \<noteq> i" for j k
    using that assms(5) by simp
  have home: "files st' (comps (home D)) = files ?st (comps (home D))" using assms(5) by (simp add: prefix_def)
  have "layer_at D A st' j y qs" if j: "A j = Some (y, qs)" for j y qs
  proof -
    have "j \<noteq> i" using j assms(3) by auto
    then show ?thesis using f(1) [OF _ j] i by (simp add: layer_at_def keep)
  qed
  moreover have "files st' (at D (j # k)) = None" if "layer_name j" "A j = None" for j k
    using f(2) [OF _ that(1) _ that(2)] keep [of j k] assms(5) by (cases "j = i") simp_all
  ultimately show ?thesis using f(3,4) keep [of "''l''" "[]"] home i by (simp add: implements_forest_def layers_in_def)
qed

lemma create_forest:
  assumes "nofault S" "driver_ok D" "implements_forest D A st" "can_create S D A st i" "below A parent = Some ps"
  shows "\<exists>x st'. if length ps \<le> maxDepth
     then drv_Create S D i parent [] st = (Ok (), st') \<and> implements_forest D (A(i \<mapsto> (x, ps))) st'
     else drv_Create S D i parent [] st = (Err (Sentinel ''max depth exceeded''), st') \<and> implements_forest D A st'"
proof -
  have n: "layer_name i" "name i" "A i = None" using assms(4) by (auto simp: can_create_def layer_name_def)
  have h: "files st (comps (home D)) = Some Directory" "files st (at D [i]) = None"
    using assms(3) n by (simp_all add: implements_forest_def)
  let ?st0 = "st\<lparr>files := (files st)(at D [i] \<mapsto> Directory), clock := clock st + 6\<rparr>"
  let ?x = "randomID S (clock st + 6 + 4)"
  have r: "rootIDs D st = (Ok (), st)" using assms(2) by (simp add: rootIDs_def driver_ok_def ret_def)
  have 1: "MkdirAllAndChown S (path_Dir (drv_dir D i)) st = (Ok (), st\<lparr>clock := clock st + 2\<rparr>)"
    using n h assms(1,2) by (simp add: MkdirAllAndChown_old)
  have 2: "MkdirAndChown S (drv_dir D i) (st\<lparr>clock := clock st + 2\<rparr>) = (Ok (), ?st0)"
    using n h assms(1,2) by (subst MkdirAndChown_new) (simp_all add: parentDir_def butlast_append)
  have start: "drv_Create S D i parent [] st = onErr (create_body S D i parent []) (os_RemoveAll S (drv_dir D i)) ?st0"
    unfolding drv_Create_def drv_create_def Let_def
    by (simp only: map_of.simps simp_thms if_False bindM_def r 1 2 prod.case outcome.case)
  have fr: "files st (at D [''l'', ?x]) = None" using assms(4) by (simp add: can_create_def)
  obtain c where b: "create_body S D i parent [] ?st0 =
     (if length ps \<le> maxDepth
      then (Ok (), st\<lparr>files := (if ps = [] then new_files D i ?x False (files st)
                               else (new_files D i ?x True (files st))(at D [i, ''lower''] \<mapsto> Regular (lower_text A ps))), clock := c\<rparr>)
      else (Err (Sentinel ''max depth exceeded''), st\<lparr>files := new_files D i ?x True (files st), clock := c\<rparr>))"
    using create_files [OF assms refl refl, of "clock st + 6"] by blast
  show ?thesis
  proof (cases "length ps \<le> maxDepth")
    case True
    let ?st' = "st\<lparr>files := (if ps = [] then new_files D i ?x False (files st)
                               else (new_files D i ?x True (files st))(at D [i, ''lower''] \<mapsto> Regular (lower_text A ps))), clock := c\<rparr>"
    have "drv_Create S D i parent [] st = (Ok (), ?st')"
      unfolding start onErr_def catchM_def b using True by simp
    moreover have "implements_forest D (A(i \<mapsto> (?x, ps))) ?st'"
      by (rule new_layer_forest [OF assms(3-5) True refl]) simp
    ultimately show ?thesis using True by auto
  next
    case False
    let ?st1 = "st\<lparr>files := new_files D i ?x True (files st), clock := c\<rparr>"
    let ?st' = "st\<lparr>files := (\<lambda>k. if prefix (at D [i]) k then None else new_files D i ?x True (files st) k), clock := c + 1\<rparr>"
    have m: "os_RemoveAll S (drv_dir D i) ?st1 = (Ok (), ?st')"
      using n assms(1,2,4) by (subst RemoveAll_free) (simp_all add: can_create_def cong: if_cong)
    have "drv_Create S D i parent [] st = (Err (Sentinel ''max depth exceeded''), ?st')"
      unfolding start onErr_def catchM_def b using False m by (simp add: bindM_def tryM_def raise_def)
    moreover have "implements_forest D A ?st'"
      by (rule removed_forest [OF assms(3) n(1,3) fr]) simp
    ultimately show ?thesis using False by auto
  qed
qed

lemma diff_dir: "driver_ok D \<Longrightarrow> name p \<Longrightarrow> path_Dir (getDiffPath D p) = drv_dir D p"
proof -
  assume d: "driver_ok D" "name p"
  have g: "getDiffPath D p = ''/'' @ Join ''/'' (at D [p] @ [''diff''])"
    using path_Join2_eq [of "drv_dir D p" "''diff''"] d by (simp add: getDiffPath_def)
  have names: "\<forall>c \<in> set (at D [p]). name c" using comps_names d(2) by auto
  have "drv_dir D p = ''/'' @ Join ''/'' (at D [p])"
    using path_Join2_eq [of "home D" p] d by (simp add: drv_dir_def driver_ok_def)
  then show ?thesis unfolding g by (simp only: path_Dir_Join [OF names const_names(1)])
qed

lemma isParent_ok:
  assumes "nofault S" "driver_ok D" "layers_in D A st" "A i = Some (x, ps)" "below A parent = Some ps"
  shows "fst (isParent S D i parent st) = Ok True"
proof -
  obtain c where l: "getLowerDirs S D i st = (Ok (map (getDiffPath D) ps), st\<lparr>clock := c\<rparr>)"
    using getLowerDirs_ok [OF assms(1-4)] by blast
  show ?thesis
  proof (cases "parent = ''''")
    case True
    then show ?thesis using l assms(5) by (simp add: isParent_def bindM_def tryM_def ret_def below_def)
  next
    case False
    then obtain y qs where p: "A parent = Some (y, qs)" "ps = parent # qs"
      using assms(5) by (auto simp: below_def split: option.splits prod.splits)
    then have "name parent" using assms(3) by (auto simp: layers_in_def layer_at_def layer_name_def)
    then show ?thesis
      using l False p(2) assms(2) by (simp add: isParent_def bindM_def tryM_def ret_def diff_dir Let_def)
  qed
qed

text \<open>
  C16: Creating a layer on a parent puts the parent and the layers below it, in that order, under
  the new layer: the driver lists exactly their directories, it recognises the parent, and all
  other layers stay as they are.  A parent with 128 layers below it is refused, and then no
  trace of the new layer's directory is left.
\<close>

theorem overlay2_create_stacks:
  assumes "nofault S" "driver_ok D" "implements_forest D A st" "can_create S D A st i" "below A parent = Some ps"
  shows "\<exists>x st'. if length ps \<le> maxDepth
     then drv_Create S D i parent [] st = (Ok (), st') \<and> implements_forest D (A(i \<mapsto> (x, ps))) st' \<and>
       fst (getLowerDirs S D i st') = Ok (map (getDiffPath D) ps) \<and> fst (isParent S D i parent st') = Ok True
     else drv_Create S D i parent [] st = (Err (Sentinel ''max depth exceeded''), st') \<and> implements_forest D A st'"
proof (cases "length ps \<le> maxDepth")
  case True
  then obtain x st' where c: "drv_Create S D i parent [] st = (Ok (), st')" "implements_forest D (A(i \<mapsto> (x, ps))) st'"
    using create_forest [OF assms] by auto
  let ?A = "A(i \<mapsto> (x, ps))"
  have l: "layers_in D ?A st'" using c(2) by (simp add: implements_forest_def)
  have i: "?A i = Some (x, ps)" by simp
  have "parent \<noteq> i" using assms(4,5) by (auto simp: can_create_def below_def layer_name_def name_def split: if_splits)
  then have "?A parent = A parent" by simp
  then have b: "below ?A parent = Some ps" using assms(5) by (simp only: below_def)
  obtain t where g: "getLowerDirs S D i st' = (Ok (map (getDiffPath D) ps), st'\<lparr>clock := t\<rparr>)"
    using getLowerDirs_ok [OF assms(1,2) l i] by blast
  show ?thesis using True c g isParent_ok [OF assms(1,2) l i b] by auto
next
  case False
  then show ?thesis using create_forest [OF assms] by auto
qed

section \<open>Mount options\<close>

text \<open>Text in which the kernel finds neither a separator nor an escape.\<close>

definition plain :: "string \<Rightarrow> bool" where
  "plain s \<longleftrightarrow> CHR '','' \<notin> set s \<and> CHR 0x5C \<notin> set s"

lemma plain_simps [simp]: "plain (a @ b) \<longleftrightarrow> plain a \<and> plain b" "plain [] " "plain (c # s) \<longleftrightarrow> c \<noteq> CHR '','' \<and> c \<noteq> CHR 0x5C \<and> plain s"
  by (auto simp: plain_def)

lemma plain_option: "plain s \<Longrightarrow> ovl_next_opt s = (s, None) \<and> escape_closed s"
  by (induction s) (auto split: list.splits)

lemma option_loop: "plain s \<Longrightarrow> s \<noteq> '''' \<Longrightarrow> ovl_apply_opt nomem s c = (None, c') \<Longrightarrow> ovl_parse_loop nomem (Some s) c = (None, c')"
  using plain_option [of s] by (simp add: ovl_parse_loop.simps)

lemma escape_closed_append: "escape_closed a \<Longrightarrow> escape_closed (a @ b) = escape_closed b"
proof (induction a rule: escape_closed.induct)
  case (2 c cs)
  then show ?case by (cases cs) (simp_all split: if_splits)
qed simp

lemma dir_options:
  assumes "a \<noteq> ''''" "\<not> nomem a"
  shows "ovl_apply_opt nomem (''lowerdir='' @ a) c = (None, c\<lparr>lowerdir := Some a\<rparr>)"
    "ovl_apply_opt nomem (''upperdir='' @ a) c = (None, c\<lparr>upperdir := Some a\<rparr>)"
    "ovl_apply_opt nomem (''workdir='' @ a) c = (None, c\<lparr>cfgWorkdir := Some a\<rparr>)"
  using assms by (simp_all add: ovl_apply_opt_def ovl_tokens_def strdup_field_def)

lemma three_options:
  assumes "plain a" "plain b" "plain w" "a \<noteq> ''''" "b \<noteq> ''''" "w \<noteq> ''''" "\<forall>s. \<not> nomem s"
  shows "ovl_parse_loop nomem (Some (''lowerdir='' @ a @ '',upperdir='' @ b @ '',workdir='' @ w)) c =
      (None, c\<lparr>lowerdir := Some a, upperdir := Some b, cfgWorkdir := Some w\<rparr>)"
    "escape_closed (''lowerdir='' @ a @ '',upperdir='' @ b @ '',workdir='' @ w)"
proof -
  have p: "plain (''lowerdir='' @ a)" "plain (''upperdir='' @ b)" "plain (''workdir='' @ w)" using assms(1-3) by simp_all
  have l: "ovl_parse_loop nomem (Some (''lowerdir='' @ a)) c = (None, c\<lparr>lowerdir := Some a\<rparr>)"
    "ovl_parse_loop nomem (Some (''upperdir='' @ b)) (c\<lparr>lowerdir := Some a\<rparr>) = (None, c\<lparr>lowerdir := Some a, upperdir := Some b\<rparr>)"
    "ovl_parse_loop nomem (Some (''workdir='' @ w)) (c\<lparr>lowerdir := Some a, upperdir := Some b\<rparr>) =
      (None, c\<lparr>lowerdir := Some a, upperdir := Some b, cfgWorkdir := Some w\<rparr>)"
    using p assms(4-7) dir_options by (auto intro!: option_loop)
  have "''lowerdir='' @ a @ '',upperdir='' @ b @ '',workdir='' @ w =
     (''lowerdir='' @ a) @ CHR '','' # ((''upperdir='' @ b) @ CHR '','' # (''workdir='' @ w))" by simp
  then show "ovl_parse_loop nomem (Some (''lowerdir='' @ a @ '',upperdir='' @ b @ '',workdir='' @ w)) c =
      (None, c\<lparr>lowerdir := Some a, upperdir := Some b, cfgWorkdir := Some w\<rparr>)"
    using p l by (simp only: ovl_parse_loop_append plain_option prod.case option.case)
  show "escape_closed (''lowerdir='' @ a @ '',upperdir='' @ b @ '',workdir='' @ w)"
    using plain_option assms(1-3) by (simp add: escape_closed_append)
qed

text \<open>The configuration the kernel module gets from the options of a layer.\<close>

definition layer_config :: "ovl_params \<Rightarrow> string \<Rightarrow> string \<Rightarrow> string \<Rightarrow> bool \<Rightarrow> ovl_config \<Rightarrow> bool" where
  "layer_config P a b w s cfg \<longleftrightarrow>
     lowerdir cfg = Some a \<and> upperdir cfg = Some b \<and> cfgWorkdir cfg = Some w \<and> simp_on cfg = s"

lemma parse_layer_options:
  assumes "plain a" "plain b" "plain w" "a \<noteq> ''''" "b \<noteq> ''''" "w \<noteq> ''''" "\<forall>s. \<not> nomem s" "label = '''' \<or> label = '',simp=on''"
  shows "\<exists>cfg. ovl_parse_opt P nomem (Some ((''lowerdir='' @ a @ '',upperdir='' @ b @ '',workdir='' @ w) @ label)) (default_config P) = (None, cfg) \<and>
     layer_config P a b w (label \<noteq> '''') cfg"
proof -
  let ?o = "''lowerdir='' @ a @ '',upperdir='' @ b @ '',workdir='' @ w"
  let ?c = "(default_config P)\<lparr>redirect_mode := ovl_redirect_mode_def P\<rparr>"
  let ?c1 = "?c\<lparr>lowerdir := Some a, upperdir := Some b, cfgWorkdir := Some w\<rparr>"
  let ?c2 = "if label = '''' then ?c1 else ?c1\<lparr>simp_on := True\<rparr>"
  have "ovl_parse_loop nomem (Some (?o @ label)) ?c = (None, ?c2)"
  proof (cases "label = ''''")
    case True
    then show ?thesis using three_options(1) [OF assms(1-7)] by simp
  next
    case False
    then have e: "label = CHR '','' # ''simp=on''" using assms(8) by simp
    have "ovl_parse_loop nomem (Some (?o @ CHR '','' # ''simp=on'')) ?c = (None, ?c1\<lparr>simp_on := True\<rparr>)"
      by (simp only: ovl_parse_loop_append [OF three_options(2) [OF assms(1-7)]] three_options(1) [OF assms(1-7)]
          prod.case option.case simp_option_loop)
    then show ?thesis unfolding e by (simp only: list.simps if_False)
  qed
  then have "ovl_parse_opt P nomem (Some (?o @ label)) (default_config P) = ovl_parse_redirect_mode P ?c2 (ovl_redirect_mode_def P)"
    using assms(7) by (simp only: ovl_parse_opt_def prod.case option.case if_False simp_thms) (simp add: Let_def)
  moreover have "\<exists>cfg. ovl_parse_redirect_mode P ?c2 (ovl_redirect_mode_def P) = (None, cfg) \<and> layer_config P a b w (label \<noteq> '''') cfg"
    by (simp add: ovl_parse_redirect_mode_def ovl_redirect_mode_def_def layer_config_def default_config_def)
  ultimately show ?thesis by simp
qed

section \<open>Mounting a layer\<close>

definition merged :: "Driver \<Rightarrow> string \<Rightarrow> string" where
  "merged D i = path_Join [drv_dir D i, ''merged'']"

definition page :: "sysEnv \<Rightarrow> nat" where
  "page S = (if pageSize S > 4096 then 4096 else pageSize S)"

text \<open>A layer that nobody uses.\<close>

definition unused :: "Driver \<Rightarrow> osState \<Rightarrow> string \<Rightarrow> bool" where
  "unused D st i \<longleftrightarrow> counts st (merged D i) = None \<and> files st (at D [i, ''merged'']) = None \<and>
     (\<forall>m \<in> set (mountTable st). fst m \<noteq> at D [i, ''merged''])"

lemma FormatMountLabel_empty [simp]: "FormatMountLabel s '''' = s"
  by (simp add: FormatMountLabel_def)

lemma Mount_ok:
  "nofault S \<Longrightarrow> files st k = Some Directory \<Longrightarrow> k = (if HasPrefix target ''/'' then comps target else comps (path_Join [wd, target])) \<Longrightarrow>
   os_Mount S wd target data st = (Ok (), st\<lparr>mountTable := (k, wd, data) # mountTable st, clock := clock st + 1\<rparr>)"
  by (simp add: os_Mount_def os_call_ok Let_def)

lemma relative_sub:
  assumes "name i" "name s"
  shows "path_Join [i, s] = i @ ''/'' @ s" "\<not> rooted (i @ t)"
proof -
  show r: "\<not> rooted (i @ t)" for t using assms by (cases i) (auto simp: HasPrefix_iff name_def)
  have "Split (CHR ''/'') (i @ ''/'' @ s) = [i, s]"
    using assms Split_append2 [of "CHR ''/''" i s] by simp
  then show "path_Join [i, s] = i @ ''/'' @ s"
    using assms r by (simp add: path_Join_def path_Clean_def)
qed

lemma relative_merged: "name i \<Longrightarrow> path_Join [i, ''merged''] = i @ ''/merged''" "name i \<Longrightarrow> \<not> rooted (i @ ''/merged'')"
  using relative_sub [of i "''merged''"] by simp_all

lemma comps_merged: "driver_ok D \<Longrightarrow> name i \<Longrightarrow> comps (path_Join [home D, i @ ''/merged'']) = at D [i, ''merged'']"
  using comps_Join2 [of "home D" "i @ ''/merged''"] Split_append2 [of "CHR ''/''" i "''merged''"] by (simp add: driver_ok_def)

definition mounted_state :: "Driver \<Rightarrow> string \<Rightarrow> string \<Rightarrow> string \<Rightarrow> nat \<Rightarrow> osState \<Rightarrow> osState" where
  "mounted_state D i wd data c st =
     st\<lparr>files := (files st)(at D [i, ''merged''] \<mapsto> Directory), mountTable := (at D [i, ''merged''], wd, data) # mountTable st,
        counts := (counts st)(merged D i \<mapsto> \<lparr>miCheck = True, miCount = 1\<rparr>), clock := c\<rparr>"

lemma mount_layer_ok:
  fixes st :: osState and lowers label i :: string and D :: Driver
  defines "absolute \<equiv> abs_opts D i lowers @ label"
  assumes "nofault S" "driver_ok D" "name i" "files st (at D [i, ''merged'']) = None" "files st (at D [i]) = Some Directory"
  shows "\<exists>c. mount_layer S D i label lowers st =
     (if length absolute \<le> page S then
        (Ok (merged D i), st\<lparr>files := (files st)(at D [i, ''merged''] \<mapsto> Directory),
           mountTable := (at D [i, ''merged''], ''/'', absolute) # mountTable st, clock := c\<rparr>)
      else if length (rel_opts i lowers) \<le> page S then
        (Ok (merged D i), st\<lparr>files := (files st)(at D [i, ''merged''] \<mapsto> Directory),
           mountTable := (at D [i, ''merged''], home D, rel_opts i lowers) # mountTable st, clock := c\<rparr>)
      else (Err (Errorf (''cannot mount layer, mount label too large '' @ show_nat (length (rel_opts i lowers)))),
           st\<lparr>files := (files st)(at D [i, ''merged''] \<mapsto> Directory), clock := c\<rparr>))"
proof -
  let ?st1 = "st\<lparr>files := (files st)(at D [i, ''merged''] \<mapsto> Directory), clock := clock st + 4\<rparr>"
  have r: "rootIDs D st = (Ok (), st)" using assms(3) by (simp add: rootIDs_def driver_ok_def ret_def)
  have cm: "comps (merged D i) = at D [i, ''merged'']" "rooted (merged D i)" using assms(3,4) by (simp_all add: merged_def)
  have 1: "MkdirAndChown S (merged D i) st = (Ok (), ?st1)"
    using assms(5,6) cm by (subst MkdirAndChown_new [OF assms(2)]) (simp_all add: parentDir_def butlast_append)
  have data: "FormatMountLabel (if label \<noteq> '''' then abs_opts D i lowers @ label else abs_opts D i lowers) (if label \<noteq> '''' then '''' else label) = absolute"
    "FormatMountLabel (rel_opts i lowers) (if label \<noteq> '''' then '''' else label) = rel_opts i lowers"
    by (simp_all add: absolute_def)
  have 2: "os_Mount S ''/'' (merged D i) d ?st1 =
     (Ok (), ?st1\<lparr>mountTable := (at D [i, ''merged''], ''/'', d) # mountTable st, clock := clock st + 5\<rparr>)" for d
    using cm by (subst Mount_ok [OF assms(2), where k = "at D [i, ''merged'']"]) simp_all
  have 3: "mountFrom S (home D) (path_Join [i, ''merged'']) d ?st1 =
     (Ok (), ?st1\<lparr>mountTable := (at D [i, ''merged''], home D, d) # mountTable st, clock := clock st + 6\<rparr>)" for d
  proof -
    have "os_Mount S (home D) (i @ ''/merged'') d (?st1\<lparr>clock := 5 + clock st\<rparr>) =
      (Ok (), ?st1\<lparr>mountTable := (at D [i, ''merged''], home D, d) # mountTable st, clock := clock st + 6\<rparr>)"
      using relative_merged(2) [OF assms(4)] comps_merged [OF assms(3,4)]
      by (subst Mount_ok [OF assms(2), where k = "at D [i, ''merged'']"]) simp_all
    then show ?thesis
      using relative_merged(1) [OF assms(4)] by (simp add: mountFrom_def bindM_def os_call_ok [OF assms(2)] ret_def catchM_def)
  qed
  have 4: "os_Chown S p s = (Ok (), s\<lparr>clock := clock s + 1\<rparr>)" for p s by (rule Chown_ok [OF assms(2)])
  note run = mount_layer_def [of S D i label lowers, folded merged_def, folded page_def, unfolded Let_def data]
  consider (abs) "length absolute \<le> page S" | (rel) "page S < length absolute" "length (rel_opts i lowers) \<le> page S"
    | (big) "page S < length absolute" "page S < length (rel_opts i lowers)" by linarith
  then show ?thesis
  proof cases
    case abs
    then show ?thesis
      unfolding run by (intro exI [of _ "clock st + 6"]) (simp add: bindM_def r 1 2 4 catchM_def ret_def)
  next
    case rel
    then show ?thesis
      unfolding run by (intro exI [of _ "clock st + 7"]) (simp add: bindM_def r 1 3 4 catchM_def ret_def)
  next
    case big
    then show ?thesis
      unfolding run by (intro exI [of _ "clock st + 4"]) (simp add: bindM_def r 1 catchM_def raise_def)
  qed
qed

lemma Get_ok:
  fixes st :: osState and label i :: string and D :: Driver and A :: forest and ps :: "string list"
  defines "lowers \<equiv> lower_text A ps"
  defines "absolute \<equiv> abs_opts D i lowers @ label"
  assumes "nofault S" "driver_ok D" "layers_in D A st" "A i = Some (x, ps)" "ps \<noteq> []" "unused D st i"
  shows "\<exists>c. drv_Get S D i label st =
     (if length absolute \<le> page S then (Ok (merged D i), mounted_state D i ''/'' absolute c st)
      else if length (rel_opts i lowers) \<le> page S then (Ok (merged D i), mounted_state D i (home D) (rel_opts i lowers) c st)
      else (Err (Errorf (''cannot mount layer, mount label too large '' @ show_nat (length (rel_opts i lowers)))), st\<lparr>clock := c\<rparr>))"
proof -
  have l: "layer_at D A st i x ps" using assms(5,6) by (auto simp: layers_in_def)
  then have n: "name i" by (simp add: layer_at_def layer_name_def)
  have u: "counts st (merged D i) = None" "files st (at D [i, ''merged'']) = None" "\<forall>m \<in> set (mountTable st). fst m \<noteq> at D [i, ''merged'']"
    using assms(8) by (simp_all add: unused_def)
  have cm: "comps (merged D i) = at D [i, ''merged'']" using assms(4) n by (simp add: merged_def)
  let ?one = "\<lparr>miCheck = True, miCount = 1\<rparr>"
  let ?st2 = "st\<lparr>clock := clock st + 2\<rparr>" and ?st3 = "st\<lparr>counts := (counts st)(merged D i \<mapsto> ?one), clock := clock st + 2\<rparr>"
  have 1: "os_Stat S (drv_dir D i) st = (Ok Directory, st\<lparr>clock := clock st + 1\<rparr>)"
    using l n assms(3,4) by (simp add: Stat_dir layer_at_def)
  have 2: "os_ReadFile S (path_Join [drv_dir D i, lowerFile]) (st\<lparr>clock := clock st + 1\<rparr>) = (Ok lowers, ?st2)"
    using l n assms(3,4,7) by (subst ReadFile_some [of S _ _ lowers]) (simp_all add: layer_at_def lowerFile_def lowers_def)
  have 3: "Increment (merged D i) ?st2 = (Ok 1, ?st3)"
    using u cm by (simp add: Increment_def incdec_def IsMounted_def Let_def)
  have f: "files ?st3 (at D [i, ''merged'']) = None" "files ?st3 (at D [i]) = Some Directory"
    using u l by (simp_all add: layer_at_def)
  have fs: "files ?st3 = files st" "mountTable ?st3 = mountTable st" by simp_all
  have start: "drv_Get S D i label st = onErr (mount_layer S D i label lowers) (get_undo S (merged D i)) ?st3"
    unfolding drv_Get_def Let_def merged_def [symmetric]
    by (simp only: bindM_def 1 2 3 attempt_def prod.case outcome.case sum.case) simp
  obtain c where m: "mount_layer S D i label lowers ?st3 =
     (if length absolute \<le> page S then
        (Ok (merged D i), ?st3\<lparr>files := (files st)(at D [i, ''merged''] \<mapsto> Directory),
           mountTable := (at D [i, ''merged''], ''/'', absolute) # mountTable st, clock := c\<rparr>)
      else if length (rel_opts i lowers) \<le> page S then
        (Ok (merged D i), ?st3\<lparr>files := (files st)(at D [i, ''merged''] \<mapsto> Directory),
           mountTable := (at D [i, ''merged''], home D, rel_opts i lowers) # mountTable st, clock := c\<rparr>)
      else (Err (Errorf (''cannot mount layer, mount label too large '' @ show_nat (length (rel_opts i lowers)))),
           ?st3\<lparr>files := (files st)(at D [i, ''merged''] \<mapsto> Directory), clock := c\<rparr>))"
    using mount_layer_ok [OF assms(3,4) n f, of label lowers] unfolding absolute_def fs by blast
  let ?st4 = "st\<lparr>files := (files st)(at D [i, ''merged''] \<mapsto> Directory), counts := (counts st)(merged D i \<mapsto> ?one), clock := c\<rparr>"
  have undo: "get_undo S (merged D i) ?st4 = (Ok (), st\<lparr>clock := c + 2\<rparr>)"
  proof -
    have none: "(counts st)(merged D i := None) = counts st" "(files st)(at D [i, ''merged''] := None) = files st"
      using u by (simp_all add: fun_upd_idem)
    have d: "Decrement (merged D i) ?st4 = (Ok 0, st\<lparr>files := (files st)(at D [i, ''merged''] \<mapsto> Directory), clock := c\<rparr>)"
      using none(1) by (simp add: Decrement_def incdec_def Let_def)
    have "os_Unmount S (merged D i) (st\<lparr>files := (files st)(at D [i, ''merged''] \<mapsto> Directory), clock := c\<rparr>) =
        (Err (Errno EINVAL), st\<lparr>files := (files st)(at D [i, ''merged''] \<mapsto> Directory), clock := c + 1\<rparr>)"
      using u cm by (auto simp: os_Unmount_def os_call_ok [OF assms(3)] list_ex_iff)
    moreover have "os_Rmdir S (merged D i) (st\<lparr>files := (files st)(at D [i, ''merged''] \<mapsto> Directory), clock := c + 1\<rparr>) =
        (Ok (), st\<lparr>clock := c + 2\<rparr>)"
      using u(3) cm none(2) by (auto simp: os_Rmdir_def os_call_ok [OF assms(3)] list_ex_iff)
    ultimately show ?thesis by (simp add: get_undo_def bindM_def d tryM_def ret_def)
  qed
  consider (abs) "length absolute \<le> page S" | (rel) "page S < length absolute" "length (rel_opts i lowers) \<le> page S"
    | (big) "page S < length absolute" "page S < length (rel_opts i lowers)" by linarith
  then show ?thesis
  proof cases
    case abs
    then show ?thesis unfolding start onErr_def catchM_def m by (intro exI [of _ c]) (simp add: mounted_state_def)
  next
    case rel
    then show ?thesis unfolding start onErr_def catchM_def m by (intro exI [of _ c]) (simp add: mounted_state_def)
  next
    case big
    have "?st3\<lparr>files := (files st)(at D [i, ''merged''] \<mapsto> Directory), clock := c\<rparr> = ?st4" by simp
    then have "get_undo S (merged D i) (?st3\<lparr>files := (files st)(at D [i, ''merged''] \<mapsto> Directory), clock := c\<rparr>) =
        (Ok (), st\<lparr>clock := c + 2\<rparr>)" using undo by (simp only:)
    then show ?thesis
      unfolding start onErr_def catchM_def m using big
      by (intro exI [of _ "c + 2"]) (simp add: bindM_def tryM_def raise_def)
  qed
qed

section \<open>What the kernel reads\<close>

lemma Split_subset: "x \<in> set (Split c s) \<Longrightarrow> set x \<subseteq> set s"
proof (induction s arbitrary: x)
  case (Cons a s)
  show ?case
  proof (cases "Split c s")
    case (Cons p ps)
    have "set p \<subseteq> set s" "\<And>q. q \<in> set ps \<Longrightarrow> set q \<subseteq> set s" using Cons.IH Cons by simp_all
    then show ?thesis using Cons.prems Cons by (auto split: if_splits)
  qed simp
qed simp

lemma plain_subset: "set x \<subseteq> set s \<Longrightarrow> plain s \<Longrightarrow> plain x"
  by (auto simp: plain_def)

lemma foldl_clean_plain:
  "\<forall>c \<in> set acc. plain c \<Longrightarrow> \<forall>c \<in> set cs. plain c \<Longrightarrow> \<forall>c \<in> set (foldl (clean_step True) acc cs). plain c"
proof (induction cs arbitrary: acc)
  case (Cons c cs)
  have "\<forall>x \<in> set (clean_step True acc c). plain x"
    using Cons.prems unfolding clean_step_def by (auto dest: in_set_butlastD)
  then show ?case using Cons.IH [of "clean_step True acc c"] Cons.prems(2) by simp
qed simp

lemma plain_comps: "plain p \<Longrightarrow> \<forall>c \<in> set (comps p). plain c"
  unfolding comps_def using Split_subset plain_subset by (intro foldl_clean_plain) (simp, blast)

lemma plain_Join: "plain sep \<Longrightarrow> \<forall>x \<in> set xs. plain x \<Longrightarrow> plain (Join sep xs)"
  by (induction sep xs rule: Join.induct) simp_all

lemma plain_path: "rooted h \<Longrightarrow> plain h \<Longrightarrow> a \<noteq> '''' \<Longrightarrow> plain a \<Longrightarrow> plain (path_Join [h, a]) \<and> path_Join [h, a] \<noteq> ''''"
proof -
  assume h: "rooted h" "plain h" "a \<noteq> ''''" "plain a"
  have "plain (h @ CHR ''/'' # a)" using h by simp
  then have "plain (Join ''/'' (comps (h @ CHR ''/'' # a)))" by (intro plain_Join plain_comps) simp_all
  then show ?thesis using h by (simp add: path_Join2 path_Clean_rooted rooted_append)
qed

lemma lower_paths:
  assumes "driver_ok D" "layers_in D A st" "\<forall>p \<in> set ps. A p \<noteq> None \<and> plain (link_of A p)" "ps \<noteq> []" "plain (home D)"
  shows "plain (Join '':'' (map (\<lambda>p. path_Join [home D, ''l/'' @ link_of A p]) ps))"
    "Join '':'' (map (\<lambda>p. path_Join [home D, ''l/'' @ link_of A p]) ps) \<noteq> ''''"
    "plain (lower_text A ps)" "lower_text A ps \<noteq> ''''"
proof -
  have p: "plain (path_Join [home D, ''l/'' @ link_of A p]) \<and> path_Join [home D, ''l/'' @ link_of A p] \<noteq> ''''" if "p \<in> set ps" for p
    using that assms(1,3,5) by (intro plain_path) (simp_all add: driver_ok_def)
  then show "plain (Join '':'' (map (\<lambda>p. path_Join [home D, ''l/'' @ link_of A p]) ps))" by (intro plain_Join) auto
  obtain q qs where q: "ps = q # qs" using assms(4) by (cases ps) auto
  then show "Join '':'' (map (\<lambda>p. path_Join [home D, ''l/'' @ link_of A p]) ps) \<noteq> ''''"
    using p [of q] by (cases qs) simp_all
  show "plain (lower_text A ps)" unfolding lower_text_def using assms(3) by (intro plain_Join) auto
  show "lower_text A ps \<noteq> ''''" using q by (cases qs) (simp_all add: lower_text_def)
qed

lemma upper_paths:
  assumes "driver_ok D" "name i" "plain (home D)" "plain i"
  shows "plain (path_Join [drv_dir D i, ''diff''])" "path_Join [drv_dir D i, ''diff''] \<noteq> ''''"
    "plain (path_Join [drv_dir D i, ''work''])" "path_Join [drv_dir D i, ''work''] \<noteq> ''''"
    "plain (path_Join [i, ''diff''])" "path_Join [i, ''diff''] \<noteq> ''''"
    "plain (path_Join [i, ''work''])" "path_Join [i, ''work''] \<noteq> ''''"
proof -
  have d: "plain (drv_dir D i)" "rooted (drv_dir D i)"
    using plain_path [of "home D" i] assms by (simp_all add: drv_dir_def driver_ok_def)
  show "plain (path_Join [drv_dir D i, ''diff''])" "path_Join [drv_dir D i, ''diff''] \<noteq> ''''"
    "plain (path_Join [drv_dir D i, ''work''])" "path_Join [drv_dir D i, ''work''] \<noteq> ''''"
    using plain_path [OF d(2,1), of "''diff''"] plain_path [OF d(2,1), of "''work''"] by simp_all
  show "plain (path_Join [i, ''diff''])" "path_Join [i, ''diff''] \<noteq> ''''"
    "plain (path_Join [i, ''work''])" "path_Join [i, ''work''] \<noteq> ''''"
    using relative_sub(1) [OF assms(2), of "''diff''"] relative_sub(1) [OF assms(2), of "''work''"] assms(4) by simp_all
qed

text \<open>
  C7: Getting a layer that nobody uses mounts it with options that the kernel module reads as the
  layers below in their order, the layer's own directory and its work directory.  The switch
  \<open>simp=on\<close> reaches the module if the options with absolute paths fit into a page; on a
  deeper stack the driver falls back to relative paths and loses the switch, and when these do
  not fit either it fails and leaves nothing behind.
\<close>

theorem mount_options_reach_kernel:
  assumes "nofault S" "driver_ok D" "implements_forest D A st" "A i = Some (x, ps)" "ps \<noteq> []" "unused D st i"
    and "plain (home D)" "plain i" "\<forall>p \<in> set ps. plain (link_of A p)" "label = '''' \<or> label = '',simp=on''" "\<forall>s. \<not> nomem s"
  shows "\<exists>r st'. drv_Get S D i label st = (r, st') \<and>
     (if length (abs_opts D i (lower_text A ps) @ label) \<le> page S then
        r = Ok (merged D i) \<and> (\<exists>wd data cfg. mountTable st' = (at D [i, ''merged''], wd, data) # mountTable st \<and>
          ovl_parse_opt P nomem (Some data) (default_config P) = (None, cfg) \<and>
          layer_config P (Join '':'' (map (\<lambda>p. path_Join [home D, ''l/'' @ link_of A p]) ps)) (getDiffPath D i)
            (path_Join [drv_dir D i, ''work'']) (label = '',simp=on'') cfg)
      else if length (rel_opts i (lower_text A ps)) \<le> page S then
        r = Ok (merged D i) \<and> (\<exists>wd data cfg. mountTable st' = (at D [i, ''merged''], wd, data) # mountTable st \<and>
          ovl_parse_opt P nomem (Some data) (default_config P) = (None, cfg) \<and>
          layer_config P (lower_text A ps) (path_Join [i, ''diff'']) (path_Join [i, ''work'']) False cfg)
      else (\<exists>e. r = Err e) \<and> files st' = files st \<and> mountTable st' = mountTable st \<and> counts st' = counts st)"
proof -
  let ?L = "lower_text A ps" and ?La = "Join '':'' (map (\<lambda>p. path_Join [home D, ''l/'' @ link_of A p]) ps)"
  have l: "layers_in D A st" using assms(3) by (simp add: implements_forest_def)
  then have la: "layer_at D A st i x ps" using assms(4) by (auto simp: layers_in_def)
  then have n: "name i" and k: "\<forall>p \<in> set ps. A p \<noteq> None" by (simp_all add: layer_at_def layer_name_def)
  note lp = lower_paths [OF assms(2) l _ assms(5,7)] and up = upper_paths [OF assms(2) n assms(7,8)]
  have pl: "\<forall>p \<in> set ps. A p \<noteq> None \<and> plain (link_of A p)" using k assms(9) by blast
  have ao: "abs_opts D i ?L = ''lowerdir='' @ ?La @ '',upperdir='' @ path_Join [drv_dir D i, ''diff''] @ '',workdir='' @ path_Join [drv_dir D i, ''work'']"
    unfolding abs_opts_def lower_parts [OF l k assms(5)] by (simp add: comp_def)
  obtain c where g: "drv_Get S D i label st =
     (if length (abs_opts D i ?L @ label) \<le> page S then (Ok (merged D i), mounted_state D i ''/'' (abs_opts D i ?L @ label) c st)
      else if length (rel_opts i ?L) \<le> page S then (Ok (merged D i), mounted_state D i (home D) (rel_opts i ?L) c st)
      else (Err (Errorf (''cannot mount layer, mount label too large '' @ show_nat (length (rel_opts i ?L)))), st\<lparr>clock := c\<rparr>))"
    using Get_ok [OF assms(1,2) l assms(4-6)] by blast
  consider (abs) "length (abs_opts D i ?L @ label) \<le> page S"
    | (rel) "\<not> length (abs_opts D i ?L @ label) \<le> page S" "length (rel_opts i ?L) \<le> page S"
    | (big) "\<not> length (abs_opts D i ?L @ label) \<le> page S" "\<not> length (rel_opts i ?L) \<le> page S" by blast
  then show ?thesis
  proof cases
    case abs
    obtain cfg where "ovl_parse_opt P nomem (Some (abs_opts D i ?L @ label)) (default_config P) = (None, cfg)"
      "layer_config P ?La (path_Join [drv_dir D i, ''diff'']) (path_Join [drv_dir D i, ''work'']) (label \<noteq> '''') cfg"
      using parse_layer_options [OF lp(1) [OF pl] up(1,3) lp(2) [OF pl] up(2,4) assms(11,10), of P] unfolding ao by blast
    moreover have "(label \<noteq> '''') = (label = '',simp=on'')" using assms(10) by auto
    ultimately show ?thesis using abs unfolding g by (auto simp: mounted_state_def getDiffPath_def)
  next
    case rel
    obtain cfg where "ovl_parse_opt P nomem (Some (rel_opts i ?L)) (default_config P) = (None, cfg)"
      "layer_config P ?L (path_Join [i, ''diff'']) (path_Join [i, ''work'']) False cfg"
      using parse_layer_options [OF lp(3) [OF pl] up(5,7) lp(4) [OF pl] up(6,8) assms(11), of "''''" P] unfolding rel_opts_def by auto
    then show ?thesis using rel unfolding g by (auto simp: mounted_state_def)
  next
    case big
    then show ?thesis unfolding g by simp
  qed
qed

text \<open>A driver with a base layer and one layer on it.\<close>

definition demo_sys :: sysEnv where
  "demo_sys = \<lparr>faults = (\<lambda>_. None), randomID = (\<lambda>_. ''NEW''), pageSize = 4096, RAMInBytes = (\<lambda>_. Inr 0)\<rparr>"

definition demo_driver :: Driver where
  "demo_driver =
     \<lparr>home = ''/d'', uidMaps = None, gidMaps = None, drvOptions = \<lparr>overrideKernelCheck = False, quotaSize = 0\<rparr>,
      hasQuotaCtl = False, projectQuotaSupported = False, supportsDType = True\<rparr>"

definition demo_forest :: forest where
  "demo_forest = [''base'' \<mapsto> (''B'', []), ''top'' \<mapsto> (''T'', [''base''])]"

definition demo_os :: osState where
  "demo_os =
     \<lparr>files = [[''d''] \<mapsto> Directory, [''d'', ''l''] \<mapsto> Directory,
        [''d'', ''base''] \<mapsto> Directory, [''d'', ''base'', ''link''] \<mapsto> Regular ''B'', [''d'', ''l'', ''B''] \<mapsto> Symlink ''../base/diff'',
        [''d'', ''top''] \<mapsto> Directory, [''d'', ''top'', ''link''] \<mapsto> Regular ''T'', [''d'', ''l'', ''T''] \<mapsto> Symlink ''../top/diff'',
        [''d'', ''top'', ''lower''] \<mapsto> Regular ''l/B''],
      mountTable = [], counts = Map.empty, clock = 0\<rparr>"

lemma demo_home: "comps (home demo_driver) = [''d'']"
  by (simp add: demo_driver_def comps_def clean_step_def)

lemma demo_driver_ok: "nofault demo_sys" "driver_ok demo_driver"
  by (simp_all add: nofault_def demo_sys_def driver_ok_def demo_driver_def GetRootUIDGID_def toHost_def)

lemma demo_implements: "implements_forest demo_driver demo_forest demo_os"
proof -
  have "layer_at demo_driver demo_forest demo_os i x ps" if "demo_forest i = Some (x, ps)" for i x ps
    using that by (auto simp: layer_at_def demo_home demo_forest_def demo_os_def layer_name_def link_name_def name_def maxDepth_def
        lower_text_def link_of_def split: if_splits)
  moreover have "files demo_os (at demo_driver (i # k)) = None" if "layer_name i" "demo_forest i = None" for i k
    using that by (auto simp: demo_home demo_forest_def demo_os_def layer_name_def split: if_splits)
  ultimately show ?thesis
    unfolding implements_forest_def layers_in_def by (simp add: demo_home) (simp add: demo_os_def)
qed

theorem overlay2_create_stacks_witness:
  "\<exists>st'. drv_Create demo_sys demo_driver ''new'' ''top'' [] demo_os = (Ok (), st') \<and>
     fst (getLowerDirs demo_sys demo_driver ''new'' st') = Ok [''/d/top/diff'', ''/d/base/diff'']"
proof -
  have c: "can_create demo_sys demo_driver demo_forest demo_os ''new''"
    unfolding can_create_def demo_home by (simp add: layer_name_def name_def link_name_def demo_forest_def demo_sys_def demo_os_def)
  have b: "below demo_forest ''top'' = Some [''top'', ''base'']" by (simp add: below_def demo_forest_def)
  have m: "length [''top'', ''base''] \<le> maxDepth" by (simp add: maxDepth_def)
  have d: "map (getDiffPath demo_driver) [''top'', ''base''] = [''/d/top/diff'', ''/d/base/diff'']" by code_simp
  from overlay2_create_stacks [OF demo_driver_ok demo_implements c b] show ?thesis unfolding if_P [OF m] d by blast
qed

theorem mount_options_reach_kernel_witness:
  "\<exists>st' data cfg. drv_Get demo_sys demo_driver ''top'' '',simp=on'' demo_os = (Ok (merged demo_driver ''top''), st') \<and>
     ovl_parse_opt plain_params (\<lambda>_. False) (Some data) (default_config plain_params) = (None, cfg) \<and> simp_on cfg"
proof -
  have a: "demo_forest ''top'' = Some (''T'', [''base''])" by (simp add: demo_forest_def)
  have u: "unused demo_driver demo_os ''top''" unfolding unused_def demo_home by (simp add: demo_os_def)
  have p: "plain (home demo_driver)" "plain ''top''" "\<forall>p \<in> set [''base'']. plain (link_of demo_forest p)"
    by (simp_all add: demo_driver_def link_of_def demo_forest_def)
  have s: "length (abs_opts demo_driver ''top'' (lower_text demo_forest [''base'']) @ '',simp=on'') \<le> page demo_sys"
    by code_simp
  from mount_options_reach_kernel [OF demo_driver_ok demo_implements a _ u p disjI2 [OF refl], of "\<lambda>_. False" plain_params]
  show ?thesis unfolding if_P [OF s] by (auto simp: layer_config_def)
qed

text \<open>
  With a page that the absolute options of this mount do not fit into, the switch is lost: the
  mount succeeds, and the module copies nothing on access.
\<close>

lemma simp_lost_on_small_page:
  "\<exists>st' wd data cfg. drv_Get (demo_sys\<lparr>pageSize := 60\<rparr>) demo_driver ''top'' '',simp=on'' demo_os = (Ok (merged demo_driver ''top''), st') \<and>
     mountTable st' = [([''d'', ''top'', ''merged''], wd, data)] \<and>
     ovl_parse_opt plain_params (\<lambda>_. False) (Some data) (default_config plain_params) = (None, cfg) \<and> \<not> simp_on cfg"
proof -
  let ?S = "demo_sys\<lparr>pageSize := 60\<rparr>"
  have S: "nofault ?S" by (simp add: nofault_def demo_sys_def)
  have l: "layers_in demo_driver demo_forest demo_os" using demo_implements by (simp add: implements_forest_def)
  have a: "demo_forest ''top'' = Some (''T'', [''base''])" by (simp add: demo_forest_def)
  have u: "unused demo_driver demo_os ''top''" unfolding unused_def demo_home by (simp add: demo_os_def)
  let ?L = "lower_text demo_forest [''base'']"
  have s: "\<not> length (abs_opts demo_driver ''top'' ?L @ '',simp=on'') \<le> page ?S" "length (rel_opts ''top'' ?L) \<le> page ?S"
    by code_simp+
  obtain c where "drv_Get ?S demo_driver ''top'' '',simp=on'' demo_os =
      (Ok (merged demo_driver ''top''), mounted_state demo_driver ''top'' (home demo_driver) (rel_opts ''top'' ?L) c demo_os)"
    using Get_ok [OF S demo_driver_ok(2) l a _ u, of "'',simp=on''"] unfolding if_not_P [OF s(1)] if_P [OF s(2)] by auto
  moreover have "rel_opts ''top'' ?L = ''lowerdir=l/B,upperdir=top/diff,workdir=top/work''" by code_simp
  moreover have "\<exists>cfg. ovl_parse_opt plain_params (\<lambda>_. False) (Some (''lowerdir='' @ ''l/B'' @ '',upperdir='' @ ''top/diff'' @ '',workdir='' @ ''top/work'' @ ''''))
      (default_config plain_params) = (None, cfg) \<and> \<not> simp_on cfg"
    using parse_layer_options [of "''l/B''" "''top/diff''" "''top/work''" "\<lambda>_. False" "''''" plain_params] by (auto simp: layer_config_def)
  ultimately show ?thesis unfolding mounted_state_def demo_home by (auto simp: demo_os_def)
qed

section \<open>Putting a layer back\<close>

text \<open>The last user of a layer unmounts it and leaves the state as it was before the first.\<close>

lemma Put_undoes_Get:
  assumes "nofault S" "driver_ok D" "layers_in D A st" "A i = Some (x, ps)" "ps \<noteq> []" "unused D st i"
  shows "\<exists>c'. drv_Put S D i (mounted_state D i wd data c st) = (Ok (), st\<lparr>clock := c'\<rparr>)"
proof -
  have l: "layer_at D A st i x ps" using assms(3,4) by (auto simp: layers_in_def)
  then have n: "name i" by (simp add: layer_at_def layer_name_def)
  have u: "counts st (merged D i) = None" "files st (at D [i, ''merged'']) = None" "\<forall>m \<in> set (mountTable st). fst m \<noteq> at D [i, ''merged'']"
    using assms(6) by (simp_all add: unused_def)
  have cm: "comps (merged D i) = at D [i, ''merged'']" using assms(2) n by (simp add: merged_def)
  have none: "(counts st)(merged D i := None) = counts st" "(files st)(at D [i, ''merged''] := None) = files st"
    using u by (simp_all add: fun_upd_idem)
  let ?F = "(files st)(at D [i, ''merged''] \<mapsto> Directory)" and ?M = "(at D [i, ''merged''], wd, data) # mountTable st"
  have 1: "os_ReadFile S (path_Join [drv_dir D i, lowerFile]) (mounted_state D i wd data c st) =
     (Ok (lower_text A ps), mounted_state D i wd data (c + 1) st)"
    using l n assms(1,2,5)
    by (subst ReadFile_some [of S _ _ "lower_text A ps"]) (simp_all add: layer_at_def lowerFile_def mounted_state_def)
  have 2: "Decrement (merged D i) (mounted_state D i wd data (c + 1) st) = (Ok 0, st\<lparr>files := ?F, mountTable := ?M, clock := c + 1\<rparr>)"
    using none(1) by (simp add: Decrement_def incdec_def Let_def mounted_state_def)
  have 3: "os_Unmount S (merged D i) (st\<lparr>files := ?F, mountTable := ?M, clock := c + 1\<rparr>) = (Ok (), st\<lparr>files := ?F, clock := c + 2\<rparr>)"
    using cm by (simp add: os_Unmount_def os_call_ok [OF assms(1)])
  have 4: "os_Rmdir S (merged D i) (st\<lparr>files := ?F, clock := c + 2\<rparr>) = (Ok (), st\<lparr>clock := c + 3\<rparr>)"
    using u(3) cm none(2) by (auto simp: os_Rmdir_def os_call_ok [OF assms(1)] list_ex_iff)
  show ?thesis
    unfolding drv_Put_def Let_def merged_def [symmetric]
    by (intro exI [of _ "c + 3"]) (simp only: bindM_def attempt_def tryM_def 1 2 3 4 prod.case outcome.case sum.case ret_def less_irrefl if_False)
qed

end
