(* ===== verification/Overlay_State.thy ===== *)
theory Overlay_State
  imports Overlay_Options
begin

text \<open>
  The state of a mounted overlay (\<open>overlayfs/ovl_entry.h\<close>) and the accessors of
  \<open>overlayfs/util.c\<close>.  The file systems below the overlay, and the kernel services the module
  calls, are the record \<open>'w vfs\<close> of functions over a state \<open>'w\<close>; a dentry of an underlying file
  system is a number.  An overlay dentry is named by its path, the last component first, so
  that its parent is the tail of the path and the root is the empty path.  The credentials
  the module switches to have no effect on its state and are left out.
\<close>

section \<open>The file systems below\<close>

datatype ftype = S_IFREG | S_IFDIR | S_IFLNK | S_IFCHR | S_IFBLK | S_IFIFO | S_IFSOCK

definition special_file :: "ftype \<Rightarrow> bool" where
  "special_file t \<longleftrightarrow> t \<in> {S_IFCHR, S_IFBLK, S_IFIFO, S_IFSOCK}"

record iattrs =
  aUid :: nat
  aGid :: nat
  aMode :: nat
  aAtime :: nat
  aMtime :: nat
  aCtime :: nat

record kstat =
  kType :: ftype
  kMode :: nat
  kNlink :: "32 word"
  kSize :: nat
  kIno :: "64 word"
  kDev :: nat
  kRdev :: nat
  kUid :: nat
  kGid :: nat
  kAtime :: nat
  kMtime :: nat

record iattr =
  ia_mode :: "nat option"
  ia_ids :: "(nat \<times> nat) option"
  ia_times :: "(nat \<times> nat) option"
  ia_kill_priv :: bool

text \<open>What the module reads of a dentry below: its inode, if it has one, and its super block.\<close>

record rdentry =
  rInode :: "nat option"
  rType :: ftype
  rNlink :: "32 word"
  rIno :: "64 word"
  rAttrs :: iattrs
  rRemote :: bool
  rWeird :: bool
  rWhiteout :: bool
  rAppend :: bool
  rXattrOps :: bool
  rUnhashed :: bool
  rName :: string
  rParent :: nat
  rExportOp :: "(bool \<times> bool) option"
  rUuidNull :: bool
  rUuid :: string

text \<open>A service that can fail with an error number, and one that only returns a value.\<close>

type_synonym ('w, 'a) sys = "'w \<Rightarrow> (int + 'a) \<times> 'w"

type_synonym ('w, 'a) ask = "'w \<Rightarrow> 'a \<times> 'w"

record 'w vfs =
  rd :: "'w \<Rightarrow> nat \<Rightarrow> rdentry"
  kalloc :: "('w, unit) sys"
  mutex_interrupted :: "('w, unit) sys"
  mnt_want_write :: "('w, unit) sys"
  mnt_drop_write :: "'w \<Rightarrow> 'w"
  vfs_getattr :: "nat \<Rightarrow> ('w, kstat) sys"
  vfs_get_link :: "nat \<Rightarrow> ('w, string) sys"
  vfs_getxattr :: "nat \<Rightarrow> string \<Rightarrow> nat \<Rightarrow> ('w, nat \<times> string) sys"
  vfs_setxattr :: "nat \<Rightarrow> string \<Rightarrow> string \<Rightarrow> ('w, unit) sys"
  vfs_removexattr :: "nat \<Rightarrow> string \<Rightarrow> ('w, unit) sys"
  vfs_listxattr :: "nat \<Rightarrow> nat \<Rightarrow> ('w, nat \<times> string) sys"
  notify_change :: "nat \<Rightarrow> iattr \<Rightarrow> ('w, unit) sys"
  lookup_one_len :: "string \<Rightarrow> nat \<Rightarrow> ('w, nat) sys"
  vfs_create :: "nat \<Rightarrow> nat \<Rightarrow> nat \<Rightarrow> ('w, unit) sys"
  vfs_mkdir :: "nat \<Rightarrow> nat \<Rightarrow> nat \<Rightarrow> ('w, unit) sys"
  vfs_mknod :: "nat \<Rightarrow> nat \<Rightarrow> nat \<Rightarrow> nat \<Rightarrow> ('w, unit) sys"
  vfs_symlink :: "nat \<Rightarrow> nat \<Rightarrow> string \<Rightarrow> ('w, unit) sys"
  vfs_link :: "nat \<Rightarrow> nat \<Rightarrow> nat \<Rightarrow> ('w, unit) sys"
  vfs_rename :: "nat \<Rightarrow> nat \<Rightarrow> nat \<Rightarrow> nat \<Rightarrow> bool \<Rightarrow> ('w, unit) sys"
  vfs_rmdir :: "nat \<Rightarrow> nat \<Rightarrow> ('w, unit) sys"
  vfs_unlink :: "nat \<Rightarrow> nat \<Rightarrow> ('w, unit) sys"
  vfs_whiteout :: "nat \<Rightarrow> nat \<Rightarrow> ('w, unit) sys"
  vfs_tmpfile :: "nat \<Rightarrow> nat \<Rightarrow> ('w, nat) sys"
  lock_rename_trap :: "nat \<Rightarrow> nat \<Rightarrow> ('w, bool) ask"
  dentry_open :: "nat \<Rightarrow> bool \<Rightarrow> ('w, unit) sys"
  vfs_clone_file_range :: "nat \<Rightarrow> nat \<Rightarrow> nat \<Rightarrow> ('w, unit) sys"
  do_splice_direct :: "nat \<Rightarrow> nat \<Rightarrow> nat \<Rightarrow> nat \<Rightarrow> nat \<Rightarrow> ('w, int) ask"
  vfs_fsync :: "nat \<Rightarrow> ('w, unit) sys"
  signal_pending :: "('w, bool) ask"
  security_inode_copy_up :: "('w, unit) sys"
  security_inode_copy_up_xattr :: "string \<Rightarrow> ('w, int) ask"
  exportfs_encode_fh :: "nat \<Rightarrow> ('w, int \<times> string) ask"
  temp_id :: "('w, nat) ask"

section \<open>The overlay\<close>

datatype ovl_inode_flag = OVL_IMPURE | OVL_WHITEOUTS | OVL_INDEX

datatype ovl_entry_flag = OVL_E_UPPER_ALIAS | OVL_E_OPAQUE | OVL_E_CONNECTED

datatype ovl_path_bit = PATH_UPPER | PATH_MERGE | PATH_ORIGIN

record ovl_layer =
  layerIdx :: nat
  layerFsid :: nat

type_synonym dpath = "string list"

text \<open>An overlay dentry with the private data hanging off it (\<open>struct ovl_entry\<close>).\<close>

record odentry =
  d_inode :: nat
  d_negative :: bool
  d_type :: ftype
  d_disconnected :: bool
  oeFlags :: "ovl_entry_flag set"
  lowerstack :: "(ovl_layer \<times> nat) list"

record ovl_inode =
  oiRedirect :: "string option"
  oiVersion :: "64 word"
  oiFlags :: "ovl_inode_flag set"
  upperdentry :: "nat option"
  oiLower :: "nat option"
  i_type :: ftype
  i_ino :: "64 word"
  i_nlink :: "32 word"
  i_attrs :: iattrs
  i_private :: "nat option"

record ovl_fs =
  config :: ovl_config
  upper_mnt :: bool
  upper_sb :: nat
  lower_fs :: "(nat \<times> nat) list"
  workdir :: "nat option"
  indexdir :: "nat option"
  tmpfile :: bool
  noxattr :: bool
  xino_bits :: nat
  exported :: bool
  s_dev :: nat

record 'w ovl =
  ofs :: ovl_fs
  dents :: "dpath \<Rightarrow> odentry"
  inodes :: "nat \<Rightarrow> ovl_inode"
  world :: 'w

definition sysM :: "('w, 'a) sys \<Rightarrow> ('w ovl, 'a) M" where
  "sysM f st =
     (case f (world st) of
        (Inl e, w) \<Rightarrow> (Err (Errno e), st\<lparr>world := w\<rparr>)
      | (Inr a, w) \<Rightarrow> (Ok a, st\<lparr>world := w\<rparr>))"

definition askM :: "('w, 'a) ask \<Rightarrow> ('w ovl, 'a) M" where
  "askM f st = (case f (world st) of (a, w) \<Rightarrow> (Ok a, st\<lparr>world := w\<rparr>))"

definition updInode :: "nat \<Rightarrow> (ovl_inode \<Rightarrow> ovl_inode) \<Rightarrow> 'w ovl \<Rightarrow> 'w ovl" where
  "updInode i f st = st\<lparr>inodes := (inodes st)(i := f (inodes st i))\<rparr>"

definition updDentry :: "dpath \<Rightarrow> (odentry \<Rightarrow> odentry) \<Rightarrow> 'w ovl \<Rightarrow> 'w ovl" where
  "updDentry d f st = st\<lparr>dents := (dents st)(d := f (dents st d))\<rparr>"

abbreviation inodeOf :: "'w ovl \<Rightarrow> dpath \<Rightarrow> ovl_inode" where
  "inodeOf st d \<equiv> inodes st (d_inode (dents st d))"

definition d_is_dir :: "'w ovl \<Rightarrow> dpath \<Rightarrow> bool" where
  "d_is_dir st d \<longleftrightarrow> d_type (dents st d) = S_IFDIR"

text \<open>\<open>mnt_want_write\<close> and \<open>mnt_drop_write\<close> dereference the upper mount.\<close>

definition ovl_want_write :: "'w vfs \<Rightarrow> ('w ovl, unit) M" where
  "ovl_want_write V = bindM getM (\<lambda>st. if upper_mnt (ofs st) then sysM (mnt_want_write V) else nilDeref)"

definition ovl_drop_write :: "'w vfs \<Rightarrow> ('w ovl, unit) M" where
  "ovl_drop_write V = updM (\<lambda>st. st\<lparr>world := mnt_drop_write V (world st)\<rparr>)"

definition ovl_same_sb :: "ovl_fs \<Rightarrow> nat option" where
  "ovl_same_sb fs =
     (case lower_fs fs of
        [] \<Rightarrow> Some (upper_sb fs)
      | [(sb, dev)] \<Rightarrow> if upper_mnt fs then None else Some sb
      | _ \<Rightarrow> None)"

definition FILEID_INO32_GEN :: int where
  "FILEID_INO32_GEN = 1"

definition ovl_can_decode_fh :: "rdentry \<Rightarrow> int" where
  "ovl_can_decode_fh r =
     (case rExportOp r of
        None \<Rightarrow> 0
      | Some (fh_to_dentry, encode_fh) \<Rightarrow>
          if \<not> fh_to_dentry \<or> rUuidNull r then 0 else if encode_fh then -1 else FILEID_INO32_GEN)"

definition ovl_index_all :: "ovl_fs \<Rightarrow> bool" where
  "ovl_index_all fs \<longleftrightarrow> nfs_export (config fs) \<and> cfgIndex (config fs)"

definition ovl_verify_lower :: "ovl_fs \<Rightarrow> bool" where
  "ovl_verify_lower fs \<longleftrightarrow> nfs_export (config fs) \<and> cfgIndex (config fs)"

definition ovl_dentry_upper :: "'w ovl \<Rightarrow> dpath \<Rightarrow> nat option" where
  "ovl_dentry_upper st d = upperdentry (inodeOf st d)"

definition ovl_dentry_lower :: "'w ovl \<Rightarrow> dpath \<Rightarrow> nat option" where
  "ovl_dentry_lower st d = (case lowerstack (dents st d) of [] \<Rightarrow> None | (l, r) # _ \<Rightarrow> Some r)"

definition ovl_layer_lower :: "'w ovl \<Rightarrow> dpath \<Rightarrow> ovl_layer option" where
  "ovl_layer_lower st d = (case lowerstack (dents st d) of [] \<Rightarrow> None | (l, r) # _ \<Rightarrow> Some l)"

definition orElse :: "'a option \<Rightarrow> 'a option \<Rightarrow> 'a option" where
  "orElse x y = (case x of Some a \<Rightarrow> Some a | None \<Rightarrow> y)"

definition ovl_dentry_real :: "'w ovl \<Rightarrow> dpath \<Rightarrow> nat option" where
  "ovl_dentry_real st d = orElse (ovl_dentry_upper st d) (ovl_dentry_lower st d)"

definition ovl_path_type :: "'w ovl \<Rightarrow> dpath \<Rightarrow> ovl_path_bit set" where
  "ovl_path_type st d =
     (if ovl_dentry_upper st d \<noteq> None then
        {PATH_UPPER} \<union>
        (if lowerstack (dents st d) \<noteq> [] then {PATH_ORIGIN} \<union> (if d_is_dir st d then {PATH_MERGE} else {}) else {})
      else if length (lowerstack (dents st d)) > 1 then {PATH_MERGE} else {})"

text \<open>The dentry of \<open>ovl_path_upper\<close>, \<open>ovl_path_lower\<close> and \<open>ovl_path_real\<close>; the mount goes with it.\<close>

definition ovl_path_real :: "'w ovl \<Rightarrow> dpath \<Rightarrow> ovl_path_bit set \<times> nat option" where
  "ovl_path_real st d =
     (ovl_path_type st d,
      if PATH_UPPER \<in> ovl_path_type st d then ovl_dentry_upper st d else ovl_dentry_lower st d)"

definition ovl_inode_upper :: "'w vfs \<Rightarrow> 'w ovl \<Rightarrow> nat \<Rightarrow> nat option" where
  "ovl_inode_upper V st i =
     (case upperdentry (inodes st i) of None \<Rightarrow> None | Some u \<Rightarrow> rInode (rd V (world st) u))"

definition ovl_inode_lower :: "'w ovl \<Rightarrow> nat \<Rightarrow> nat option" where
  "ovl_inode_lower st i = oiLower (inodes st i)"

definition ovl_inode_real :: "'w vfs \<Rightarrow> 'w ovl \<Rightarrow> nat \<Rightarrow> nat option" where
  "ovl_inode_real V st i = orElse (ovl_inode_upper V st i) (ovl_inode_lower st i)"

section \<open>Flags\<close>

definition ovl_dentry_set_flag :: "ovl_entry_flag \<Rightarrow> dpath \<Rightarrow> ('w ovl, unit) M" where
  "ovl_dentry_set_flag f d = updM (updDentry d (\<lambda>e. e\<lparr>oeFlags := insert f (oeFlags e)\<rparr>))"

definition ovl_dentry_clear_flag :: "ovl_entry_flag \<Rightarrow> dpath \<Rightarrow> ('w ovl, unit) M" where
  "ovl_dentry_clear_flag f d = updM (updDentry d (\<lambda>e. e\<lparr>oeFlags := oeFlags e - {f}\<rparr>))"

definition ovl_dentry_test_flag :: "ovl_entry_flag \<Rightarrow> 'w ovl \<Rightarrow> dpath \<Rightarrow> bool" where
  "ovl_dentry_test_flag f st d \<longleftrightarrow> f \<in> oeFlags (dents st d)"

definition ovl_dentry_is_opaque :: "'w ovl \<Rightarrow> dpath \<Rightarrow> bool" where
  "ovl_dentry_is_opaque = ovl_dentry_test_flag OVL_E_OPAQUE"

definition ovl_dentry_is_whiteout :: "'w ovl \<Rightarrow> dpath \<Rightarrow> bool" where
  "ovl_dentry_is_whiteout st d \<longleftrightarrow> d_negative (dents st d) \<and> ovl_dentry_is_opaque st d"

definition ovl_dentry_set_opaque :: "dpath \<Rightarrow> ('w ovl, unit) M" where
  "ovl_dentry_set_opaque = ovl_dentry_set_flag OVL_E_OPAQUE"

definition ovl_dentry_has_upper_alias :: "'w ovl \<Rightarrow> dpath \<Rightarrow> bool" where
  "ovl_dentry_has_upper_alias = ovl_dentry_test_flag OVL_E_UPPER_ALIAS"

definition ovl_dentry_set_upper_alias :: "dpath \<Rightarrow> ('w ovl, unit) M" where
  "ovl_dentry_set_upper_alias = ovl_dentry_set_flag OVL_E_UPPER_ALIAS"

definition ovl_set_flag :: "ovl_inode_flag \<Rightarrow> nat \<Rightarrow> ('w ovl, unit) M" where
  "ovl_set_flag f i = updM (updInode i (\<lambda>n. n\<lparr>oiFlags := insert f (oiFlags n)\<rparr>))"

definition ovl_clear_flag :: "ovl_inode_flag \<Rightarrow> nat \<Rightarrow> ('w ovl, unit) M" where
  "ovl_clear_flag f i = updM (updInode i (\<lambda>n. n\<lparr>oiFlags := oiFlags n - {f}\<rparr>))"

definition ovl_test_flag :: "ovl_inode_flag \<Rightarrow> 'w ovl \<Rightarrow> nat \<Rightarrow> bool" where
  "ovl_test_flag f st i \<longleftrightarrow> f \<in> oiFlags (inodes st i)"

definition ovl_redirect_dir :: "ovl_fs \<Rightarrow> bool" where
  "ovl_redirect_dir fs \<longleftrightarrow> redirect_dir (config fs) \<and> \<not> noxattr fs"

definition ovl_dentry_get_redirect :: "'w ovl \<Rightarrow> dpath \<Rightarrow> string option" where
  "ovl_dentry_get_redirect st d = oiRedirect (inodeOf st d)"

definition ovl_dentry_set_redirect :: "dpath \<Rightarrow> string option \<Rightarrow> ('w ovl, unit) M" where
  "ovl_dentry_set_redirect d r = updM (\<lambda>st. updInode (d_inode (dents st d)) (\<lambda>n. n\<lparr>oiRedirect := r\<rparr>) st)"

section \<open>Inodes\<close>

text \<open>\<open>inode\<close> gets its real dentries; without an upper dentry the lower one is the real one.\<close>

definition ovl_inode_init :: "'w vfs \<Rightarrow> nat \<Rightarrow> nat option \<Rightarrow> nat option \<Rightarrow> ('w ovl, unit) M" where
  "ovl_inode_init V i upper lower =
     (case orElse upper lower of
        None \<Rightarrow> nilDeref
      | Some r \<Rightarrow> updM (\<lambda>st.
          let real = rd V (world st) r in
          updInode i (\<lambda>n. n
            \<lparr>upperdentry := (if upper \<noteq> None then upper else upperdentry n),
             oiLower := (case lower of None \<Rightarrow> oiLower n | Some l \<Rightarrow> rInode (rd V (world st) l)),
             i_attrs := rAttrs real, i_type := rType real,
             i_ino := (if i_ino n = 0 then rIno real else i_ino n)\<rparr>) st))"

text \<open>An unhashed inode, one without \<open>i_private\<close>, is hashed by its new upper inode.\<close>

definition ovl_inode_update :: "'w vfs \<Rightarrow> nat \<Rightarrow> nat \<Rightarrow> ('w ovl, unit) M" where
  "ovl_inode_update V i upper =
     updM (\<lambda>st. updInode i (\<lambda>n.
       let n1 = n\<lparr>upperdentry := Some upper\<rparr> in
       if i_private n1 = None
       then n1\<lparr>i_ino := (if i_ino n1 = 0 then rIno (rd V (world st) upper) else i_ino n1),
               i_private := rInode (rd V (world st) upper)\<rparr>
       else n1) st)"

definition ovl_dentry_version_inc :: "dpath \<Rightarrow> bool \<Rightarrow> ('w ovl, unit) M" where
  "ovl_dentry_version_inc d impurity =
     updM (\<lambda>st. if PATH_MERGE \<in> ovl_path_type st d \<or> impurity
                then updInode (d_inode (dents st d)) (\<lambda>n. n\<lparr>oiVersion := oiVersion n + 1\<rparr>) st else st)"

definition ovl_dentry_version_get :: "'w ovl \<Rightarrow> dpath \<Rightarrow> 64 word" where
  "ovl_dentry_version_get st d = oiVersion (inodeOf st d)"

definition ovl_is_whiteout :: "rdentry \<Rightarrow> bool" where
  "ovl_is_whiteout r \<longleftrightarrow> rInode r \<noteq> None \<and> rWhiteout r"

section \<open>Extended attributes\<close>

definition OVL_XATTR_PREFIX :: string where "OVL_XATTR_PREFIX = ''trusted.overlay.''"
definition OVL_XATTR_OPAQUE :: string where "OVL_XATTR_OPAQUE = OVL_XATTR_PREFIX @ ''opaque''"
definition OVL_XATTR_REDIRECT :: string where "OVL_XATTR_REDIRECT = OVL_XATTR_PREFIX @ ''redirect''"
definition OVL_XATTR_ORIGIN :: string where "OVL_XATTR_ORIGIN = OVL_XATTR_PREFIX @ ''origin''"
definition OVL_XATTR_IMPURE :: string where "OVL_XATTR_IMPURE = OVL_XATTR_PREFIX @ ''impure''"
definition OVL_XATTR_NLINK :: string where "OVL_XATTR_NLINK = OVL_XATTR_PREFIX @ ''nlink''"
definition OVL_XATTR_UPPER :: string where "OVL_XATTR_UPPER = OVL_XATTR_PREFIX @ ''upper''"

definition ovl_check_origin_xattr :: "'w vfs \<Rightarrow> nat \<Rightarrow> ('w ovl, bool) M" where
  "ovl_check_origin_xattr V r =
     bindM (tryM (sysM (vfs_getxattr V r OVL_XATTR_ORIGIN 0))) (\<lambda>o1. ret (o1 \<noteq> None))"

definition ovl_check_dir_xattr :: "'w vfs \<Rightarrow> nat \<Rightarrow> string \<Rightarrow> ('w ovl, bool) M" where
  "ovl_check_dir_xattr V r name =
     bindM getM (\<lambda>st.
     if rType (rd V (world st) r) \<noteq> S_IFDIR then ret False
     else bindM (tryM (sysM (vfs_getxattr V r name 1))) (\<lambda>o1. ret (o1 = Some (1, ''y''))))"

definition ovl_check_setxattr :: "'w vfs \<Rightarrow> nat \<Rightarrow> string \<Rightarrow> string \<Rightarrow> int \<Rightarrow> ('w ovl, unit) M" where
  "ovl_check_setxattr V upper name val xerr =
     (let done = (if xerr = 0 then ret () else raise (Errno xerr)) in
      bindM getM (\<lambda>st.
      if noxattr (ofs st) then done
      else catchM (sysM (vfs_setxattr V upper name val)) (\<lambda>e.
             if e = Errno (- EOPNOTSUPP)
             then bindM (updM (\<lambda>st. st\<lparr>ofs := (ofs st)\<lparr>noxattr := True\<rparr>\<rparr>)) (\<lambda>_. done)
             else raise e)))"

definition ovl_set_impure :: "'w vfs \<Rightarrow> dpath \<Rightarrow> nat \<Rightarrow> ('w ovl, unit) M" where
  "ovl_set_impure V d upper =
     bindM getM (\<lambda>st.
     if ovl_test_flag OVL_IMPURE st (d_inode (dents st d)) then ret ()
     else bindM (ovl_check_setxattr V upper OVL_XATTR_IMPURE ''y'' 0) (\<lambda>_.
          ovl_set_flag OVL_IMPURE (d_inode (dents st d))))"

section \<open>Exclusive use of upper and work directories\<close>

text \<open>The set holds the inodes marked \<open>I_OVL_INUSE\<close>.\<close>

definition ovl_inuse_trylock :: "nat \<Rightarrow> nat set \<Rightarrow> bool \<times> nat set" where
  "ovl_inuse_trylock i inuse = (if i \<notin> inuse then (True, insert i inuse) else (False, inuse))"

definition ovl_inuse_unlock :: "nat option \<Rightarrow> nat set \<Rightarrow> nat set" where
  "ovl_inuse_unlock d inuse = (case d of None \<Rightarrow> inuse | Some i \<Rightarrow> inuse - {i})"

section \<open>Copy up bookkeeping\<close>

text \<open>
  Waiting for the inode lock lets other threads copy files up, which \<open>race\<close> stands for.
  \<open>True\<close> is the return value 1: the file has been copied up already.
\<close>

definition ovl_copy_up_start :: "'w vfs \<Rightarrow> ('w ovl \<Rightarrow> 'w ovl) \<Rightarrow> dpath \<Rightarrow> ('w ovl, bool) M" where
  "ovl_copy_up_start V race d =
     bindM (sysM (mutex_interrupted V)) (\<lambda>_.
     bindM (updM race) (\<lambda>_.
     bindM getM (\<lambda>st. ret (ovl_dentry_has_upper_alias st d))))"

definition ovl_need_index :: "'w vfs \<Rightarrow> 'w ovl \<Rightarrow> dpath \<Rightarrow> bool" where
  "ovl_need_index V st d =
     (case ovl_dentry_lower st d of
        None \<Rightarrow> False
      | Some l \<Rightarrow>
          let r = rd V (world st) l in
          indexdir (ofs st) \<noteq> None \<and> (ovl_index_all (ofs st) \<or> (rType r \<noteq> S_IFDIR \<and> rNlink r > 1)))"

definition ovl_lock_rename_workdir :: "'w vfs \<Rightarrow> nat \<Rightarrow> nat \<Rightarrow> ('w ovl, unit) M" where
  "ovl_lock_rename_workdir V work upper =
     (if work = upper then raise (Errno (- EIO))
      else bindM (askM (lock_rename_trap V work upper)) (\<lambda>trap.
           if trap then raise (Errno (- EIO)) else ret ()))"

end
