(* ===== verification/Overlay_Handle.thy ===== *)
theory Overlay_Handle
  imports Overlay_State
begin

text \<open>
  File handles of real inodes, the names of index entries built from them and the helpers
  that create and remove real files (\<open>overlayfs/copy_up.c\<close>, \<open>overlayfs/namei.c\<close>,
  \<open>overlayfs/dir.c\<close>).  A handle is the byte string of \<open>struct ovl_fh\<close>; the CPU is little endian.
\<close>

section \<open>File handles\<close>

definition OVL_FH_VERSION :: nat where "OVL_FH_VERSION = 0"
definition OVL_FH_MAGIC :: nat where "OVL_FH_MAGIC = 0xfb"
definition OVL_FH_FLAG_PATH_UPPER :: nat where "OVL_FH_FLAG_PATH_UPPER = 4"
definition OVL_FH_FLAG_CPU_ENDIAN :: nat where "OVL_FH_FLAG_CPU_ENDIAN = 0"
definition MAX_HANDLE_SZ :: nat where "MAX_HANDLE_SZ = 128"
definition FILEID_INVALID :: int where "FILEID_INVALID = 0xff"
definition ESTALE :: int where "ESTALE = 116"

text \<open>\<open>offsetof(struct ovl_fh, fid)\<close>: five bytes and the uuid.\<close>

definition fh_header :: nat where "fh_header = 21"

definition fh_byte :: "nat \<Rightarrow> string \<Rightarrow> nat" where
  "fh_byte k s = of_char (s ! k)"

definition ovl_encode_real_fh :: "'w vfs \<Rightarrow> nat \<Rightarrow> bool \<Rightarrow> ('w ovl, string) M" where
  "ovl_encode_real_fh V real is_upper =
     bindM (sysM (kalloc V)) (\<lambda>_.
     bindM (askM (exportfs_encode_fh V real)) (\<lambda>(fh_type, fid).
     if fh_type < 0 \<or> length fid > MAX_HANDLE_SZ \<or> fh_type = FILEID_INVALID then raise (Errno (- EIO))
     else
       bindM (sysM (kalloc V)) (\<lambda>_.
       bindM getM (\<lambda>st.
       ret ([char_of OVL_FH_VERSION, char_of OVL_FH_MAGIC, char_of (fh_header + length fid),
             char_of (if is_upper then OVL_FH_FLAG_CPU_ENDIAN + OVL_FH_FLAG_PATH_UPPER else OVL_FH_FLAG_CPU_ENDIAN),
             char_of (nat fh_type)]
            @ rUuid (rd V (world st) real) @ fid)))))"

text \<open>Flag bits 0, 1 and 2 are big endian, any endian and path upper.\<close>

definition ovl_check_fh_len :: "string \<Rightarrow> int" where
  "ovl_check_fh_len s =
     (if length s < fh_header \<or> length s < fh_byte 2 s then - EINVAL
      else if fh_byte 1 s \<noteq> OVL_FH_MAGIC then - EINVAL
      else if fh_byte 0 s > OVL_FH_VERSION \<or> fh_byte 3 s div 8 \<noteq> 0 then - ENODATA
      else if even (fh_byte 3 s div 2) \<and> fh_byte 3 s mod 2 \<noteq> OVL_FH_FLAG_CPU_ENDIAN then - ENODATA
      else 0)"

text \<open>\<open>None\<close> is the null handle: none stored, none that can be used.\<close>

definition ovl_get_fh :: "'w vfs \<Rightarrow> nat \<Rightarrow> string \<Rightarrow> ('w ovl, string option) M" where
  "ovl_get_fh V r name =
     bindM (tryM (sysM (vfs_getxattr V r name 0))) (\<lambda>o1.
     case o1 of
       None \<Rightarrow> ret None
     | Some (res, _) \<Rightarrow>
         if res = 0 then ret None
         else
           bindM (sysM (kalloc V)) (\<lambda>_.
           bindM (tryM (sysM (vfs_getxattr V r name res))) (\<lambda>o2.
           case o2 of
             None \<Rightarrow> ret None
           | Some (_, fh) \<Rightarrow> ret (if ovl_check_fh_len fh < 0 then None else Some fh))))"

text \<open>\<open>memcmp\<close> over the length of the handle looked for.\<close>

definition ovl_verify_fh :: "'w vfs \<Rightarrow> nat \<Rightarrow> string \<Rightarrow> string \<Rightarrow> ('w ovl, unit) M" where
  "ovl_verify_fh V r name fh =
     bindM (ovl_get_fh V r name) (\<lambda>o1.
     case o1 of
       None \<Rightarrow> raise (Errno (- ENODATA))
     | Some ofh \<Rightarrow>
         if fh_byte 2 fh \<noteq> fh_byte 2 ofh \<or> take (fh_byte 2 fh) fh \<noteq> take (fh_byte 2 fh) ofh
         then raise (Errno (- ESTALE)) else ret ())"

definition ovl_verify_set_fh :: "'w vfs \<Rightarrow> nat \<Rightarrow> string \<Rightarrow> nat \<Rightarrow> bool \<Rightarrow> bool \<Rightarrow> ('w ovl, unit) M" where
  "ovl_verify_set_fh V r name real is_upper set1 =
     bindM (ovl_encode_real_fh V real is_upper) (\<lambda>fh.
     catchM (ovl_verify_fh V r name fh) (\<lambda>e.
       if set1 \<and> e = Errno (- ENODATA) then sysM (vfs_setxattr V r name (take (fh_byte 2 fh) fh)) else raise e))"

definition ovl_set_origin :: "'w vfs \<Rightarrow> nat \<Rightarrow> nat \<Rightarrow> ('w ovl, unit) M" where
  "ovl_set_origin V lower upper =
     bindM getM (\<lambda>st.
     bindM (if ovl_can_decode_fh (rd V (world st) lower) \<noteq> 0
            then ovl_encode_real_fh V lower False else ret '''') (\<lambda>fh.
     ovl_check_setxattr V upper OVL_XATTR_ORIGIN fh 0))"

definition ovl_set_upper_fh :: "'w vfs \<Rightarrow> nat \<Rightarrow> nat \<Rightarrow> ('w ovl, unit) M" where
  "ovl_set_upper_fh V upper index =
     bindM (ovl_encode_real_fh V upper True) (\<lambda>fh. sysM (vfs_setxattr V index OVL_XATTR_UPPER fh))"

section \<open>Index names\<close>

definition hex_digit :: "nat \<Rightarrow> char" where
  "hex_digit n = (if n < 10 then char_of (48 + n) else char_of (87 + n))"

fun bin2hex :: "string \<Rightarrow> string" where
  "bin2hex [] = []"
| "bin2hex (c # cs) = hex_digit (of_char c div 16) # hex_digit (of_char c mod 16) # bin2hex cs"

definition ovl_get_index_name_fh :: "'w vfs \<Rightarrow> string \<Rightarrow> ('w ovl, string) M" where
  "ovl_get_index_name_fh V fh = bindM (sysM (kalloc V)) (\<lambda>_. ret (bin2hex (take (fh_byte 2 fh) fh)))"

definition ovl_get_index_name :: "'w vfs \<Rightarrow> nat \<Rightarrow> ('w ovl, string) M" where
  "ovl_get_index_name V origin = bindM (ovl_encode_real_fh V origin False) (ovl_get_index_name_fh V)"

section \<open>Creating and removing real files\<close>

definition ovl_cleanup :: "'w vfs \<Rightarrow> nat \<Rightarrow> nat \<Rightarrow> ('w ovl, unit) M" where
  "ovl_cleanup V wdir wdentry =
     bindM getM (\<lambda>st.
     if rType (rd V (world st) wdentry) = S_IFDIR then sysM (vfs_rmdir V wdir wdentry)
     else sysM (vfs_unlink V wdir wdentry))"

fun show_hex :: "nat \<Rightarrow> string" where
  "show_hex n = (if n < 16 then [hex_digit n] else show_hex (n div 16) @ [hex_digit (n mod 16)])"

declare show_hex.simps [simp del]

definition ovl_lookup_temp :: "'w vfs \<Rightarrow> nat \<Rightarrow> ('w ovl, nat) M" where
  "ovl_lookup_temp V work =
     bindM (askM (temp_id V)) (\<lambda>n.
     bindM (sysM (lookup_one_len V (CHR 0x23 # show_hex n) work)) (\<lambda>temp.
     bindM getM (\<lambda>st.
     if rInode (rd V (world st) temp) \<noteq> None then raise (Errno (- EIO)) else ret temp)))"

definition ovl_whiteout :: "'w vfs \<Rightarrow> nat \<Rightarrow> ('w ovl, nat) M" where
  "ovl_whiteout V work =
     bindM (ovl_lookup_temp V work) (\<lambda>whiteout.
     bindM (sysM (vfs_whiteout V work whiteout)) (\<lambda>_. ret whiteout))"

definition ovl_cleanup_and_whiteout :: "'w vfs \<Rightarrow> nat \<Rightarrow> nat \<Rightarrow> nat \<Rightarrow> ('w ovl, unit) M" where
  "ovl_cleanup_and_whiteout V work dir dentry =
     bindM (ovl_whiteout V work) (\<lambda>whiteout.
     bindM getM (\<lambda>st.
     let exchange = (rType (rd V (world st) dentry) = S_IFDIR) in
     bindM (onErr (sysM (vfs_rename V work whiteout dir dentry exchange)) (ovl_cleanup V work whiteout)) (\<lambda>_.
     if exchange then bindM (tryM (ovl_cleanup V work dentry)) (\<lambda>_. ret ()) else ret ())))"

definition ovl_mkdir_real :: "'w vfs \<Rightarrow> nat \<Rightarrow> nat \<Rightarrow> nat \<Rightarrow> ('w ovl, nat) M" where
  "ovl_mkdir_real V dir dentry mode =
     bindM (sysM (vfs_mkdir V dir dentry mode)) (\<lambda>_.
     bindM getM (\<lambda>st.
     let r = rd V (world st) dentry in
     if \<not> rUnhashed r then ret dentry else sysM (lookup_one_len V (rName r) (rParent r))))"

record ovl_cattr =
  caRdev :: nat
  caType :: ftype
  caMode :: nat
  caLink :: string
  caHardlink :: "nat option"

definition ovl_create_real :: "'w vfs \<Rightarrow> nat \<Rightarrow> nat \<Rightarrow> ovl_cattr \<Rightarrow> ('w ovl, nat) M" where
  "ovl_create_real V dir newdentry attr =
     bindM getM (\<lambda>st.
     if rInode (rd V (world st) newdentry) \<noteq> None then raise (Errno (- ESTALE))
     else
       bindM (case caHardlink attr of
                Some h \<Rightarrow> bindM (sysM (vfs_link V h dir newdentry)) (\<lambda>_. ret newdentry)
              | None \<Rightarrow>
                  (case caType attr of
                     S_IFREG \<Rightarrow> bindM (sysM (vfs_create V dir newdentry (caMode attr))) (\<lambda>_. ret newdentry)
                   | S_IFDIR \<Rightarrow> ovl_mkdir_real V dir newdentry (caMode attr)
                   | S_IFLNK \<Rightarrow> bindM (sysM (vfs_symlink V dir newdentry (caLink attr))) (\<lambda>_. ret newdentry)
                   | _ \<Rightarrow> bindM (sysM (vfs_mknod V dir newdentry (caMode attr) (caRdev attr))) (\<lambda>_. ret newdentry)))
             (\<lambda>d.
       bindM getM (\<lambda>st.
       if rInode (rd V (world st) d) = None then raise (Errno (- EIO)) else ret d)))"

definition ovl_create_temp :: "'w vfs \<Rightarrow> nat \<Rightarrow> ovl_cattr \<Rightarrow> ('w ovl, nat) M" where
  "ovl_create_temp V work attr = bindM (ovl_lookup_temp V work) (\<lambda>temp. ovl_create_real V work temp attr)"

end
