(* ===== verification/Overlay_Copy_Up.thy ===== *)
theory Overlay_Copy_Up
  imports Overlay_Handle
begin

text \<open>
  Copying a file from a lower layer into the upper one (\<open>overlayfs/copy_up.c\<close>), the link
  counts kept for it (\<open>overlayfs/inode.c\<close>, \<open>overlayfs/util.c\<close>) and what opening a file does
  (\<open>overlayfs/inode.c\<close>, \<open>overlayfs/super.c\<close>).
\<close>

section \<open>Extended attributes\<close>

definition ovl_is_private_xattr :: "string \<Rightarrow> bool" where
  "ovl_is_private_xattr name = HasPrefix name OVL_XATTR_PREFIX"

text \<open>
  Reading one attribute.  Each retry has a larger buffer; \<open>fuel\<close> bounds the number of retries
  and running out of it is the panic.
\<close>

fun getxattr_retry :: "nat \<Rightarrow> 'w vfs \<Rightarrow> nat \<Rightarrow> string \<Rightarrow> nat \<Rightarrow> ('w ovl, nat \<times> nat \<times> string) M" where
  "getxattr_retry 0 V old name value_size = panicM ''livelock''"
| "getxattr_retry (Suc n) V old name value_size =
     bindM (catchM (sysM (vfs_getxattr V old name value_size)) (\<lambda>e.
              if e = Errno (- ERANGE) then sysM (vfs_getxattr V old name 0) else raise e)) (\<lambda>(size1, val).
     if size1 > value_size then bindM (sysM (kalloc V)) (\<lambda>_. getxattr_retry n V old name size1)
     else ret (value_size, size1, val))"

text \<open>The names of a list, each terminated by a zero byte, and whether the last one is not.\<close>

fun xattr_names :: "string \<Rightarrow> string \<Rightarrow> string list \<times> bool" where
  "xattr_names acc [] = ([], acc \<noteq> [])"
| "xattr_names acc (c # cs) =
     (if c = CHR 0x00 then apfst (Cons (rev acc)) (xattr_names [] cs) else xattr_names (c # acc) cs)"

text \<open>
  The loop over the names.  \<open>err\<close> is the value of the variable \<open>error\<close>, which no path sets before
  the first attribute that is not private.
\<close>

fun copy_xattr_loop ::
  "nat \<Rightarrow> 'w vfs \<Rightarrow> nat \<Rightarrow> nat \<Rightarrow> string list \<Rightarrow> bool \<Rightarrow> nat \<Rightarrow> int \<Rightarrow> ('w ovl, int) M" where
  "copy_xattr_loop fuel V old new [] broken value_size err = ret (if broken then - EIO else err)"
| "copy_xattr_loop fuel V old new (name # names) broken value_size err =
     (if ovl_is_private_xattr name then copy_xattr_loop fuel V old new names broken value_size err
      else
        bindM (getxattr_retry fuel V old name value_size) (\<lambda>(value_size1, size1, val).
        bindM (askM (security_inode_copy_up_xattr V name)) (\<lambda>e.
        if e < 0 \<and> e \<noteq> - EOPNOTSUPP then ret e
        else if e = 1 then copy_xattr_loop fuel V old new names broken value_size1 0
        else
          bindM (sysM (vfs_setxattr V new name (take size1 val))) (\<lambda>_.
          copy_xattr_loop fuel V old new names broken value_size1 0))))"

definition errno :: "int \<Rightarrow> ('s, unit) M" where
  "errno e = (if e = 0 then ret () else raise (Errno e))"

text \<open>The largest value of an extended attribute bounds the retries.\<close>

definition XATTR_SIZE_MAX :: nat where
  "XATTR_SIZE_MAX = 65536"

text \<open>\<open>junk\<close> is the value of the uninitialised variable.\<close>

definition ovl_copy_xattr :: "'w vfs \<Rightarrow> int \<Rightarrow> nat \<Rightarrow> nat \<Rightarrow> ('w ovl, unit) M" where
  "ovl_copy_xattr V junk old new =
     bindM getM (\<lambda>st.
     if \<not> rXattrOps (rd V (world st) old) \<or> \<not> rXattrOps (rd V (world st) new) then ret ()
     else
       bindM (catchM (sysM (vfs_listxattr V old 0)) (\<lambda>e.
                if e = Errno (- EOPNOTSUPP) then ret (0, '''') else raise e)) (\<lambda>(list_size, _).
       if list_size = 0 then ret ()
       else
         bindM (sysM (kalloc V)) (\<lambda>_.
         bindM (sysM (vfs_listxattr V old list_size)) (\<lambda>(list_size1, buf).
         if list_size1 = 0 then ret ()
         else
           case xattr_names [] (take list_size1 buf) of
             (names, broken) \<Rightarrow>
               bindM (copy_xattr_loop (Suc (Suc XATTR_SIZE_MAX)) V old new names broken 0 junk) errno))))"

section \<open>Data\<close>

definition OVL_COPY_UP_CHUNK_SIZE :: nat where
  "OVL_COPY_UP_CHUNK_SIZE = 2 ^ 20"

text \<open>
  The copy loop; both positions advance together.  Splicing moves at most the number of bytes
  asked for, so the length left is a natural number.
\<close>

function copy_data_loop :: "'w vfs \<Rightarrow> nat \<Rightarrow> nat \<Rightarrow> nat \<Rightarrow> nat \<Rightarrow> ('w ovl, unit) M" where
  "copy_data_loop V old new pos len =
     (if len = 0 then ret ()
      else
        bindM (askM (signal_pending V)) (\<lambda>sig.
        if sig then raise (Errno (- EINTR))
        else
          bindM (askM (do_splice_direct V old pos new pos (min len OVL_COPY_UP_CHUNK_SIZE))) (\<lambda>bytes.
          if bytes \<le> 0 then errno bytes
          else copy_data_loop V old new (pos + nat bytes) (len - nat bytes))))"
  by pat_completeness auto
termination
  by (relation "measure (\<lambda>(V, old, new, pos, len). len)") auto

declare copy_data_loop.simps [simp del]

definition ovl_copy_up_data :: "'w vfs \<Rightarrow> nat \<Rightarrow> nat \<Rightarrow> nat \<Rightarrow> ('w ovl, unit) M" where
  "ovl_copy_up_data V old new len =
     (if len = 0 then ret ()
      else
        bindM (sysM (dentry_open V old False)) (\<lambda>_.
        bindM (sysM (dentry_open V new True)) (\<lambda>_.
        bindM (catchM (sysM (vfs_clone_file_range V old new len)) (\<lambda>_. copy_data_loop V old new 0 len)) (\<lambda>_.
        sysM (vfs_fsync V new)))))"

section \<open>Attributes\<close>

definition no_iattr :: iattr where
  "no_iattr = \<lparr>ia_mode = None, ia_ids = None, ia_times = None, ia_kill_priv = False\<rparr>"

definition ovl_set_timestamps :: "'w vfs \<Rightarrow> nat \<Rightarrow> kstat \<Rightarrow> ('w ovl, unit) M" where
  "ovl_set_timestamps V upper stat =
     sysM (notify_change V upper (no_iattr\<lparr>ia_times := Some (kAtime stat, kMtime stat)\<rparr>))"

definition ovl_set_attr :: "'w vfs \<Rightarrow> nat \<Rightarrow> kstat \<Rightarrow> ('w ovl, unit) M" where
  "ovl_set_attr V upper stat =
     bindM (if kType stat \<noteq> S_IFLNK then sysM (notify_change V upper (no_iattr\<lparr>ia_mode := Some (kMode stat)\<rparr>)) else ret ()) (\<lambda>_.
     bindM (sysM (notify_change V upper (no_iattr\<lparr>ia_ids := Some (kUid stat, kGid stat)\<rparr>))) (\<lambda>_.
     bindM (tryM (ovl_set_timestamps V upper stat)) (\<lambda>_. ret ())))"

section \<open>Link counts\<close>

text \<open>\<open>%+i\<close> of a signed number.\<close>

definition show_plus :: "int \<Rightarrow> string" where
  "show_plus i = (if i < 0 then CHR ''-'' # show_nat (nat (- i)) else CHR ''+'' # show_nat (nat i))"

definition ovl_set_nlink_common :: "'w vfs \<Rightarrow> dpath \<Rightarrow> nat option \<Rightarrow> char \<Rightarrow> ('w ovl, unit) M" where
  "ovl_set_nlink_common V d real prefix =
     bindM getM (\<lambda>st.
     case real of
       None \<Rightarrow> nilDeref
     | Some r \<Rightarrow>
         let buf = prefix # show_plus (sint (i_nlink (inodeOf st d) - rNlink (rd V (world st) r))) in
         if length buf \<ge> 13 then raise (Errno (- EIO))
         else case ovl_dentry_upper st d of
           None \<Rightarrow> nilDeref
         | Some u \<Rightarrow> sysM (vfs_setxattr V u OVL_XATTR_NLINK buf))"

definition ovl_set_nlink_upper :: "'w vfs \<Rightarrow> dpath \<Rightarrow> ('w ovl, unit) M" where
  "ovl_set_nlink_upper V d = bindM getM (\<lambda>st. ovl_set_nlink_common V d (ovl_dentry_upper st d) CHR ''U'')"

definition ovl_set_nlink_lower :: "'w vfs \<Rightarrow> dpath \<Rightarrow> ('w ovl, unit) M" where
  "ovl_set_nlink_lower V d = bindM getM (\<lambda>st. ovl_set_nlink_common V d (ovl_dentry_lower st d) CHR ''L'')"

section \<open>One file\<close>

record ovl_copy_up_ctx =
  cParent :: "dpath option"
  cDentry :: dpath
  cLower :: nat
  cStat :: kstat
  cPstat :: kstat
  cLink :: string
  cDestdir :: nat
  cDestname :: string
  cWorkdir :: nat
  cTmpfile :: bool
  cOrigin :: bool
  cIndexed :: bool

definition ovl_create_index :: "'w vfs \<Rightarrow> dpath \<Rightarrow> nat \<Rightarrow> nat \<Rightarrow> ('w ovl, unit) M" where
  "ovl_create_index V d origin upper =
     bindM getM (\<lambda>st.
     case indexdir (ofs st) of
       None \<Rightarrow> nilDeref
     | Some idx \<Rightarrow>
         if \<not> d_is_dir st d then raise (Errno (- EIO))
         else if ovl_test_flag OVL_INDEX st (d_inode (dents st d)) then raise (Errno (- EIO))
         else
           bindM (ovl_get_index_name V origin) (\<lambda>name.
           bindM (ovl_create_temp V idx \<lparr>caRdev = 0, caType = S_IFDIR, caMode = 0, caLink = '''', caHardlink = None\<rparr>) (\<lambda>temp.
           onErr (bindM (ovl_set_upper_fh V upper temp) (\<lambda>_.
                  bindM (sysM (lookup_one_len V name idx)) (\<lambda>index.
                  sysM (vfs_rename V idx temp idx index False)))) (ovl_cleanup V idx temp))))"

definition ovl_link_up :: "'w vfs \<Rightarrow> dpath \<Rightarrow> ovl_copy_up_ctx \<Rightarrow> ('w ovl, unit) M" where
  "ovl_link_up V par c =
     bindM getM (\<lambda>st.
     case ovl_dentry_upper st par of
       None \<Rightarrow> nilDeref
     | Some udir \<Rightarrow>
         bindM (ovl_set_impure V par udir) (\<lambda>_.
         bindM (ovl_set_nlink_lower V (cDentry c)) (\<lambda>_.
         bindM (sysM (lookup_one_len V (case cDentry c of [] \<Rightarrow> '''' | n # _ \<Rightarrow> n) udir)) (\<lambda>upper.
         bindM getM (\<lambda>st1.
         case ovl_dentry_upper st1 (cDentry c) of
           None \<Rightarrow> nilDeref
         | Some old \<Rightarrow>
             bindM (sysM (vfs_link V old udir upper)) (\<lambda>_.
             bindM (tryM (ovl_set_timestamps V udir (cPstat c))) (\<lambda>_.
             bindM (ovl_dentry_set_upper_alias (cDentry c)) (\<lambda>_.
             ovl_set_nlink_upper V (cDentry c)))))))))"

definition ovl_install_temp :: "'w vfs \<Rightarrow> ovl_copy_up_ctx \<Rightarrow> nat \<Rightarrow> ('w ovl, nat) M" where
  "ovl_install_temp V c temp =
     bindM (sysM (lookup_one_len V (cDestname c) (cDestdir c))) (\<lambda>upper.
     bindM (if cTmpfile c then sysM (vfs_link V temp (cDestdir c) upper)
            else sysM (vfs_rename V (cWorkdir c) temp (cDestdir c) upper False)) (\<lambda>_.
     ret (if cTmpfile c then upper else temp)))"

definition ovl_get_tmpfile :: "'w vfs \<Rightarrow> ovl_copy_up_ctx \<Rightarrow> ('w ovl, nat) M" where
  "ovl_get_tmpfile V c =
     bindM (sysM (security_inode_copy_up V)) (\<lambda>_.
     if cTmpfile c then sysM (vfs_tmpfile V (cWorkdir c) (kMode (cStat c)))
     else ovl_create_temp V (cWorkdir c)
            \<lparr>caRdev = kRdev (cStat c), caType = kType (cStat c), caMode = 0, caLink = cLink c, caHardlink = None\<rparr>)"

definition ovl_copy_up_inode :: "'w vfs \<Rightarrow> int \<Rightarrow> ovl_copy_up_ctx \<Rightarrow> nat \<Rightarrow> ('w ovl, unit) M" where
  "ovl_copy_up_inode V junk c temp =
     bindM getM (\<lambda>st.
     bindM (if kType (cStat c) = S_IFREG
            then if ovl_dentry_upper st (cDentry c) \<noteq> None then panicM ''BUG_ON''
                 else ovl_copy_up_data V (cLower c) temp (kSize (cStat c))
            else ret ()) (\<lambda>_.
     bindM (ovl_copy_xattr V junk (cLower c) temp) (\<lambda>_.
     bindM (ovl_set_attr V temp (cStat c)) (\<lambda>_.
     if cOrigin c then ovl_set_origin V (cLower c) temp else ret ()))))"

definition ovl_copy_up_locked :: "'w vfs \<Rightarrow> int \<Rightarrow> ovl_copy_up_ctx \<Rightarrow> ('w ovl, unit) M" where
  "ovl_copy_up_locked V junk c =
     bindM (ovl_get_tmpfile V c) (\<lambda>temp.
     bindM ((if cTmpfile c then (\<lambda>m. m) else (\<lambda>m. onErr m (ovl_cleanup V (cWorkdir c) temp)))
       (bindM (ovl_copy_up_inode V junk c temp) (\<lambda>_.
        bindM (if kType (cStat c) = S_IFDIR \<and> cIndexed c then ovl_create_index V (cDentry c) (cLower c) temp else ret ()) (\<lambda>_.
        ovl_install_temp V c temp)))) (\<lambda>newdentry.
     bindM getM (\<lambda>st.
     let i = d_inode (dents st (cDentry c)) in
     bindM (ovl_inode_update V i newdentry) (\<lambda>_.
     if i_type (inodes st i) = S_IFDIR then ovl_set_flag OVL_WHITEOUTS i else ret ()))))"

text \<open>
  \<open>ovl_do_copy_up\<close> in its parts: what to set in the context, where the copy goes, making it, and
  the final touches.  A file that is not a directory and needs an index is copied to the index
  directory (\<open>to_index\<close>) and linked from there later.
\<close>

definition copy_to_index :: "'w vfs \<Rightarrow> 'w ovl \<Rightarrow> ovl_copy_up_ctx \<Rightarrow> bool" where
  "copy_to_index V st c \<longleftrightarrow> ovl_need_index V st (cDentry c) \<and> kType (cStat c) \<noteq> S_IFDIR"

definition copy_up_plan :: "'w vfs \<Rightarrow> 'w ovl \<Rightarrow> ovl_copy_up_ctx \<Rightarrow> ovl_copy_up_ctx" where
  "copy_up_plan V st c =
     (let need = ovl_need_index V st (cDentry c);
          isdir = (kType (cStat c) = S_IFDIR);
          c1 = (if need
                then c\<lparr>cIndexed := True,
                       cWorkdir := (case indexdir (ofs st) of Some i \<Rightarrow> if isdir then i else cWorkdir c | None \<Rightarrow> cWorkdir c)\<rparr>
                else c)
      in if isdir \<or> kNlink (cStat c) = 1 \<or> copy_to_index V st c then c1\<lparr>cOrigin := True\<rparr> else c1)"

definition copy_up_target :: "'w vfs \<Rightarrow> bool \<Rightarrow> ovl_copy_up_ctx \<Rightarrow> ('w ovl, ovl_copy_up_ctx) M" where
  "copy_up_target V to_index c =
     (if to_index then
        bindM getM (\<lambda>st.
        case indexdir (ofs st) of
          None \<Rightarrow> nilDeref
        | Some idx \<Rightarrow> bindM (ovl_get_index_name V (cLower c)) (\<lambda>n. ret (c\<lparr>cDestdir := idx, cDestname := n\<rparr>)))
      else
        (case cParent c of
           None \<Rightarrow> raise (Errno (- EIO))
         | Some p \<Rightarrow> bindM (ovl_set_impure V p (cDestdir c)) (\<lambda>_. ret c)))"

definition copy_up_make :: "'w vfs \<Rightarrow> int \<Rightarrow> bool \<Rightarrow> ovl_copy_up_ctx \<Rightarrow> ('w ovl, unit) M" where
  "copy_up_make V junk tmp c =
     (if kType (cStat c) = S_IFREG \<and> tmp then ovl_copy_up_locked V junk (c\<lparr>cTmpfile := True\<rparr>)
      else bindM (ovl_lock_rename_workdir V (cWorkdir c) (cDestdir c)) (\<lambda>_. ovl_copy_up_locked V junk c))"

definition copy_up_finish :: "'w vfs \<Rightarrow> bool \<Rightarrow> ovl_copy_up_ctx \<Rightarrow> ('w ovl, unit) M" where
  "copy_up_finish V to_index c =
     bindM getM (\<lambda>st.
     bindM (if cIndexed c then ovl_set_flag OVL_INDEX (d_inode (dents st (cDentry c))) else ret ()) (\<lambda>_.
     if to_index then ovl_set_nlink_upper V (cDentry c)
     else
       bindM (tryM (ovl_set_timestamps V (cDestdir c) (cPstat c))) (\<lambda>_.
       ovl_dentry_set_upper_alias (cDentry c))))"

definition ovl_do_copy_up :: "'w vfs \<Rightarrow> int \<Rightarrow> ovl_copy_up_ctx \<Rightarrow> ('w ovl, unit) M" where
  "ovl_do_copy_up V junk c0 =
     bindM getM (\<lambda>st.
     bindM (copy_up_target V (copy_to_index V st c0) (copy_up_plan V st c0)) (\<lambda>c.
     bindM (copy_up_make V junk (tmpfile (ofs st)) c) (\<lambda>_.
     copy_up_finish V (copy_to_index V st c0) c)))"

definition O_TRUNC_set :: "nat \<Rightarrow> bool" where
  "O_TRUNC_set flags \<longleftrightarrow> odd (flags div 512)"

definition zero_stat :: kstat where
  "zero_stat = \<lparr>kType = S_IFREG, kMode = 0, kNlink = 0, kSize = 0, kIno = 0, kDev = 0, kRdev = 0, kUid = 0, kGid = 0,
     kAtime = 0, kMtime = 0\<rparr>"

text \<open>Where the copy goes: the upper directory of the parent, the name, and the parent's attributes.\<close>

definition copy_up_dest :: "'w vfs \<Rightarrow> dpath option \<Rightarrow> dpath \<Rightarrow> ('w ovl, nat \<times> string \<times> kstat) M" where
  "copy_up_dest V par d =
     (case par of
        None \<Rightarrow> ret (0, '''', zero_stat)
      | Some p \<Rightarrow>
          bindM getM (\<lambda>st.
          case ovl_dentry_upper st p of
            None \<Rightarrow> nilDeref
          | Some u \<Rightarrow> bindM (sysM (vfs_getattr V u)) (\<lambda>ps. ret (u, case d of [] \<Rightarrow> '''' | n # _ \<Rightarrow> n, ps))))"

text \<open>The part under the inode lock.\<close>

definition copy_up_under_lock :: "'w vfs \<Rightarrow> int \<Rightarrow> ovl_copy_up_ctx \<Rightarrow> ('w ovl, unit) M" where
  "copy_up_under_lock V junk c =
     bindM getM (\<lambda>st1.
     bindM (if ovl_dentry_upper st1 (cDentry c) = None then ovl_do_copy_up V junk c else ret ()) (\<lambda>_.
     bindM getM (\<lambda>st2.
     case cParent c of
       None \<Rightarrow> ret ()
     | Some p \<Rightarrow> if \<not> ovl_dentry_has_upper_alias st2 (cDentry c) then ovl_link_up V p c else ret ())))"

text \<open>\<open>ovl_copy_up_one\<close> once the work directory and the lower dentry are known.\<close>

definition copy_up_from ::
  "'w vfs \<Rightarrow> int \<Rightarrow> ('w ovl \<Rightarrow> 'w ovl) \<Rightarrow> dpath option \<Rightarrow> dpath \<Rightarrow> nat \<Rightarrow> nat \<Rightarrow> nat \<Rightarrow> ('w ovl, unit) M" where
  "copy_up_from V junk race par d flags work lower =
     bindM (sysM (vfs_getattr V lower)) (\<lambda>stat0.
     bindM (copy_up_dest V par d) (\<lambda>(destdir, destname, pstat).
     let stat = (if O_TRUNC_set flags then stat0\<lparr>kSize := 0\<rparr> else stat0) in
     bindM (if kType stat = S_IFLNK then sysM (vfs_get_link V lower) else ret '''') (\<lambda>link.
     bindM (ovl_copy_up_start V race d) (\<lambda>already.
     if already then ret ()
     else copy_up_under_lock V junk
       \<lparr>cParent = par, cDentry = d, cLower = lower, cStat = stat, cPstat = pstat, cLink = link,
        cDestdir = destdir, cDestname = destname, cWorkdir = work, cTmpfile = False, cOrigin = False,
        cIndexed = False\<rparr>))))"

definition ovl_copy_up_one ::
  "'w vfs \<Rightarrow> int \<Rightarrow> ('w ovl \<Rightarrow> 'w ovl) \<Rightarrow> dpath option \<Rightarrow> dpath \<Rightarrow> nat \<Rightarrow> ('w ovl, unit) M" where
  "ovl_copy_up_one V junk race par d flags =
     bindM getM (\<lambda>st.
     case workdir (ofs st) of
       None \<Rightarrow> raise (Errno (- EROFS))
     | Some work \<Rightarrow>
         (case ovl_dentry_lower st d of
            None \<Rightarrow> nilDeref
          | Some lower \<Rightarrow> copy_up_from V junk race par d flags work lower))"

section \<open>The path to a file\<close>

text \<open>
  The topmost dentry on the way to \<open>d\<close> that has no upper dentry, with its parent.  The root is
  its own parent, so the search never ends when the root has no upper dentry.
\<close>

fun topmost :: "'w ovl \<Rightarrow> dpath \<Rightarrow> (dpath \<times> dpath) option" where
  "topmost st [] = (if ovl_dentry_upper st [] \<noteq> None then Some ([], []) else None)"
| "topmost st (n # p) = (if ovl_dentry_upper st p \<noteq> None then Some (p, n # p) else topmost st p)"

definition copied_up :: "'w ovl \<Rightarrow> dpath \<Rightarrow> bool" where
  "copied_up st d \<longleftrightarrow>
     ovl_dentry_upper st d \<noteq> None \<and> (ovl_dentry_has_upper_alias st d \<or> d_disconnected (dents st d))"

text \<open>\<open>None\<close> is a run that has not ended within \<open>fuel\<close> rounds.\<close>

fun copy_up_loop ::
  "nat \<Rightarrow> 'w vfs \<Rightarrow> int \<Rightarrow> ('w ovl \<Rightarrow> 'w ovl) \<Rightarrow> dpath \<Rightarrow> nat \<Rightarrow> 'w ovl \<Rightarrow> (unit outcome \<times> 'w ovl) option" where
  "copy_up_loop 0 V junk race d flags st = None"
| "copy_up_loop (Suc n) V junk race d flags st =
     (if copied_up st d then Some (Ok (), st)
      else
        case (if d_disconnected (dents st d) then Some (None, d)
              else map_option (\<lambda>(p, x). (Some p, x)) (topmost st d)) of
          None \<Rightarrow> None
        | Some (par, x) \<Rightarrow>
            (case ovl_copy_up_one V junk race par x flags st of
               (Ok _, st1) \<Rightarrow> copy_up_loop n V junk race d flags st1
             | (Err e, st1) \<Rightarrow> Some (Err e, st1)
             | (Panic m, st1) \<Rightarrow> Some (Panic m, st1)))"

definition ovl_copy_up_flags ::
  "nat \<Rightarrow> 'w vfs \<Rightarrow> int \<Rightarrow> ('w ovl \<Rightarrow> 'w ovl) \<Rightarrow> dpath \<Rightarrow> nat \<Rightarrow> 'w ovl \<Rightarrow> (unit outcome \<times> 'w ovl) option" where
  "ovl_copy_up_flags fuel V junk race d flags st =
     (if d_disconnected (dents st d) \<and> d_is_dir st d then Some (Err (Errno (- EIO)), st)
      else copy_up_loop fuel V junk race d flags st)"

section \<open>What copying up leaves alone\<close>

text \<open>
  Copying up only adds: upper dentries, flags and aliases once there stay, and the shape of the
  tree, the layers and the directories of the mount do not change.
\<close>

definition grows :: "'w ovl \<Rightarrow> 'w ovl \<Rightarrow> bool" where
  "grows st st' \<longleftrightarrow>
     (\<forall>d. d_inode (dents st' d) = d_inode (dents st d) \<and> d_type (dents st' d) = d_type (dents st d) \<and>
          d_disconnected (dents st' d) = d_disconnected (dents st d) \<and> lowerstack (dents st' d) = lowerstack (dents st d) \<and>
          oeFlags (dents st d) \<subseteq> oeFlags (dents st' d)) \<and>
     (\<forall>i. upperdentry (inodes st i) \<noteq> None \<longrightarrow> upperdentry (inodes st' i) \<noteq> None) \<and>
     upper_mnt (ofs st') = upper_mnt (ofs st) \<and> workdir (ofs st') = workdir (ofs st) \<and>
     indexdir (ofs st') = indexdir (ofs st) \<and> config (ofs st') = config (ofs st)"

lemma grows_refl [simp]: "grows st st"
  by (simp add: grows_def)

lemma grows_trans: "grows a b \<Longrightarrow> grows b c \<Longrightarrow> grows a c"
  unfolding grows_def by (metis subset_trans)

lemma grows_upper: "grows st st' \<Longrightarrow> ovl_dentry_upper st d \<noteq> None \<Longrightarrow> ovl_dentry_upper st' d \<noteq> None"
  unfolding grows_def ovl_dentry_upper_def by metis

lemma grows_alias: "grows st st' \<Longrightarrow> ovl_dentry_has_upper_alias st d \<Longrightarrow> ovl_dentry_has_upper_alias st' d"
  unfolding grows_def ovl_dentry_has_upper_alias_def ovl_dentry_test_flag_def by blast

text \<open>Most steps do not touch the flags of a dentry either.\<close>

definition calm :: "'w ovl \<Rightarrow> 'w ovl \<Rightarrow> bool" where
  "calm st st' \<longleftrightarrow> grows st st' \<and> (\<forall>d. oeFlags (dents st' d) = oeFlags (dents st d))"

lemma calm_refl [simp]: "calm st st"
  by (simp add: calm_def)

lemma calm_grows: "(\<And>t. keeps (calm t) m) \<Longrightarrow> keeps (grows s) m"
  unfolding keeps_def by (metis calm_def calm_refl grows_trans)

lemma calm_sys [keeps_intro]: "keeps (calm s) (sysM f)"
  by (auto simp: keeps_def sysM_def calm_def grows_def split: prod.splits sum.splits)

lemma calm_ask [keeps_intro]: "keeps (calm s) (askM f)"
  by (auto simp: keeps_def askM_def calm_def grows_def split: prod.splits)

lemma calm_errno [keeps_intro]: "keeps (calm s) (errno e)"
  by (auto simp: errno_def intro!: keeps_intro)

lemma calm_set_flag [keeps_intro]: "keeps (calm s) (ovl_set_flag f i)"
  by (auto simp: keeps_def ovl_set_flag_def updM_def updInode_def calm_def grows_def)

lemma calm_inode_update [keeps_intro]: "keeps (calm s) (ovl_inode_update V i u)"
  by (auto simp: keeps_def ovl_inode_update_def updM_def updInode_def calm_def grows_def Let_def)

lemma keeps_ftype [keeps_intro]:
  "keeps I a \<Longrightarrow> keeps I b \<Longrightarrow> keeps I c \<Longrightarrow> keeps I d \<Longrightarrow> keeps I e \<Longrightarrow> keeps I f \<Longrightarrow> keeps I g \<Longrightarrow>
     keeps I (case t of S_IFREG \<Rightarrow> a | S_IFDIR \<Rightarrow> b | S_IFLNK \<Rightarrow> c | S_IFCHR \<Rightarrow> d | S_IFBLK \<Rightarrow> e | S_IFIFO \<Rightarrow> f | S_IFSOCK \<Rightarrow> g)"
  by (cases t) simp_all

lemma calm_check_setxattr [keeps_intro]: "keeps (calm s) (ovl_check_setxattr V u n v x)"
  unfolding ovl_check_setxattr_def Let_def
  by (intro keeps_intro) (auto simp: calm_def grows_def)

lemma calm_set_impure [keeps_intro]: "keeps (calm s) (ovl_set_impure V d u)"
  unfolding ovl_set_impure_def by (intro keeps_intro)

lemma calm_encode [keeps_intro]: "keeps (calm s) (ovl_encode_real_fh V r b)"
  unfolding ovl_encode_real_fh_def by (intro keeps_intro)

lemma calm_set_origin [keeps_intro]: "keeps (calm s) (ovl_set_origin V l u)"
  unfolding ovl_set_origin_def by (intro keeps_intro)

lemma calm_index_name [keeps_intro]: "keeps (calm s) (ovl_get_index_name V o1)"
  unfolding ovl_get_index_name_def ovl_get_index_name_fh_def by (intro keeps_intro)

lemma calm_cleanup [keeps_intro]: "keeps (calm s) (ovl_cleanup V a b)"
  unfolding ovl_cleanup_def by (intro keeps_intro)

lemma calm_create_temp [keeps_intro]: "keeps (calm s) (ovl_create_temp V w a)"
  unfolding ovl_create_temp_def ovl_lookup_temp_def ovl_create_real_def ovl_mkdir_real_def by (intro keeps_intro)

lemma calm_set_nlink [keeps_intro]: "keeps (calm s) (ovl_set_nlink_upper V d)" "keeps (calm s) (ovl_set_nlink_lower V d)"
  unfolding ovl_set_nlink_upper_def ovl_set_nlink_lower_def ovl_set_nlink_common_def by (intro keeps_intro)+

lemma calm_getxattr [keeps_intro]: "keeps (calm s) (getxattr_retry n V old name vs)"
  by (induction n arbitrary: vs) (auto intro!: keeps_intro)

lemma calm_xattr_loop [keeps_intro]: "keeps (calm s) (copy_xattr_loop n V old new names b vs e)"
  by (induction names arbitrary: vs e) (auto intro!: keeps_intro)

lemma calm_copy_xattr [keeps_intro]: "keeps (calm s) (ovl_copy_xattr V j old new)"
  unfolding ovl_copy_xattr_def by (intro keeps_intro)

lemma calm_data_loop [keeps_intro]: "keeps (calm s) (copy_data_loop V old new pos len)"
proof (induction V old new pos len rule: copy_data_loop.induct)
  case (1 V old new pos len)
  then show ?case by (subst copy_data_loop.simps) (auto intro!: keeps_intro)
qed

lemma calm_copy_data [keeps_intro]: "keeps (calm s) (ovl_copy_up_data V old new len)"
  unfolding ovl_copy_up_data_def by (intro keeps_intro)

lemma calm_set_timestamps [keeps_intro]: "keeps (calm s) (ovl_set_timestamps V u st)"
  unfolding ovl_set_timestamps_def by (intro keeps_intro)

lemma calm_set_attr [keeps_intro]: "keeps (calm s) (ovl_set_attr V u st)"
  unfolding ovl_set_attr_def by (intro keeps_intro)

lemma calm_copy_up_inode [keeps_intro]: "keeps (calm s) (ovl_copy_up_inode V j c t)"
  unfolding ovl_copy_up_inode_def by (intro keeps_intro)

lemma calm_create_index [keeps_intro]: "keeps (calm s) (ovl_create_index V d o1 u)"
  unfolding ovl_create_index_def ovl_set_upper_fh_def by (intro keeps_intro)

lemma calm_install_temp [keeps_intro]: "keeps (calm s) (ovl_install_temp V c t)"
  unfolding ovl_install_temp_def by (intro keeps_intro)

lemma calm_get_tmpfile [keeps_intro]: "keeps (calm s) (ovl_get_tmpfile V c)"
  unfolding ovl_get_tmpfile_def by (intro keeps_intro)

lemma calm_copy_up_locked [keeps_intro]: "keeps (calm s) (ovl_copy_up_locked V j c)"
  unfolding ovl_copy_up_locked_def by (cases "cTmpfile c") (simp_all, (intro keeps_intro)+)

lemma calm_lock_rename [keeps_intro]: "keeps (calm s) (ovl_lock_rename_workdir V a b)"
  unfolding ovl_lock_rename_workdir_def by (intro keeps_intro)

lemmas grows_ops [keeps_intro] =
  calm_sys [THEN calm_grows]
  calm_ask [THEN calm_grows]
  calm_errno [THEN calm_grows]
  calm_set_flag [THEN calm_grows]
  calm_inode_update [THEN calm_grows]
  calm_check_setxattr [THEN calm_grows]
  calm_set_impure [THEN calm_grows]
  calm_encode [THEN calm_grows]
  calm_set_origin [THEN calm_grows]
  calm_index_name [THEN calm_grows]
  calm_cleanup [THEN calm_grows]
  calm_create_temp [THEN calm_grows]
  calm_getxattr [THEN calm_grows]
  calm_xattr_loop [THEN calm_grows]
  calm_copy_xattr [THEN calm_grows]
  calm_data_loop [THEN calm_grows]
  calm_copy_data [THEN calm_grows]
  calm_set_timestamps [THEN calm_grows]
  calm_set_attr [THEN calm_grows]
  calm_copy_up_inode [THEN calm_grows]
  calm_create_index [THEN calm_grows]
  calm_install_temp [THEN calm_grows]
  calm_get_tmpfile [THEN calm_grows]
  calm_copy_up_locked [THEN calm_grows]
  calm_lock_rename [THEN calm_grows]
  calm_set_nlink(1) [THEN calm_grows] calm_set_nlink(2) [THEN calm_grows]

lemma grows_set_alias [keeps_intro]: "keeps (grows s) (ovl_dentry_set_upper_alias d)"
  by (auto simp: keeps_def ovl_dentry_set_upper_alias_def ovl_dentry_set_flag_def updM_def updDentry_def grows_def)

lemma calm_target: "keeps (calm s) (copy_up_target V b c)"
  unfolding copy_up_target_def by (intro keeps_intro)

lemma calm_make: "keeps (calm s) (copy_up_make V j b c)"
  unfolding copy_up_make_def by (intro keeps_intro)

lemma grows_finish: "keeps (grows s) (copy_up_finish V b c)"
  unfolding copy_up_finish_def by (intro keeps_intro)

lemma grows_do_copy_up [keeps_intro]: "keeps (grows s) (ovl_do_copy_up V j c)"
  unfolding ovl_do_copy_up_def by (intro keeps_intro calm_target [THEN calm_grows] calm_make [THEN calm_grows] grows_finish)

lemma grows_link_up [keeps_intro]: "keeps (grows s) (ovl_link_up V p c)"
  unfolding ovl_link_up_def by (intro keeps_intro)

lemma grows_under_lock [keeps_intro]: "keeps (grows s) (copy_up_under_lock V j c)"
  unfolding copy_up_under_lock_def by (intro keeps_intro)

section \<open>What a successful copy up gives\<close>

text \<open>
  An alias in the upper directory means that there is an upper dentry, and one of the parent
  directory too.
\<close>

definition alias_inv :: "'w ovl \<Rightarrow> bool" where
  "alias_inv st \<longleftrightarrow>
     (\<forall>d. ovl_dentry_has_upper_alias st d \<longrightarrow> ovl_dentry_upper st d \<noteq> None) \<and>
     (\<forall>n p. ovl_dentry_has_upper_alias st (n # p) \<longrightarrow> ovl_dentry_upper st p \<noteq> None)"

lemma calm_alias: "calm st st' \<Longrightarrow> ovl_dentry_has_upper_alias st' d = ovl_dentry_has_upper_alias st d"
  by (simp add: calm_def ovl_dentry_has_upper_alias_def ovl_dentry_test_flag_def)

lemma calm_upper: "calm st st' \<Longrightarrow> ovl_dentry_upper st d \<noteq> None \<Longrightarrow> ovl_dentry_upper st' d \<noteq> None"
  unfolding calm_def using grows_upper by blast

lemma calm_inv: "calm st st' \<Longrightarrow> alias_inv st \<Longrightarrow> alias_inv st'"
  unfolding alias_inv_def by (metis calm_alias calm_upper)

text \<open>The dentry of the context has a parent with an upper dentry.\<close>

definition ready :: "dpath option \<Rightarrow> dpath \<Rightarrow> 'w ovl \<Rightarrow> bool" where
  "ready par d st \<longleftrightarrow> alias_inv st \<and>
     (par = None \<or> (case d of [] \<Rightarrow> True | n # p \<Rightarrow> ovl_dentry_upper st p \<noteq> None))"

lemma calm_ready: "calm st st' \<Longrightarrow> ready par d st \<Longrightarrow> ready par d st'"
  unfolding ready_def by (cases d) (auto dest: calm_inv calm_upper)

lemma set_alias_inv:
  assumes "ready (Some p) d st" "ovl_dentry_upper st d \<noteq> None" "ovl_dentry_set_upper_alias d st = (r, st')"
  shows "r = Ok () \<and> ready (Some p) d st' \<and> ovl_dentry_upper st' d \<noteq> None \<and> ovl_dentry_has_upper_alias st' d"
proof -
  have st': "r = Ok ()" "st' = updDentry d (\<lambda>e. e\<lparr>oeFlags := insert OVL_E_UPPER_ALIAS (oeFlags e)\<rparr>) st"
    using assms(3) by (simp_all add: ovl_dentry_set_upper_alias_def ovl_dentry_set_flag_def updM_def)
  have up: "ovl_dentry_upper st' x = ovl_dentry_upper st x" for x
    by (simp add: st' ovl_dentry_upper_def updDentry_def)
  have al: "ovl_dentry_has_upper_alias st' x \<longleftrightarrow> x = d \<or> ovl_dentry_has_upper_alias st x" for x
    by (auto simp: st' ovl_dentry_has_upper_alias_def ovl_dentry_test_flag_def updDentry_def)
  have "alias_inv st'" using assms(1,2) unfolding alias_inv_def ready_def up al by (auto split: list.splits)
  then show ?thesis using assms(1,2) st'(1) by (simp add: ready_def up al split: list.splits)
qed

lemma copy_up_locked_upper:
  assumes "ovl_copy_up_locked V j c s = (Ok u, s')"
  shows "ovl_dentry_upper s' (cDentry c) \<noteq> None"
proof -
  from assms obtain st new st1 where
    u: "ovl_inode_update V (d_inode (dents st (cDentry c))) new st = (Ok (), st1)"
    and f: "(if i_type (inodes st (d_inode (dents st (cDentry c)))) = S_IFDIR
             then ovl_set_flag OVL_WHITEOUTS (d_inode (dents st (cDentry c))) else ret ()) st1 = (Ok u, s')"
    unfolding ovl_copy_up_locked_def Let_def bindM_Ok by (auto simp: getM_def)
  have "ovl_dentry_upper st1 (cDentry c) \<noteq> None"
    using u by (auto simp: ovl_inode_update_def updM_def updInode_def ovl_dentry_upper_def Let_def)
  moreover have "calm st1 s'"
    using keepsD [OF calm_set_flag calm_refl] f by (auto simp: ret_def split: if_splits)
  ultimately show ?thesis using calm_upper by blast
qed

lemma valid_calm:
  "(\<And>t. keeps (calm t) m) \<Longrightarrow> (\<And>s s' r. P s \<Longrightarrow> m s = (r, s') \<Longrightarrow> calm s s' \<Longrightarrow> Q r s') \<Longrightarrow> valid P m Q"
  unfolding valid_def keeps_def by (metis calm_refl prod.collapse)

lemma valid_if: "(b \<Longrightarrow> valid P m Q) \<Longrightarrow> (\<not> b \<Longrightarrow> valid P n Q) \<Longrightarrow> valid P (if b then m else n) Q"
  by simp

lemma valid_at: "valid P m Q \<Longrightarrow> P s \<Longrightarrow> valid (\<lambda>t. t = s) m Q"
  by (simp add: valid_def)

lemma valid_getM: "(\<And>s. P s \<Longrightarrow> valid (\<lambda>t. t = s) (f s) Q) \<Longrightarrow> valid P (bindM getM f) Q"
  by (simp add: valid_def bindM_def getM_def)

lemma plan_fixed [simp]: "cParent (copy_up_plan V st c) = cParent c" "cDentry (copy_up_plan V st c) = cDentry c"
  by (simp_all add: copy_up_plan_def Let_def)

lemma target_valid:
  "valid (ready (cParent c) (cDentry c)) (copy_up_target V b c)
     (fails_with (\<lambda>_. ready (cParent c) (cDentry c))
        (\<lambda>c' s. ready (cParent c) (cDentry c) s \<and> cDentry c' = cDentry c \<and> (b \<or> cParent c \<noteq> None)))"
proof (rule valid_calm [OF calm_target])
  fix s s' r assume "ready (cParent c) (cDentry c) s" "copy_up_target V b c s = (r, s')" "calm s s'"
  moreover have "cDentry c' = cDentry c \<and> (b \<or> cParent c \<noteq> None)" if "copy_up_target V b c s = (Ok c', s')" for c'
    using that unfolding copy_up_target_def
    by (cases b; cases "cParent c"; cases "indexdir (ofs s)")
      (auto simp: bindM_Ok ret_def raise_def nilDeref_def panicM_def getM_def)
  ultimately show "fails_with (\<lambda>_. ready (cParent c) (cDentry c))
        (\<lambda>c' s. ready (cParent c) (cDentry c) s \<and> cDentry c' = cDentry c \<and> (b \<or> cParent c \<noteq> None)) r s'"
    using calm_ready by (cases r) auto
qed

definition up_ready :: "dpath option \<Rightarrow> dpath \<Rightarrow> 'w ovl \<Rightarrow> bool" where
  "up_ready par d st \<longleftrightarrow> ready par d st \<and> ovl_dentry_upper st d \<noteq> None"

lemma calm_up_ready: "calm st st' \<Longrightarrow> up_ready par d st \<Longrightarrow> up_ready par d st'"
  unfolding up_ready_def using calm_ready calm_upper by blast

lemma calm_step:
  "(\<And>t. keeps (calm t) m) \<Longrightarrow> valid (up_ready par d) m (fails_with (\<lambda>_. up_ready par d) (\<lambda>_. up_ready par d))"
  by (rule valid_calm) (auto simp: fails_with_def dest: calm_up_ready split: outcome.splits)

lemma make_valid:
  "valid (ready par (cDentry c)) (copy_up_make V j b c) (fails_with (\<lambda>_. ready par (cDentry c)) (\<lambda>_. up_ready par (cDentry c)))"
proof (rule valid_calm [OF calm_make])
  fix s s' r assume "ready par (cDentry c) s" "copy_up_make V j b c s = (r, s')" "calm s s'"
  moreover have "ovl_dentry_upper s' (cDentry c) \<noteq> None" if "copy_up_make V j b c s = (Ok u, s')" for u
    using that copy_up_locked_upper unfolding copy_up_make_def by (force simp: bindM_Ok split: if_splits)
  ultimately show "fails_with (\<lambda>_. ready par (cDentry c)) (\<lambda>_. up_ready par (cDentry c)) r s'"
    using calm_ready by (cases r) (auto simp: up_ready_def)
qed

lemma set_alias_valid:
  "valid (up_ready (Some p) d) (ovl_dentry_set_upper_alias d)
     (\<lambda>_ s. up_ready (Some p) d s \<and> ovl_dentry_has_upper_alias s d)"
  unfolding up_ready_def by (rule validI) (use set_alias_inv in blast)

lemma finish_valid:
  fixes V :: "'w vfs"
  assumes "b \<or> par \<noteq> None"
  shows "valid (up_ready par (cDentry c)) (copy_up_finish V b c) (\<lambda>_. up_ready par (cDentry c))"
proof -
  let ?P = "up_ready par (cDentry c)"
  have al: "par \<noteq> None \<Longrightarrow> valid ?P (ovl_dentry_set_upper_alias (cDentry c)) (\<lambda>_. ?P)"
    using set_alias_valid [of _ "cDentry c"] by (auto simp: valid_def)
  have last: "valid ?P (if b then ovl_set_nlink_upper V (cDentry c)
      else bindM (tryM (ovl_set_timestamps V (cDestdir c) (cPstat c))) (\<lambda>_. ovl_dentry_set_upper_alias (cDentry c))) (\<lambda>_. ?P)"
  proof (rule valid_if)
    show "valid ?P (ovl_set_nlink_upper V (cDentry c)) (\<lambda>_. ?P)"
      by (rule valid_calm [OF calm_set_nlink(1)]) (rule calm_up_ready)
    assume "\<not> b"
    then have "par \<noteq> None" using assms by simp
    from al [OF this] show "valid ?P (bindM (tryM (ovl_set_timestamps V (cDestdir c) (cPstat c)))
        (\<lambda>_. ovl_dentry_set_upper_alias (cDentry c))) (\<lambda>_. ?P)"
      by (rule valid_bind [OF calm_step, rotated]) (intro keeps_intro)
  qed
  show ?thesis
    unfolding copy_up_finish_def
  proof (rule valid_getM)
    fix s :: "'w ovl" assume "?P s"
    moreover have "valid ?P (bindM (if cIndexed c then ovl_set_flag OVL_INDEX (d_inode (dents s (cDentry c))) else ret ()) (\<lambda>_.
        if b then ovl_set_nlink_upper V (cDentry c)
        else bindM (tryM (ovl_set_timestamps V (cDestdir c) (cPstat c))) (\<lambda>_. ovl_dentry_set_upper_alias (cDentry c)))) (\<lambda>_. ?P)"
      by (rule valid_bind [OF calm_step last]) (intro keeps_intro)
    ultimately show "valid (\<lambda>t. t = s) (bindM (if cIndexed c then ovl_set_flag OVL_INDEX (d_inode (dents s (cDentry c))) else ret ()) (\<lambda>_.
        if b then ovl_set_nlink_upper V (cDentry c)
        else bindM (tryM (ovl_set_timestamps V (cDestdir c) (cPstat c))) (\<lambda>_. ovl_dentry_set_upper_alias (cDentry c)))) (\<lambda>_. ?P)"
      by (simp add: valid_def)
  qed
qed

lemma do_copy_up_valid:
  fixes V :: "'w vfs"
  shows "valid (ready (cParent c) (cDentry c)) (ovl_do_copy_up V j c)
     (\<lambda>r st. ready (cParent c) (cDentry c) st \<and> (is_ok r \<longrightarrow> up_ready (cParent c) (cDentry c) st))" (is "valid ?R _ ?Q")
  unfolding ovl_do_copy_up_def
proof (rule valid_getM)
  fix s :: "'w ovl" assume pre: "?R s"
  let ?b = "copy_to_index V s c" and ?c = "copy_up_plan V s c"
  have fin: "valid (up_ready (cParent c) (cDentry c)) (copy_up_finish V ?b c') ?Q" if "cDentry c' = cDentry c" "?b \<or> cParent c \<noteq> None" for c'
    using finish_valid [OF that(2), of c' V] that(1) by (auto simp: valid_def up_ready_def)
  have mk: "valid ?R (bindM (copy_up_make V j (tmpfile (ofs s)) c') (\<lambda>_. copy_up_finish V ?b c')) ?Q"
    if "cDentry c' = cDentry c" "?b \<or> cParent c \<noteq> None" for c'
    by (rule valid_bind [OF valid_weaken [OF make_valid [of "cParent c" c']] fin [OF that]])
      (use that(1) in \<open>auto simp: fails_with_def split: outcome.splits\<close>)
  have "valid ?R (bindM (copy_up_target V ?b ?c) (\<lambda>c'. bindM (copy_up_make V j (tmpfile (ofs s)) c') (\<lambda>_. copy_up_finish V ?b c'))) ?Q"
  proof (rule valid_bind [OF valid_weaken [OF target_valid [of ?c V ?b]]])
    fix c' show "valid (\<lambda>t. ?R t \<and> cDentry c' = cDentry c \<and> (?b \<or> cParent c \<noteq> None))
        (bindM (copy_up_make V j (tmpfile (ofs s)) c') (\<lambda>_. copy_up_finish V ?b c')) ?Q"
      using mk [of c'] by (auto simp: valid_def)
  qed (auto simp: fails_with_def split: outcome.splits)
  then show "valid (\<lambda>t. t = s) (bindM (copy_up_target V ?b ?c) (\<lambda>c'. bindM (copy_up_make V j (tmpfile (ofs s)) c')
      (\<lambda>_. copy_up_finish V ?b c'))) ?Q"
    using pre by (simp add: valid_def)
qed

text \<open>The outcome of one copy up: on success there is an upper dentry, and an alias unless disconnected.\<close>

definition up_done :: "dpath option \<Rightarrow> dpath \<Rightarrow> 'a outcome \<Rightarrow> 'w ovl \<Rightarrow> bool" where
  "up_done par d r st \<longleftrightarrow> ready par d st \<and>
     (is_ok r \<longrightarrow> ovl_dentry_upper st d \<noteq> None \<and> (par \<noteq> None \<longrightarrow> ovl_dentry_has_upper_alias st d))"

lemma up_done_fail: "ready par d st \<Longrightarrow> up_done par d (Err e) st" "ready par d st \<Longrightarrow> up_done par d (Panic m) st"
  by (simp_all add: up_done_def)

lemma calm_bind_done:
  assumes "\<And>t. keeps (calm t) m" "\<And>a. valid (up_ready par d) (f a) (up_done par d)"
  shows "valid (up_ready par d) (bindM m f) (up_done par d)"
  by (rule valid_bind [OF valid_weaken [OF calm_step [OF assms(1)]] assms(2)])
    (auto simp: fails_with_def up_done_def up_ready_def split: outcome.splits)

lemma link_up_valid:
  fixes V :: "'w vfs"
  shows "valid (up_ready (Some p) (cDentry c)) (ovl_link_up V q c) (up_done (Some p) (cDentry c))"
    (is "valid ?P _ ?Q")
proof -
  have nl: "valid (\<lambda>s. ?P s \<and> ovl_dentry_has_upper_alias s (cDentry c)) (ovl_set_nlink_upper V (cDentry c)) ?Q"
    by (rule valid_calm [OF calm_set_nlink(1)])
      (metis calm_alias calm_up_ready up_done_def up_ready_def)
  have last: "valid ?P (bindM (ovl_dentry_set_upper_alias (cDentry c)) (\<lambda>_. ovl_set_nlink_upper V (cDentry c))) ?Q"
    by (rule valid_bind [OF valid_weaken [OF set_alias_valid] nl])
      (auto simp: fails_with_def up_done_def up_ready_def split: outcome.splits)
  have fail: "valid ?P nilDeref ?Q"
    by (auto simp: valid_def nilDeref_def panicM_def up_done_def up_ready_def)
  have get: "valid ?P (bindM getM f) ?Q" if "\<And>s. valid ?P (f s) ?Q" for f :: "'w ovl \<Rightarrow> ('w ovl, unit) M"
    by (rule valid_getM) (use that in \<open>simp add: valid_def\<close>)
  have opt: "valid ?P (case x of None \<Rightarrow> nilDeref | Some u \<Rightarrow> f u) ?Q" if "\<And>u. valid ?P (f u) ?Q"
    for x and f :: "nat \<Rightarrow> ('w ovl, unit) M"
    using that fail by (cases x) auto
  show ?thesis
    unfolding ovl_link_up_def
    by (intro get opt calm_bind_done last) (intro keeps_intro)+
qed

lemma under_lock_valid:
  fixes V :: "'w vfs"
  shows "valid (ready (cParent c) (cDentry c)) (copy_up_under_lock V j c) (up_done (cParent c) (cDentry c))"
    (is "valid ?R _ ?Q")
proof -
  let ?P = "up_ready (cParent c) (cDentry c)"
  have rest: "valid ?P (bindM getM (\<lambda>st2. case cParent c of None \<Rightarrow> ret ()
     | Some p \<Rightarrow> if \<not> ovl_dentry_has_upper_alias st2 (cDentry c) then ovl_link_up V p c else ret ())) ?Q"
  proof (rule valid_getM)
    fix s :: "'w ovl" assume P: "?P s"
    show "valid (\<lambda>t. t = s) (case cParent c of None \<Rightarrow> ret ()
     | Some p \<Rightarrow> if \<not> ovl_dentry_has_upper_alias s (cDentry c) then ovl_link_up V p c else ret ()) ?Q"
    proof (cases "cParent c")
      case None
      then show ?thesis using P by (simp add: valid_def ret_def up_done_def up_ready_def)
    next
      case (Some p)
      then show ?thesis using P link_up_valid [of p c V p] by (simp add: valid_def ret_def up_done_def up_ready_def)
    qed
  qed
  show ?thesis
    unfolding copy_up_under_lock_def
  proof (rule valid_getM)
    fix s :: "'w ovl" assume R: "?R s"
    show "valid (\<lambda>t. t = s) (bindM (if ovl_dentry_upper s (cDentry c) = None then ovl_do_copy_up V j c else ret ()) (\<lambda>_.
        bindM getM (\<lambda>st2. case cParent c of None \<Rightarrow> ret ()
         | Some p \<Rightarrow> if \<not> ovl_dentry_has_upper_alias st2 (cDentry c) then ovl_link_up V p c else ret ()))) ?Q"
    proof (rule valid_bind [OF _ rest], rule valid_if)
      show "valid (\<lambda>t. t = s) (ovl_do_copy_up V j c) (fails_with ?Q (\<lambda>_. ?P))"
        using do_copy_up_valid [unfolded valid_def, rule_format, OF R]
        by (cases "fst (ovl_do_copy_up V j c s)") (simp_all add: valid_def up_done_def)
      show "valid (\<lambda>t. t = s) (ret ()) (fails_with ?Q (\<lambda>_. ?P))" if "ovl_dentry_upper s (cDentry c) \<noteq> None"
        using R that by (simp add: valid_def ret_def up_ready_def)
    qed
  qed
qed

text \<open>Other threads may copy files up while this one waits for a lock.\<close>

definition fair :: "('w ovl \<Rightarrow> 'w ovl) \<Rightarrow> bool" where
  "fair race \<longleftrightarrow> (\<forall>st. grows st (race st) \<and> (alias_inv st \<longrightarrow> alias_inv (race st)))"

lemma fair_ready: "fair race \<Longrightarrow> ready par d st \<Longrightarrow> ready par d (race st)"
proof -
  assume "fair race" "ready par d st"
  then have "grows st (race st)" "alias_inv (race st)" by (simp_all add: fair_def ready_def)
  with \<open>ready par d st\<close> show ?thesis using grows_upper [of st "race st"] by (cases d) (auto simp: ready_def)
qed

lemma grows_start: "fair race \<Longrightarrow> keeps (grows s) (ovl_copy_up_start V race d)"
  unfolding ovl_copy_up_start_def by (intro keeps_intro) (auto simp: fair_def intro: grows_trans)

lemma grows_one: "fair race \<Longrightarrow> keeps (grows s) (ovl_copy_up_one V j race par d flags)"
  unfolding ovl_copy_up_one_def copy_up_from_def copy_up_dest_def by (intro keeps_intro grows_start)

lemma calm_dest: "keeps (calm s) (copy_up_dest V par d)"
  unfolding copy_up_dest_def by (intro keeps_intro)

lemma calm_bind_ready:
  assumes "\<And>t. keeps (calm t) m" "\<And>a. valid (ready par d) (f a) (up_done par d)"
  shows "valid (ready par d) (bindM m f) (up_done par d)"
proof (rule valid_bind [OF valid_calm [OF assms(1)] assms(2)])
  fix s s' and r :: "'b outcome" assume "ready par d s" "calm s s'"
  then have "ready par d s'" using calm_ready by blast
  then show "fails_with (up_done par d) (\<lambda>_. ready par d) r s'" by (cases r) (simp_all add: up_done_def)
qed

lemma start_valid:
  assumes "fair race"
  shows "valid (ready par d) (ovl_copy_up_start V race d)
     (fails_with (up_done par d :: unit outcome \<Rightarrow> _) (\<lambda>b s. ready par d s \<and> (b \<longrightarrow> ovl_dentry_has_upper_alias s d)))"
proof (rule validI)
  fix s s' r assume R: "ready par d s" and run: "ovl_copy_up_start V race d s = (r, s')"
  obtain q t where q: "sysM (mutex_interrupted V) s = (q, t)" by fastforce
  have t: "ready par d t" using calm_ready [OF keepsD [OF calm_sys calm_refl q] R] .
  show "fails_with (up_done par d :: unit outcome \<Rightarrow> _) (\<lambda>b s. ready par d s \<and> (b \<longrightarrow> ovl_dentry_has_upper_alias s d)) r s'"
    using run q t fair_ready [OF assms t]
    by (cases q) (auto simp: ovl_copy_up_start_def bindM_def updM_def getM_def ret_def up_done_def)
qed

lemma ready_alias: "ready par d s \<Longrightarrow> ovl_dentry_has_upper_alias s d \<Longrightarrow> ovl_dentry_upper s d \<noteq> None"
  unfolding ready_def alias_inv_def by blast

lemma copy_up_one_valid:
  fixes V :: "'w vfs"
  assumes "fair race"
  shows "valid (ready par d) (ovl_copy_up_one V j race par d flags) (up_done par d)"
proof -
  have lock: "valid (ready par d) (copy_up_under_lock V j c) (up_done par d)" if "cParent c = par" "cDentry c = d" for c
    using under_lock_valid [of c V j] that by simp
  have already: "valid (\<lambda>s. ready par d s \<and> (b \<longrightarrow> ovl_dentry_has_upper_alias s d))
      (if b then ret () else copy_up_under_lock V j c) (up_done par d)" if "cParent c = par" "cDentry c = d" for b c
  proof (cases b)
    case True
    then show ?thesis by (auto simp: valid_def ret_def up_done_def dest: ready_alias)
  next
    case False
    then show ?thesis using lock [OF that] by simp
  qed
  have start: "valid (ready par d) (bindM (ovl_copy_up_start V race d) (\<lambda>b. if b then ret () else copy_up_under_lock V j c)) (up_done par d)"
    if "cParent c = par" "cDentry c = d" for c
    by (rule valid_bind [OF start_valid [OF assms] already [OF that]])
  have err: "valid (ready par d) (raise e :: ('w ovl, unit) M) (up_done par d)"
    "valid (ready par d) (nilDeref :: ('w ovl, unit) M) (up_done par d)" for e
    by (auto simp: valid_def raise_def nilDeref_def panicM_def up_done_def)
  have prod: "(\<And>a b c. valid P (g a b c) Q) \<Longrightarrow> valid P (case x of (a, b, c) \<Rightarrow> g a b c) Q"
    for P Q x and g :: "nat \<Rightarrow> string \<Rightarrow> kstat \<Rightarrow> ('w ovl, unit) M" by (cases x) simp
  have "valid (ready par d) (copy_up_from V j race par d flags work lower) (up_done par d)" for work lower
    unfolding copy_up_from_def Let_def
    by (intro calm_bind_ready calm_dest prod start keeps_intro) simp_all
  then show ?thesis
    unfolding ovl_copy_up_one_def
    by (intro valid_getM) (use err in \<open>auto simp: valid_def split: option.splits\<close>)
qed

section \<open>Copying up ends\<close>

text \<open>The dentries on the path, the root apart, that have no upper dentry.\<close>

fun missing :: "'w ovl \<Rightarrow> dpath \<Rightarrow> nat" where
  "missing st [] = 0"
| "missing st (n # p) = (if ovl_dentry_upper st (n # p) = None then 1 else 0) + missing st p"

lemma missing_length: "missing st d \<le> length d"
  by (induction d) auto

lemma missing_grows: "grows st st' \<Longrightarrow> missing st' d \<le> missing st d"
proof (induction d)
  case (Cons n p)
  then show ?case using grows_upper [of st st' "n # p"] by (auto split: if_splits)
qed simp

lemma topmost_spec:
  assumes "ovl_dentry_upper st [] \<noteq> None"
  shows "\<exists>p x. topmost st d = Some (p, x) \<and> ovl_dentry_upper st p \<noteq> None \<and> (x = [] \<and> p = [] \<or> (\<exists>n. x = n # p)) \<and>
     (x = d \<or> ovl_dentry_upper st x = None) \<and>
     (\<forall>st'. grows st st' \<and> ovl_dentry_upper st x = None \<and> ovl_dentry_upper st' x \<noteq> None \<longrightarrow> missing st' d < missing st d)"
proof (induction d)
  case Nil
  then show ?case using assms by simp
next
  case (Cons n p)
  show ?case
  proof (cases "ovl_dentry_upper st p = None")
    case True
    then have nd: "p \<noteq> []" using assms by auto
    from Cons obtain q x where t: "topmost st p = Some (q, x)" "ovl_dentry_upper st q \<noteq> None"
      "x = [] \<and> q = [] \<or> (\<exists>n. x = n # q)" "x = p \<or> ovl_dentry_upper st x = None"
      "\<forall>st'. grows st st' \<and> ovl_dentry_upper st x = None \<and> ovl_dentry_upper st' x \<noteq> None \<longrightarrow> missing st' p < missing st p"
      by blast
    have "missing st' (n # p) < missing st (n # p)"
      if "grows st st'" "ovl_dentry_upper st x = None" "ovl_dentry_upper st' x \<noteq> None" for st'
    proof -
      have "missing st' p < missing st p" using t(5) that by blast
      then show ?thesis using grows_upper [OF that(1), of "n # p"] by (auto split: if_splits)
    qed
    then show ?thesis using t True by auto
  next
    case False
    then show ?thesis using missing_grows [of st _ p] by (auto simp: less_Suc_eq_le)
  qed
qed

text \<open>One round of the loop.\<close>

definition next_up :: "'w ovl \<Rightarrow> dpath \<Rightarrow> (dpath option \<times> dpath) option" where
  "next_up st d =
     (if d_disconnected (dents st d) then Some (None, d) else map_option (\<lambda>(p, x). (Some p, x)) (topmost st d))"

lemma next_up_spec:
  assumes "ovl_dentry_upper st [] \<noteq> None" "alias_inv st"
  shows "\<exists>par x. next_up st d = Some (par, x) \<and> ready par x st \<and> (par = None \<longleftrightarrow> d_disconnected (dents st d)) \<and>
     (x = d \<or> ovl_dentry_upper st x = None) \<and> (par = None \<longrightarrow> x = d) \<and>
     (x \<noteq> d \<longrightarrow> (\<forall>st'. grows st st' \<and> ovl_dentry_upper st' x \<noteq> None \<longrightarrow> missing st' d < missing st d))"
proof (cases "d_disconnected (dents st d)")
  case True
  then show ?thesis using assms(2) by (auto simp: next_up_def ready_def)
next
  case False
  from topmost_spec [OF assms(1), of d] obtain p x where t: "topmost st d = Some (p, x)" "ovl_dentry_upper st p \<noteq> None"
    "x = [] \<and> p = [] \<or> (\<exists>n. x = n # p)" "x = d \<or> ovl_dentry_upper st x = None"
    "\<forall>st'. grows st st' \<and> ovl_dentry_upper st x = None \<and> ovl_dentry_upper st' x \<noteq> None \<longrightarrow> missing st' d < missing st d"
    by blast
  have "ready (Some p) x st" using t(2,3) assms(2) by (auto simp: ready_def)
  then show ?thesis using t(1,4,5) False by (auto simp: next_up_def)
qed

lemma up_done_copied:
  assumes "up_done par x (Ok u) st'" "par = None \<longleftrightarrow> d_disconnected (dents st' x)"
  shows "copied_up st' x"
  using assms by (auto simp: up_done_def copied_up_def)

lemma copy_up_loop_ends:
  fixes V :: "'w vfs"
  assumes "fair race" "ovl_dentry_upper st [] \<noteq> None" "alias_inv st"
    and "n \<ge> missing st d + 2 \<or> (copied_up st d \<and> n \<ge> 1)"
  shows "\<exists>r st'. copy_up_loop n V j race d flags st = Some (r, st') \<and> grows st st' \<and> alias_inv st' \<and>
     (r = Ok () \<longrightarrow> copied_up st' d)"
  using assms(2-)
proof (induction n arbitrary: st)
  case 0
  then show ?case by simp
next
  case (Suc n)
  show ?case
  proof (cases "copied_up st d")
    case True
    then show ?thesis using Suc.prems by simp
  next
    case False
    from next_up_spec [OF Suc.prems(1,2), of d] obtain par x where x: "next_up st d = Some (par, x)"
      "ready par x st" "par = None \<longleftrightarrow> d_disconnected (dents st d)" "x = d \<or> ovl_dentry_upper st x = None" "par = None \<longrightarrow> x = d"
      "x \<noteq> d \<longrightarrow> (\<forall>st'. grows st st' \<and> ovl_dentry_upper st' x \<noteq> None \<longrightarrow> missing st' d < missing st d)"
      by blast
    obtain r st1 where one: "ovl_copy_up_one V j race par x flags st = (r, st1)" by fastforce
    have ud: "up_done par x r st1" using validD [OF copy_up_one_valid [OF assms(1)] x(2) one] .
    have g: "grows st st1" using keepsD [OF grows_one [OF assms(1)] grows_refl one] .
    have inv: "alias_inv st1" using ud by (simp add: up_done_def ready_def)
    have loop: "copy_up_loop (Suc n) V j race d flags st =
        (case r of Ok _ \<Rightarrow> copy_up_loop n V j race d flags st1 | Err e \<Rightarrow> Some (Err e, st1) | Panic m \<Rightarrow> Some (Panic m, st1))"
      using False x(1) one by (cases r) (simp_all add: next_up_def)
    show ?thesis
    proof (cases r)
      case (Ok u)
      have "n \<ge> missing st1 d + 2 \<or> (copied_up st1 d \<and> n \<ge> 1)"
      proof (cases "x = d")
        case True
        have "par = None \<longleftrightarrow> d_disconnected (dents st1 x)" using x(3) g True by (simp add: grows_def)
        then have "copied_up st1 d" using up_done_copied [of par x u st1] ud Ok True by simp
        then show ?thesis using Suc.prems(3) False by simp
      next
        case False
        then have "missing st1 d < missing st d" using x(6) g ud Ok by (simp add: up_done_def)
        then show ?thesis using Suc.prems(3) \<open>\<not> copied_up st d\<close> by linarith
      qed
      moreover have "ovl_dentry_upper st1 [] \<noteq> None" using grows_upper [OF g Suc.prems(1)] .
      ultimately obtain r' st' where "copy_up_loop n V j race d flags st1 = Some (r', st') \<and> grows st1 st' \<and> alias_inv st' \<and>
          (r' = Ok () \<longrightarrow> copied_up st' d)" using Suc.IH [OF _ inv] by blast
      then show ?thesis using loop Ok grows_trans [OF g, of st'] by auto
    qed (use loop g inv in auto)
  qed
qed

end
