(* ===== verification/Overlay_Open.thy ===== *)
theory Overlay_Open
  imports Overlay_Copy_Up "HOL-Library.Code_Target_Nat"
begin

text \<open>
  What opening a file does (\<open>overlayfs/inode.c\<close>, \<open>overlayfs/super.c\<close>): whether it copies the file
  up, with and without the \<open>simp\<close> option, and which real dentry the open file gets.
\<close>

section \<open>Opening\<close>

text \<open>
  \<open>OPEN_FMODE\<close> adds one to the access mode in the low two bits of the flags, which gives the bits
  \<open>FMODE_READ\<close> (1) and \<open>FMODE_WRITE\<close> (2); the bit \<open>FMODE_EXEC\<close> (32) is never among them.
\<close>

definition OPEN_FMODE :: "nat \<Rightarrow> nat" where
  "OPEN_FMODE flags = (flags + 1) mod 4"

definition fmode_read :: "nat \<Rightarrow> bool" where
  "fmode_read m \<longleftrightarrow> odd m"

definition fmode_write :: "nat \<Rightarrow> bool" where
  "fmode_write m \<longleftrightarrow> odd (m div 2)"

definition fmode_exec :: "nat \<Rightarrow> bool" where
  "fmode_exec m \<longleftrightarrow> odd (m div 32)"

definition ovl_open_need_copy_up :: "'w ovl \<Rightarrow> dpath \<Rightarrow> nat \<Rightarrow> bool" where
  "ovl_open_need_copy_up st d flags =
     (if simp_on (config (ofs st)) then True
      else if ovl_dentry_upper st d \<noteq> None \<and> (ovl_dentry_has_upper_alias st d \<or> d_disconnected (dents st d)) then False
      else if special_file (i_type (inodeOf st d)) then False
      else if \<not> fmode_write (OPEN_FMODE flags) \<and> \<not> O_TRUNC_set flags then False
      else True)"

text \<open>\<open>None\<close> is a run that does not end within the fuel.\<close>

definition ovl_open_maybe_copy_up ::
  "nat \<Rightarrow> 'w vfs \<Rightarrow> int \<Rightarrow> ('w ovl \<Rightarrow> 'w ovl) \<Rightarrow> dpath \<Rightarrow> nat \<Rightarrow> 'w ovl \<Rightarrow> (unit outcome \<times> 'w ovl) option" where
  "ovl_open_maybe_copy_up fuel V junk race d flags st =
     (if ovl_open_need_copy_up st d flags then
        (case ovl_want_write V st of
           (Ok _, st1) \<Rightarrow>
             (case ovl_copy_up_flags fuel V junk race d flags st1 of
                None \<Rightarrow> None
              | Some (Panic m, st2) \<Rightarrow> Some (Panic m, st2)
              | Some (r, st2) \<Rightarrow> Some (r, snd (ovl_drop_write V st2)))
         | (Err e, st1) \<Rightarrow> Some (Err e, st1)
         | (Panic m, st1) \<Rightarrow> Some (Panic m, st1))
      else Some (Ok (), st))"

definition ovl_check_append_only :: "rdentry \<Rightarrow> nat \<Rightarrow> int" where
  "ovl_check_append_only r flag =
     (if rAppend r then
        if flag mod 4 \<noteq> 0 \<and> \<not> odd (flag div 1024) then - EPERM
        else if O_TRUNC_set flag then - EPERM
        else 0
      else 0)"

section \<open>The real dentry of an open file\<close>

text \<open>
  The inode asked for is none, one of the overlay or one below it; the answer is the overlay
  dentry itself, a real one, or the null pointer.
\<close>

datatype inode_ref = AnyInode | OvlInode nat | RealInode nat

datatype dreal = SelfDentry | RealDentry nat | NullDentry

fun matches :: "'w vfs \<Rightarrow> 'w ovl \<Rightarrow> inode_ref \<Rightarrow> nat \<Rightarrow> bool" where
  "matches V st AnyInode r = True"
| "matches V st (OvlInode n) r = False"
| "matches V st (RealInode n) r = (rInode (rd V (world st) r) = Some n)"

text \<open>
  \<open>ovl_d_real\<close> after the copy up.  The label \<open>upper\<close> falls through to the label \<open>lower\<close>, and without
  a lower dentry \<open>lower\<close> goes back to \<open>upper\<close>, once.  \<open>below\<close> is \<open>d_real\<close> on the lower file system,
  which may be an overlay itself.
\<close>

datatype d_real_label = At_upper | At_lower

function d_real_goto ::
  "'w vfs \<Rightarrow> (nat \<Rightarrow> inode_ref \<Rightarrow> nat \<Rightarrow> nat) \<Rightarrow> dpath \<Rightarrow> inode_ref \<Rightarrow> nat \<Rightarrow> 'w ovl \<Rightarrow> bool \<Rightarrow> d_real_label \<Rightarrow>
     dreal outcome" where
  "d_real_goto V below d inode open_flags st once At_upper =
     (case ovl_dentry_upper st d of
        None \<Rightarrow> d_real_goto V below d inode open_flags st once At_lower
      | Some u \<Rightarrow>
          if matches V st inode u then
            (let err = ovl_check_append_only (rd V (world st) u) open_flags
             in if inode = AnyInode \<and> err \<noteq> 0 then Err (Errno err) else Ok (RealDentry u))
          else d_real_goto V below d inode open_flags st once At_lower)"
| "d_real_goto V below d inode open_flags st once At_lower =
     (case ovl_dentry_lower st d of
        None \<Rightarrow> if once then d_real_goto V below d inode open_flags st False At_upper else Ok SelfDentry
      | Some l \<Rightarrow>
          let r = below l inode open_flags in if matches V st inode r then Ok (RealDentry r) else Ok SelfDentry)"
  by pat_completeness auto
termination
  by (relation "measure (\<lambda>(V, below, d, inode, flags, st, once, l).
        (if once then 2 else 0) + (case l of At_upper \<Rightarrow> 1 | At_lower \<Rightarrow> 0))") auto

declare d_real_goto.simps [simp del]

text \<open>The test on the access mode reads \<open>flags\<close>, not \<open>open_flags\<close>.\<close>

definition d_real_pick ::
  "'w vfs \<Rightarrow> (nat \<Rightarrow> inode_ref \<Rightarrow> nat \<Rightarrow> nat) \<Rightarrow> dpath \<Rightarrow> inode_ref \<Rightarrow> nat \<Rightarrow> nat \<Rightarrow> 'w ovl \<Rightarrow> dreal outcome" where
  "d_real_pick V below d inode open_flags flags st =
     d_real_goto V below d inode open_flags st True
       (if fmode_exec (OPEN_FMODE flags) \<or> fmode_read (OPEN_FMODE flags) then At_lower else At_upper)"

definition D_REAL_UPPER_set :: "nat \<Rightarrow> bool" where
  "D_REAL_UPPER_set flags \<longleftrightarrow> odd (flags div 2)"

definition ovl_d_real ::
  "nat \<Rightarrow> 'w vfs \<Rightarrow> int \<Rightarrow> ('w ovl \<Rightarrow> 'w ovl) \<Rightarrow> (nat \<Rightarrow> inode_ref \<Rightarrow> nat \<Rightarrow> nat) \<Rightarrow>
     dpath \<Rightarrow> inode_ref \<Rightarrow> nat \<Rightarrow> nat \<Rightarrow> 'w ovl \<Rightarrow> (dreal outcome \<times> 'w ovl) option" where
  "ovl_d_real fuel V junk race below d inode open_flags flags st =
     (let t = d_type (dents st d);
          copy = (case ovl_open_maybe_copy_up fuel V junk race d open_flags st of
                    None \<Rightarrow> None
                  | Some (Err e, st1) \<Rightarrow> Some (Err e, st1)
                  | Some (Panic m, st1) \<Rightarrow> Some (Panic m, st1)
                  | Some (Ok _, st1) \<Rightarrow> Some (d_real_pick V below d inode open_flags flags st1, st1))
      in if simp_on (config (ofs st)) \<and> (t = S_IFLNK \<or> t = S_IFDIR) then copy
         else if D_REAL_UPPER_set flags then
           Some (Ok (case ovl_dentry_upper st d of None \<Rightarrow> NullDentry | Some u \<Rightarrow> RealDentry u), st)
         else if t \<noteq> S_IFREG then Some (Ok SelfDentry, st)
         else copy)"

section \<open>A small mount\<close>

text \<open>
  A kernel whose services succeed and whose state is the data of the files below, and an overlay
  over it with a root and one regular file of the lower layer.  The witnesses use them.
\<close>

definition mem_dentry :: rdentry where
  "mem_dentry = \<lparr>rInode = Some 0, rType = S_IFREG, rNlink = 1, rIno = 0,
     rAttrs = \<lparr>aUid = 0, aGid = 0, aMode = 0, aAtime = 0, aMtime = 0, aCtime = 0\<rparr>, rRemote = False, rWeird = False,
     rWhiteout = False, rAppend = False, rXattrOps = False, rUnhashed = False, rName = '''', rParent = 0,
     rExportOp = None, rUuidNull = True, rUuid = ''''\<rparr>"

definition mem_write :: "nat \<Rightarrow> nat \<Rightarrow> string \<Rightarrow> (nat \<Rightarrow> string) \<Rightarrow> (nat \<Rightarrow> string)" where
  "mem_write f pos s w = w(f := take pos (w f) @ s @ drop (pos + length s) (w f))"

definition mem_splice :: "nat \<Rightarrow> nat \<Rightarrow> nat \<Rightarrow> nat \<Rightarrow> nat \<Rightarrow> (nat \<Rightarrow> string, int) ask" where
  "mem_splice old p new q n w =
     (let s = take n (drop p (w old)) in (int (length s), mem_write new q s w))"

definition mem_vfs :: "(nat \<Rightarrow> string) vfs" where
  "mem_vfs =
     (let ok = (\<lambda>w. (Inr (), w)) in
     \<lparr>rd = (\<lambda>w n. mem_dentry\<lparr>rInode := Some n\<rparr>), kalloc = ok, mutex_interrupted = ok, mnt_want_write = ok, mnt_drop_write = (\<lambda>w. w),
      vfs_getattr = (\<lambda>r w. (Inr (zero_stat\<lparr>kNlink := 1, kSize := length (w r)\<rparr>), w)),
      vfs_get_link = (\<lambda>r w. (Inr '''', w)), vfs_getxattr = (\<lambda>r n k w. (Inr (0, ''''), w)),
      vfs_setxattr = (\<lambda>r n v. ok), vfs_removexattr = (\<lambda>r n. ok), vfs_listxattr = (\<lambda>r n w. (Inr (0, ''''), w)),
      notify_change = (\<lambda>r a. ok), lookup_one_len = (\<lambda>n r w. (Inr 50, w)), vfs_create = (\<lambda>a b c. ok),
      vfs_mkdir = (\<lambda>a b c. ok), vfs_mknod = (\<lambda>a b c d. ok), vfs_symlink = (\<lambda>a b c. ok), vfs_link = (\<lambda>a b c. ok),
      vfs_rename = (\<lambda>a b c d e. ok), vfs_rmdir = (\<lambda>a b. ok), vfs_unlink = (\<lambda>a b. ok), vfs_whiteout = (\<lambda>a b. ok),
      vfs_tmpfile = (\<lambda>a b w. (Inr 60, w)), lock_rename_trap = (\<lambda>a b w. (False, w)), dentry_open = (\<lambda>a b. ok),
      vfs_clone_file_range = (\<lambda>a b c w. (Inl (- EOPNOTSUPP), w)), do_splice_direct = mem_splice, vfs_fsync = (\<lambda>a. ok),
      signal_pending = (\<lambda>w. (False, w)), security_inode_copy_up = ok, security_inode_copy_up_xattr = (\<lambda>n w. (0, w)),
      exportfs_encode_fh = (\<lambda>r w. ((1, ''''), w)), temp_id = (\<lambda>w. (0, w))\<rparr>)"

definition demo_ovl :: "bool \<Rightarrow> bool \<Rightarrow> (nat \<Rightarrow> string) ovl" where
  "demo_ovl upper simp =
     \<lparr>ofs = \<lparr>config = (default_config plain_params)\<lparr>simp_on := simp\<rparr>, upper_mnt = upper, upper_sb = 0, lower_fs = [(1, 1)],
             workdir = (if upper then Some 2 else None), indexdir = None, tmpfile = True, noxattr = False, xino_bits = 0,
             exported = False, s_dev = 0\<rparr>,
      dents = (\<lambda>d. if d = [] then \<lparr>d_inode = 0, d_negative = False, d_type = S_IFDIR, d_disconnected = False,
                                    oeFlags = (if upper then {OVL_E_UPPER_ALIAS} else {}), lowerstack = []\<rparr>
                   else \<lparr>d_inode = 1, d_negative = False, d_type = S_IFREG, d_disconnected = False, oeFlags = {},
                         lowerstack = [(\<lparr>layerIdx = 1, layerFsid = 1\<rparr>, 7)]\<rparr>),
      inodes = (\<lambda>i. \<lparr>oiRedirect = None, oiVersion = 0, oiFlags = {}, upperdentry = (if i = 0 \<and> upper then Some 100 else None),
                     oiLower = Some 7, i_type = (if i = 0 then S_IFDIR else S_IFREG), i_ino = 0, i_nlink = 1,
                     i_attrs = rAttrs mem_dentry, i_private = None\<rparr>),
      world = (\<lambda>r. if r = 7 then ''data'' else '''')\<rparr>"

lemma demo_root: "ovl_dentry_upper (demo_ovl True s) [] \<noteq> None"
  by (simp add: demo_ovl_def ovl_dentry_upper_def)

lemma demo_alias: "alias_inv (demo_ovl True s)"
  by (simp add: alias_inv_def demo_ovl_def ovl_dentry_upper_def ovl_dentry_has_upper_alias_def ovl_dentry_test_flag_def)

lemma fair_id: "fair (\<lambda>st. st)"
  by (simp add: fair_def)

section \<open>Opening: properties\<close>

lemma want_write_calm: "ovl_want_write V st = (r, st1) \<Longrightarrow> calm st st1"
  by (auto simp: ovl_want_write_def bindM_def getM_def sysM_def nilDeref_def panicM_def calm_def grows_def
      split: if_splits sum.splits prod.splits)

lemma drop_write_calm: "calm st (snd (ovl_drop_write V st))"
  by (simp add: ovl_drop_write_def updM_def calm_def grows_def)

lemma calm_copied_up: "calm st st' \<Longrightarrow> copied_up st d \<Longrightarrow> copied_up st' d"
  unfolding copied_up_def by (metis calm_alias calm_def calm_upper grows_def)

lemma copy_up_flags_ends:
  assumes "fair race" "ovl_dentry_upper st [] \<noteq> None" "alias_inv st" "fuel \<ge> length d + 2"
  obtains r st' where "ovl_copy_up_flags fuel V j race d flags st = Some (r, st')" "grows st st'" "alias_inv st'"
    "r = Ok () \<Longrightarrow> copied_up st' d"
proof (cases "d_disconnected (dents st d) \<and> d_is_dir st d")
  case True
  show ?thesis by (rule that [of "Err (Errno (- EIO))" st]) (simp_all add: ovl_copy_up_flags_def True assms)
next
  case False
  have "fuel \<ge> missing st d + 2" using assms(4) missing_length [of st d] by linarith
  then obtain r st' where "copy_up_loop fuel V j race d flags st = Some (r, st')" "grows st st'" "alias_inv st'"
    "r = Ok () \<longrightarrow> copied_up st' d"
    using copy_up_loop_ends [OF assms(1-3), where n = fuel and d = d and V = V and j = j and flags = flags] by blast
  moreover have "ovl_copy_up_flags fuel V j race d flags st = copy_up_loop fuel V j race d flags st"
    using False by (auto simp: ovl_copy_up_flags_def)
  ultimately show ?thesis using that [of r st'] by simp
qed

text \<open>
  C4: Copying up a file ends after at most two more rounds than its path has components, whatever
  the services of the kernel answer and whatever other copy ups do while it waits for the lock of
  the inode.  No upper dentry and no alias is lost.  When it reports success the file has an upper
  dentry and is linked into an upper parent, unless it is disconnected from the tree.
\<close>

theorem copy_up_ends:
  assumes "fair race" "ovl_dentry_upper st [] \<noteq> None" "alias_inv st" "fuel \<ge> length d + 2"
  shows "\<exists>r st'. ovl_copy_up_flags fuel V junk race d flags st = Some (r, st') \<and> grows st st' \<and> alias_inv st' \<and>
     (r = Ok () \<longrightarrow> copied_up st' d)"
  using copy_up_flags_ends [OF assms] by metis

theorem copy_up_ends_witness:
  "\<exists>st'. ovl_copy_up_flags 3 mem_vfs 0 (\<lambda>st. st) [''a''] 1 (demo_ovl True False) = Some (Ok (), st') \<and>
     copied_up st' [''a'']"
proof -
  have "map_option fst (ovl_copy_up_flags 3 mem_vfs 0 (\<lambda>st. st) [''a''] 1 (demo_ovl True False)) = Some (Ok ())" by code_simp
  then show ?thesis
    using copy_up_ends [OF fair_id demo_root [of False] demo_alias,
      where d = "[''a'']" and fuel = 3 and V = mem_vfs and junk = 0 and flags = 1] by auto
qed

text \<open>
  C6: With the option \<open>simp\<close> every open of a file copies it up first, an open for reading included:
  an open that succeeds leaves the file in the upper layer, linked into its upper parent.
\<close>

theorem simp_open_copies_up:
  assumes "simp_on (config (ofs st))" "fair race" "ovl_dentry_upper st [] \<noteq> None" "alias_inv st" "fuel \<ge> length d + 2"
  shows "\<exists>r st'. ovl_open_maybe_copy_up fuel V junk race d flags st = Some (r, st') \<and> alias_inv st' \<and>
     (r = Ok () \<longrightarrow> copied_up st' d)"
proof -
  obtain r0 st1 where w: "ovl_want_write V st = (r0, st1)" by fastforce
  have c: "calm st st1" by (rule want_write_calm [OF w])
  have inv: "alias_inv st1" "ovl_dentry_upper st1 [] \<noteq> None"
    using calm_inv [OF c assms(4)] calm_upper [OF c assms(3)] by blast+
  have need: "ovl_open_need_copy_up st d flags" by (simp add: ovl_open_need_copy_up_def assms(1))
  obtain r st2 where f: "ovl_copy_up_flags fuel V junk race d flags st1 = Some (r, st2)" "grows st1 st2" "alias_inv st2"
    "r = Ok () \<Longrightarrow> copied_up st2 d"
    using copy_up_flags_ends [OF assms(2) inv(2,1) assms(5)] by metis
  have dw: "calm st2 (snd (ovl_drop_write V st2))" by (rule drop_write_calm)
  show ?thesis
    using need w f inv calm_inv [OF dw f(3)] calm_copied_up [OF dw, of d]
    by (auto simp: ovl_open_maybe_copy_up_def split: outcome.splits)
qed

theorem simp_open_copies_up_witness:
  "\<exists>st'. ovl_open_maybe_copy_up 3 mem_vfs 0 (\<lambda>st. st) [''a''] 0 (demo_ovl True True) = Some (Ok (), st') \<and>
     copied_up st' [''a'']"
proof -
  have "map_option fst (ovl_open_maybe_copy_up 3 mem_vfs 0 (\<lambda>st. st) [''a''] 0 (demo_ovl True True)) = Some (Ok ())" by code_simp
  moreover have "simp_on (config (ofs (demo_ovl True True)))" by (simp add: demo_ovl_def)
  ultimately show ?thesis
    using simp_open_copies_up [OF _ fair_id demo_root [of True] demo_alias,
      where d = "[''a'']" and fuel = 3 and V = mem_vfs and junk = 0 and flags = 0] by auto
qed



text \<open>
  C36: With \<open>simp\<close> and no upper layer, a mount the module accepts, every open of a file
  dereferences the null pointer in place of the upper mount.
\<close>

theorem simp_without_upper_crashes:
  assumes "simp_on (config (ofs st))" "\<not> upper_mnt (ofs st)"
  shows "\<exists>m. ovl_open_maybe_copy_up fuel V junk race d flags st = Some (Panic m, st)"
  using assms
  by (simp add: ovl_open_maybe_copy_up_def ovl_open_need_copy_up_def ovl_want_write_def bindM_def getM_def
      nilDeref_def panicM_def)

theorem simp_without_upper_crashes_witness:
  "\<exists>m. ovl_open_maybe_copy_up 5 mem_vfs 0 (\<lambda>st. st) [''a''] 0 (demo_ovl False True) = Some (Panic m, demo_ovl False True)"
  by (rule simp_without_upper_crashes) (simp_all add: demo_ovl_def)

text \<open>
  C22: Asking for the real dentry of a regular file that has a lower dentry never gives the upper
  one: after a copy up that succeeded the answer is what the lower file system gives, also when
  the file is opened for writing.  The code says it tests the flags of the open; it tests the
  other flags, which the kernel passes as zero, and zero reads as an open for reading.
\<close>

theorem write_open_gets_lower:
  assumes "d_type (dents st d) = S_IFREG" "ovl_open_maybe_copy_up fuel V junk race d open_flags st = Some (Ok (), st1)"
    and "ovl_dentry_lower st1 d = Some l"
  shows "ovl_d_real fuel V junk race below d AnyInode open_flags 0 st = Some (Ok (RealDentry (below l AnyInode open_flags)), st1)"
  using assms
  by (simp add: ovl_d_real_def D_REAL_UPPER_set_def d_real_pick_def OPEN_FMODE_def fmode_read_def d_real_goto.simps Let_def)

theorem write_open_gets_lower_witness:
  "\<exists>st1. ovl_d_real 3 mem_vfs 0 (\<lambda>st. st) (\<lambda>l i f. l) [''a''] AnyInode 1 0 (demo_ovl True False) = Some (Ok (RealDentry 7), st1) \<and>
     ovl_dentry_upper st1 [''a''] = Some 50"
proof -
  let ?o = "ovl_open_maybe_copy_up 3 mem_vfs 0 (\<lambda>st. st) [''a''] 1 (demo_ovl True False)"
  have "map_option (\<lambda>(r, st1). (r, ovl_dentry_upper st1 [''a''], ovl_dentry_lower st1 [''a''])) ?o = Some (Ok (), Some 50, Some 7)"
    by code_simp
  then obtain st1 where "?o = Some (Ok (), st1)" "ovl_dentry_upper st1 [''a''] = Some 50" "ovl_dentry_lower st1 [''a''] = Some 7"
    by auto
  then show ?thesis using write_open_gets_lower [of "demo_ovl True False" "[''a'']" 3 mem_vfs 0 "\<lambda>st. st" 1 st1 7 "\<lambda>l i f. l"]
    by (simp add: demo_ovl_def)
qed

end
