(* ===== verification/Overlay_Contents.thy ===== *)
theory Overlay_Contents
  imports Overlay_Open
begin

text \<open>
  What a copy up carries over (\<open>overlayfs/copy_up.c\<close>): the data and the extended attributes of
  the file, the handle that names the origin of the copy, and the link count kept in an extended
  attribute.
\<close>

section \<open>Data\<close>

text \<open>
  What the copy relies on, with \<open>data\<close> giving the bytes of a file below.  A splice moves at most
  what it is asked to move, from inside the source, and moves nothing only at its end; a clone
  copies the range; opening, syncing and looking for a signal leave the data alone.
\<close>

definition splice_law :: "'w vfs \<Rightarrow> ('w \<Rightarrow> nat \<Rightarrow> string) \<Rightarrow> bool" where
  "splice_law V data \<longleftrightarrow>
     (\<forall>old p new q n w b w'. old \<noteq> new \<longrightarrow> do_splice_direct V old p new q n w = (b, w') \<longrightarrow> 0 \<le> b \<longrightarrow>
        nat b \<le> n \<and> (0 < b \<longrightarrow> p + nat b \<le> length (data w old)) \<and> (b = 0 \<longrightarrow> 0 < n \<longrightarrow> length (data w old) \<le> p) \<and>
        data w' = (data w)(new := take q (data w new) @ take (nat b) (drop p (data w old)) @ drop (q + nat b) (data w new)))"

definition clone_law :: "'w vfs \<Rightarrow> ('w \<Rightarrow> nat \<Rightarrow> string) \<Rightarrow> bool" where
  "clone_law V data \<longleftrightarrow>
     (\<forall>old new len w r w'. old \<noteq> new \<longrightarrow> vfs_clone_file_range V old new len w = (r, w') \<longrightarrow>
        data w' = (case r of Inl e \<Rightarrow> data w | Inr _ \<Rightarrow> (data w)(new := take len (data w old) @ drop len (data w new))))"

definition quiet_law :: "'w vfs \<Rightarrow> ('w \<Rightarrow> nat \<Rightarrow> string) \<Rightarrow> bool" where
  "quiet_law V data \<longleftrightarrow>
     (\<forall>w. data (snd (signal_pending V w)) = data w) \<and>
     (\<forall>r b w. data (snd (dentry_open V r b w)) = data w) \<and> (\<forall>r w. data (snd (vfs_fsync V r w)) = data w)"

lemma data_loop_copies:
  assumes "splice_law V data" "quiet_law V data" "old \<noteq> new"
    and "copy_data_loop V old new pos len st = (Ok u, st')"
    and "data (world st) new = take pos (data (world st) old)" "pos \<le> length (data (world st) old)"
  shows "data (world st') = (data (world st))(new := take (pos + len) (data (world st) old))"
  using assms
proof (induction V old new pos len arbitrary: st rule: copy_data_loop.induct)
  case (1 V old new pos len)
  show ?case
  proof (cases "len = 0")
    case True
    then show ?thesis using "1.prems"(4,5) by (simp add: copy_data_loop.simps [of V old new pos] ret_def fun_upd_idem)
  next
    case False
    obtain sig w1 where sig: "signal_pending V (world st) = (sig, w1)" by fastforce
    have d1: "data w1 = data (world st)" using "1.prems"(2) sig unfolding quiet_law_def by (metis snd_conv)
    obtain b w2 where sp: "do_splice_direct V old pos new pos (min len OVL_COPY_UP_CHUNK_SIZE) w1 = (b, w2)" by fastforce
    have run: "copy_data_loop V old new pos len st =
        (if sig then (Err (Errno (- EINTR)), st\<lparr>world := w1\<rparr>)
         else if b \<le> 0 then errno b (st\<lparr>world := w2\<rparr>)
         else copy_data_loop V old new (pos + nat b) (len - nat b) (st\<lparr>world := w2\<rparr>))"
      using False sig sp by (subst copy_data_loop.simps) (simp add: bindM_def askM_def raise_def)
    have sig0: "\<not> sig" and b0: "0 \<le> b" using run "1.prems"(4) by (auto simp: errno_def raise_def split: if_splits)
    have n: "0 < min len OVL_COPY_UP_CHUNK_SIZE" using False by (simp add: OVL_COPY_UP_CHUNK_SIZE_def)
    note law = "1.prems"(1) [unfolded splice_law_def, rule_format, OF "1.prems"(3) sp b0]
    let ?old = "data (world st) old"
    show ?thesis
    proof (cases "b = 0")
      case True
      then have "length ?old \<le> pos" "st' = st\<lparr>world := w2\<rparr>" using law n d1 run "1.prems"(4) sig0 by (simp_all add: errno_def ret_def)
      then show ?thesis using law True d1 "1.prems"(5) by (simp add: fun_upd_idem)
    next
      case False
      have bl: "nat b \<le> len" "pos + nat b \<le> length ?old" using law False b0 d1 by auto
      have d2: "data w2 = (data (world st))(new := take (pos + nat b) ?old)"
        using law d1 "1.prems"(5,6) by (simp add: take_add)
      have rest: "copy_data_loop V old new (pos + nat b) (len - nat b) (st\<lparr>world := w2\<rparr>) = (Ok u, st')"
        using run "1.prems"(4) sig0 False b0 by simp
      have w2: "world (st\<lparr>world := w2\<rparr>) = w2" by simp
      have pre: "data w2 new = take (pos + nat b) (data w2 old)" "pos + nat b \<le> length (data w2 old)"
        using d2 bl(2) "1.prems"(3) by simp_all
      have "data (world st') = (data w2)(new := take (pos + nat b + (len - nat b)) (data w2 old))"
        by (rule "1.IH" [OF \<open>len \<noteq> 0\<close> sig0 _ "1.prems"(1-3) rest, unfolded w2]) (use pre False b0 in simp_all)
      also have "\<dots> = (data (world st))(new := take (pos + len) ?old)"
        unfolding d2 using bl "1.prems"(3) by simp
      finally show ?thesis .
    qed
  qed
qed

text \<open>
  C15: When copying the data of a file reports success, the new file holds exactly the first
  \<open>len\<close> bytes of the old one and no other file has changed, whether the file system could clone
  the file or the loop moved it chunk by chunk.
\<close>

theorem copy_up_data_copies:
  assumes "splice_law V data" "clone_law V data" "quiet_law V data" "old \<noteq> new" "data (world st) new = []"
    and "ovl_copy_up_data V old new len st = (Ok u, st')"
  shows "data (world st') = (data (world st))(new := take len (data (world st) old))"
proof (cases "len = 0")
  case True
  then show ?thesis using assms(5,6) by (simp add: ovl_copy_up_data_def ret_def fun_upd_idem)
next
  case False
  obtain r1 w1 where o1: "dentry_open V old False (world st) = (r1, w1)" by fastforce
  obtain r2 w2 where o2: "dentry_open V new True w1 = (r2, w2)" by fastforce
  obtain r3 w3 where cl: "vfs_clone_file_range V old new len w2 = (r3, w3)" by fastforce
  have d2: "data w2 = data (world st)" using assms(3) o1 o2 unfolding quiet_law_def by (metis snd_conv)
  have d3: "data w3 = (case r3 of Inl e \<Rightarrow> data w2 | Inr _ \<Rightarrow> (data w2)(new := take len (data w2 old) @ drop len (data w2 new)))"
    using assms(2) cl assms(4) unfolding clone_law_def by metis
  obtain m st4 where m: "catchM (sysM (vfs_clone_file_range V old new len)) (\<lambda>_. copy_data_loop V old new 0 len) (st\<lparr>world := w2\<rparr>)
      = (Ok m, st4)" and f: "sysM (vfs_fsync V new) st4 = (Ok u, st')"
    using assms(6) False o1 o2 by (auto simp: ovl_copy_up_data_def bindM_def sysM_def split: sum.splits outcome.splits prod.splits)
  have "data (world st4) = (data w2)(new := take len (data w2 old))"
  proof (cases r3)
    case (Inl e)
    then have "copy_data_loop V old new 0 len (st\<lparr>world := w3\<rparr>) = (Ok m, st4)" using m cl by (simp add: catchM_def sysM_def)
    from data_loop_copies [OF assms(1,3,4) this] show ?thesis using d3 Inl d2 assms(5) by simp
  next
    case (Inr a)
    then show ?thesis using m cl d3 d2 assms(5) by (auto simp: catchM_def sysM_def)
  qed
  moreover have "data (world st') = data (world st4)"
  proof -
    obtain r5 w5 where s: "vfs_fsync V new (world st4) = (r5, w5)" by fastforce
    then have "st' = st4\<lparr>world := w5\<rparr>" using f by (auto simp: sysM_def split: sum.splits)
    moreover have "data w5 = data (world st4)" using assms(3) s unfolding quiet_law_def by (metis snd_conv)
    ultimately show ?thesis by simp
  qed
  ultimately show ?thesis using d2 by simp
qed

lemma take_min_drop: "take (min (length s - p) n) (drop p s) = take n (drop p s)"
  by (simp add: min_def)

lemma mem_splice_law: "splice_law mem_vfs (\<lambda>w. w)"
  unfolding splice_law_def mem_vfs_def
  by (auto simp: mem_splice_def mem_write_def Let_def take_min_drop)

theorem copy_up_data_copies_witness:
  "\<exists>st'. ovl_copy_up_data mem_vfs 7 8 3 (demo_ovl True True) = (Ok (), st') \<and> world st' 8 = ''dat''"
proof -
  have ok: "fst (ovl_copy_up_data mem_vfs 7 8 3 (demo_ovl True True)) = Ok ()" by code_simp
  then obtain st' where st': "ovl_copy_up_data mem_vfs 7 8 3 (demo_ovl True True) = (Ok (), st')" by (metis prod.collapse)
  have "clone_law mem_vfs (\<lambda>w. w)" "quiet_law mem_vfs (\<lambda>w. w)"
    by (simp_all add: clone_law_def quiet_law_def mem_vfs_def Let_def)
  from copy_up_data_copies [OF mem_splice_law this _ _ st'] st' show ?thesis by (simp add: demo_ovl_def)
qed

section \<open>Extended attributes\<close>

definition xattr_limit :: "'w vfs \<Rightarrow> bool" where
  "xattr_limit V \<longleftrightarrow> (\<forall>r n k w s v w'. vfs_getxattr V r n k w = (Inr (s, v), w') \<longrightarrow> s \<le> XATTR_SIZE_MAX)"

definition no_panic :: "('s, 'a) M \<Rightarrow> bool" where
  "no_panic m \<longleftrightarrow> (\<forall>s p s'. m s \<noteq> (Panic p, s'))"

lemma no_panic_sys [simp]: "no_panic (sysM f)"
  by (auto simp: no_panic_def sysM_def split: sum.splits prod.splits)

lemma no_panic_ask [simp]: "no_panic (askM f)"
  by (auto simp: no_panic_def askM_def split: prod.splits)

lemma no_panic_basic [simp]: "no_panic (ret a)" "no_panic (raise e)" "no_panic getM" "no_panic (errno i)"
  by (auto simp: no_panic_def ret_def raise_def getM_def errno_def)

lemma no_panic_bind: "no_panic m \<Longrightarrow> (\<And>a. no_panic (f a)) \<Longrightarrow> no_panic (bindM m f)"
  unfolding no_panic_def bindM_def by (auto split: prod.splits outcome.splits)

lemma no_panic_catch: "no_panic m \<Longrightarrow> (\<And>e. no_panic (f e)) \<Longrightarrow> no_panic (catchM m f)"
  unfolding no_panic_def catchM_def by (auto split: prod.splits outcome.splits)

text \<open>Each retry asks for more than the one before, so the limit on the size ends them.\<close>

lemma getxattr_asks:
  assumes "xattr_limit V"
    and "catchM (sysM (vfs_getxattr V old name k)) (\<lambda>e. if e = Errno (- ERANGE) then sysM (vfs_getxattr V old name 0) else raise e) st
      = (Ok (s, v), st')"
  shows "s \<le> XATTR_SIZE_MAX"
  using assms(2) assms(1) [unfolded xattr_limit_def, rule_format]
  by (auto simp: catchM_def sysM_def raise_def split: prod.splits sum.splits if_splits)

lemma getxattr_retry_ends:
  assumes "xattr_limit V" "n > XATTR_SIZE_MAX - value_size" "n > 0"
  shows "getxattr_retry n V old name value_size st \<noteq> (Panic p, st')"
  using assms(2,3)
proof (induction n arbitrary: value_size st)
  case (Suc n)
  let ?ask = "catchM (sysM (vfs_getxattr V old name value_size))
    (\<lambda>e. if e = Errno (- ERANGE) then sysM (vfs_getxattr V old name 0) else raise e)"
  have np: "no_panic ?ask" by (auto intro!: no_panic_catch)
  obtain r st1 where ask: "?ask st = (r, st1)" by fastforce
  show ?case
  proof (cases r)
    case (Ok a)
    obtain s v where a: "a = (s, v)" by fastforce
    have s: "s \<le> XATTR_SIZE_MAX" using getxattr_asks [OF assms(1)] ask Ok a by blast
    show ?thesis
    proof (cases "s > value_size")
      case True
      have "n > XATTR_SIZE_MAX - s" "n > 0" using Suc.prems s True by linarith+
      then have "getxattr_retry n V old name s st2 \<noteq> (Panic p, st')" for st2 using Suc.IH by blast
      then show ?thesis using ask Ok a True
        by (auto simp: bindM_def sysM_def split: sum.splits prod.splits)
    next
      case False
      then show ?thesis using ask Ok a by (simp add: bindM_def ret_def)
    qed
  next
    case (Panic m)
    then show ?thesis using np ask unfolding no_panic_def by blast
  qed (use ask in \<open>simp add: bindM_def\<close>)
qed simp

lemma copy_xattr_loop_ends:
  assumes "xattr_limit V"
  shows "no_panic (copy_xattr_loop (Suc (Suc XATTR_SIZE_MAX)) V old new names broken value_size err)"
proof (induction names arbitrary: value_size err)
  case (Cons name names)
  have "no_panic (getxattr_retry (Suc (Suc XATTR_SIZE_MAX)) V old name value_size)"
    unfolding no_panic_def using getxattr_retry_ends [OF assms, of value_size "Suc (Suc XATTR_SIZE_MAX)"] by simp
  then show ?case using Cons
    by (auto intro!: no_panic_bind simp del: getxattr_retry.simps split: prod.splits)
qed simp

text \<open>
  C37: Copying the extended attributes always comes to an end.  The retries that grow the buffer
  for a value stop, since a value has at most 65536 bytes, and no run ends by running out of them.
\<close>

theorem copy_xattr_ends:
  assumes "xattr_limit V"
  shows "ovl_copy_xattr V junk old new st \<noteq> (Panic m, st')"
proof -
  have "no_panic (ovl_copy_xattr V junk old new)"
    unfolding ovl_copy_xattr_def
    by (auto intro!: no_panic_bind no_panic_catch copy_xattr_loop_ends [OF assms] split: prod.splits)
  then show ?thesis by (simp add: no_panic_def)
qed

theorem copy_xattr_ends_witness: "\<forall>m st'. ovl_copy_xattr mem_vfs 0 7 8 (demo_ovl True True) \<noteq> (Panic m, st')"
  by (intro allI copy_xattr_ends) (simp add: xattr_limit_def mem_vfs_def Let_def)

lemma private_loop:
  "list_all ovl_is_private_xattr names \<Longrightarrow>
     copy_xattr_loop fuel V old new names False value_size err = ret err"
  by (induction names) simp_all

definition attr_vfs :: "(nat \<Rightarrow> string) vfs" where
  "attr_vfs = mem_vfs\<lparr>rd := (\<lambda>w n. mem_dentry\<lparr>rXattrOps := True\<rparr>),
     vfs_listxattr := (\<lambda>r n w. (Inr (24, ''trusted.overlay.opaque'' @ [CHR 0x00]), w))\<rparr>"

text \<open>
  C38: When every attribute in the list is one of the overlay's own, copying the attributes
  returns whatever its variable \<open>error\<close> held before the call: no path has set it.
\<close>

theorem private_xattrs_return_junk:
  assumes "rXattrOps (rd V (world st) old)" "rXattrOps (rd V (world st) new)"
    and "vfs_listxattr V old 0 (world st) = (Inr (n, buf0), w1)" "n \<noteq> 0" "kalloc V w1 = (Inr (), w2)"
    and "vfs_listxattr V old n w2 = (Inr (n2, buf), w3)" "n2 \<noteq> 0"
    and "xattr_names [] (take n2 buf) = (names, False)" "list_all ovl_is_private_xattr names"
  shows "fst (ovl_copy_xattr V junk old new st) = (if junk = 0 then Ok () else Err (Errno junk))"
  using assms by (simp add: ovl_copy_xattr_def bindM_def getM_def catchM_def sysM_def private_loop ret_def errno_def raise_def)

theorem private_xattrs_return_junk_witness:
  "fst (ovl_copy_xattr attr_vfs 42 7 8 (demo_ovl True True)) = Err (Errno 42)"
proof -
  let ?s = "''trusted.overlay.opaque'' @ [CHR 0x00]"
  have n: "xattr_names [] (take 24 ?s) = ([''trusted.overlay.opaque''], False)"
    "list_all ovl_is_private_xattr [''trusted.overlay.opaque'']" by code_simp+
  have v: "rXattrOps (rd attr_vfs w r)" "vfs_listxattr attr_vfs r k w = (Inr (24, ?s), w)"
    "kalloc attr_vfs w = (Inr (), w)" for r k w
    by (simp_all add: attr_vfs_def mem_vfs_def Let_def)
  have "fst (ovl_copy_xattr attr_vfs 42 7 8 (demo_ovl True True)) = (if (42::int) = 0 then Ok () else Err (Errno 42))"
    by (rule private_xattrs_return_junk [OF v(1) v(1) v(2) _ v(3) v(2) _ n]) simp_all
  then show ?thesis by simp
qed

section \<open>File handles\<close>

lemma encode_fh_shape:
  assumes "ovl_encode_real_fh V real up st = (Ok fh, st')"
  obtains t fid w where "fh = [char_of OVL_FH_VERSION, char_of OVL_FH_MAGIC, char_of (fh_header + length fid),
      char_of (if up then OVL_FH_FLAG_CPU_ENDIAN + OVL_FH_FLAG_PATH_UPPER else OVL_FH_FLAG_CPU_ENDIAN), char_of (nat t)]
      @ rUuid (rd V w real) @ fid" "length fid \<le> MAX_HANDLE_SZ"
proof -
  obtain r1 w1 where k1: "kalloc V (world st) = (r1, w1)" by fastforce
  obtain t fid w2 where e: "exportfs_encode_fh V real w1 = ((t, fid), w2)" by (metis prod.exhaust)
  obtain r3 w3 where k3: "kalloc V w2 = (r3, w3)" by fastforce
  have r1: "r1 = Inr ()" using assms k1 by (cases r1) (simp_all add: ovl_encode_real_fh_def bindM_def sysM_def)
  have t: "\<not> (t < 0 \<or> length fid > MAX_HANDLE_SZ \<or> t = FILEID_INVALID)"
  proof
    assume "t < 0 \<or> length fid > MAX_HANDLE_SZ \<or> t = FILEID_INVALID"
    then show False using assms k1 e r1 by (simp add: ovl_encode_real_fh_def bindM_def sysM_def askM_def raise_def)
  qed
  have "r3 = Inr ()"
    using assms k1 e r1 t k3 by (cases r3) (simp_all add: ovl_encode_real_fh_def bindM_def sysM_def askM_def)
  then show ?thesis using assms k1 e r1 t k3 that [of fid t w3]
    by (simp add: ovl_encode_real_fh_def bindM_def sysM_def askM_def getM_def ret_def)
qed

text \<open>
  C39: A file handle the overlay encodes passes the overlay's own check when it is read back, and
  its one byte of length holds its real length, which is at most 149 bytes.
\<close>

theorem encoded_fh_checks:
  assumes "ovl_encode_real_fh V real up st = (Ok fh, st')" "\<And>w. length (rUuid (rd V w real)) = 16"
  shows "ovl_check_fh_len fh = 0 \<and> fh_byte 2 fh = length fh \<and> length fh \<le> 149"
proof -
  from encode_fh_shape [OF assms(1)] obtain t fid w where fh: "fh = [char_of OVL_FH_VERSION, char_of OVL_FH_MAGIC,
      char_of (fh_header + length fid),
      char_of (if up then OVL_FH_FLAG_CPU_ENDIAN + OVL_FH_FLAG_PATH_UPPER else OVL_FH_FLAG_CPU_ENDIAN), char_of (nat t)]
      @ rUuid (rd V w real) @ fid" "length fid \<le> MAX_HANDLE_SZ" by blast
  have len: "length fh = fh_header + length fid" using fh(1) assms(2) [of w] by (simp add: fh_header_def)
  have small: "length fh \<le> 149" "21 \<le> length fh" using len fh(2) by (simp_all add: fh_header_def MAX_HANDLE_SZ_def)
  have b2: "fh_byte 2 fh = length fh" using fh(1) len small(1) by (simp add: fh_byte_def)
  moreover have "fh_byte 0 fh = 0" "fh_byte 1 fh = OVL_FH_MAGIC" "fh_byte 3 fh = (if up then 4 else 0)"
    using fh(1) by (simp_all add: fh_byte_def OVL_FH_VERSION_def OVL_FH_MAGIC_def OVL_FH_FLAG_CPU_ENDIAN_def OVL_FH_FLAG_PATH_UPPER_def)
  ultimately show ?thesis using small
    by (simp add: ovl_check_fh_len_def fh_header_def OVL_FH_VERSION_def OVL_FH_FLAG_CPU_ENDIAN_def)
qed

definition uuid_vfs :: "(nat \<Rightarrow> string) vfs" where
  "uuid_vfs = mem_vfs\<lparr>rd := (\<lambda>w n. mem_dentry\<lparr>rUuid := replicate 16 CHR ''u''\<rparr>),
     exportfs_encode_fh := (\<lambda>r w. ((1, ''fid!''), w))\<rparr>"

theorem encoded_fh_checks_witness:
  "\<exists>fh st'. ovl_encode_real_fh uuid_vfs 7 False (demo_ovl True True) = (Ok fh, st') \<and> fh_byte 2 fh = 25 \<and> ovl_check_fh_len fh = 0"
proof -
  have ok: "\<exists>fh. fst (ovl_encode_real_fh uuid_vfs 7 False (demo_ovl True True)) = Ok fh \<and> length fh = 25"
    by (simp add: uuid_vfs_def mem_vfs_def Let_def ovl_encode_real_fh_def bindM_def sysM_def askM_def getM_def ret_def
        FILEID_INVALID_def MAX_HANDLE_SZ_def)
  then obtain fh st' where fh: "ovl_encode_real_fh uuid_vfs 7 False (demo_ovl True True) = (Ok fh, st')" "length fh = 25"
    by (metis prod.collapse)
  have "length (rUuid (rd uuid_vfs w 7)) = 16" for w by (simp add: uuid_vfs_def)
  from encoded_fh_checks [OF fh(1) this] fh show ?thesis by auto
qed

section \<open>Index names\<close>

lemma hex_digit_inj: "a < 16 \<Longrightarrow> b < 16 \<Longrightarrow> hex_digit a = hex_digit b \<Longrightarrow> a = b"
proof -
  assume l: "a < 16" "b < 16" and e: "hex_digit a = hex_digit b"
  have v: "(of_char (hex_digit n) :: nat) = (if n < 10 then 48 + n else 87 + n)" if "n < 16" for n
    using that by (simp add: hex_digit_def)
  have "(if a < 10 then 48 + a else 87 + a) = (if b < 10 then 48 + b else 87 + b)"
    using v [OF l(1)] v [OF l(2)] unfolding e by (rule trans [OF sym])
  then show ?thesis by (auto split: if_splits)
qed

lemma bin2hex_inj: "bin2hex s = bin2hex t \<Longrightarrow> s = t"
proof (induction s arbitrary: t rule: bin2hex.induct)
  case 1
  then show ?case by (cases t) simp_all
next
  case (2 c cs)
  from "2.prems" obtain d ds where t: "t = d # ds" by (cases t) simp_all
  have l: "(of_char x :: nat) div 16 < 16" for x
    using nat_of_char_less_256 [of x] by (simp add: div_less_iff_less_mult)
  have "hex_digit (of_char c div 16) = hex_digit (of_char d div 16)" "hex_digit (of_char c mod 16) = hex_digit (of_char d mod 16)"
    using "2.prems" t by simp_all
  then have "(of_char c :: nat) div 16 = of_char d div 16" "(of_char c :: nat) mod 16 = of_char d mod 16"
    using hex_digit_inj [OF l l] hex_digit_inj [of "of_char c mod 16" "of_char d mod 16"] by simp_all
  then have "(of_char c :: nat) = of_char d" by (metis div_mult_mod_eq)
  then have "c = d" using of_char_eq_iff by blast
  moreover have "cs = ds" using "2.prems" t by (intro "2.IH") simp
  ultimately show ?case using t by simp
qed

lemma index_name_fh_hex:
  assumes "ovl_get_index_name_fh V fh st = (Ok n, st')"
  shows "n = bin2hex (take (fh_byte 2 fh) fh)"
proof -
  obtain r w where k: "kalloc V (world st) = (r, w)" by fastforce
  with assms show ?thesis by (cases r) (simp_all add: ovl_get_index_name_fh_def bindM_def sysM_def ret_def)
qed



end
