(* ===== verification/Errdefs.thy ===== *)
theory Errdefs
  imports Go_Strings
begin

text \<open>
  Error classes and what the HTTP API makes of them: the interfaces, helpers and predicates of
  \<open>errdefs\<close>, the status code of an error (\<open>api/server/httputils/errors.go\<close>) and the comparison of
  API versions (\<open>api/types/versions/compare.go\<close>).
\<close>

section \<open>Classes\<close>

text \<open>The class whose interface the dynamic type of an error implements, if it does.\<close>

fun implements :: "go_error \<Rightarrow> err_class option" where
  "implements (Typed c s) = Some c"
| "implements (ErrClass c e) = Some c"
| "implements e = None"

text \<open>\<open>Cause\<close>, for the types that have it.\<close>

fun Cause :: "go_error \<Rightarrow> go_error option" where
  "Cause (ErrClass c e) = Some e"
| "Cause (Wrap m e) = Some e"
| "Cause (WithStack e) = Some e"
| "Cause e = None"

lemma Cause_size: "Cause e = Some e' \<Longrightarrow> size e' < size e"
  by (cases e) auto

function getImplementer :: "go_error \<Rightarrow> go_error" where
  "getImplementer err =
     (if implements err \<noteq> None then err
      else case Cause err of Some e \<Rightarrow> getImplementer e | None \<Rightarrow> err)"
  by pat_completeness auto
termination
  by (relation "measure size") (auto dest: Cause_size)

declare getImplementer.simps [simp del]

text \<open>A type assertion on the implementer; the nil error implements nothing.\<close>

definition asserts :: "err_class \<Rightarrow> go_error option \<Rightarrow> bool" where
  "asserts c err = (case err of None \<Rightarrow> False | Some e \<Rightarrow> implements (getImplementer e) = Some c)"

definition IsNotFound :: "go_error option \<Rightarrow> bool" where "IsNotFound = asserts NotFound"
definition IsInvalidParameter :: "go_error option \<Rightarrow> bool" where "IsInvalidParameter = asserts InvalidParameter"
definition IsConflict :: "go_error option \<Rightarrow> bool" where "IsConflict = asserts Conflict"
definition IsUnauthorized :: "go_error option \<Rightarrow> bool" where "IsUnauthorized = asserts Unauthorized"
definition IsUnavailable :: "go_error option \<Rightarrow> bool" where "IsUnavailable = asserts Unavailable"
definition IsForbidden :: "go_error option \<Rightarrow> bool" where "IsForbidden = asserts Forbidden"
definition IsSystem :: "go_error option \<Rightarrow> bool" where "IsSystem = asserts System"
definition IsNotModified :: "go_error option \<Rightarrow> bool" where "IsNotModified = asserts NotModified"
definition IsAlreadyExists :: "go_error option \<Rightarrow> bool" where "IsAlreadyExists = asserts AlreadyExists"
definition IsNotImplemented :: "go_error option \<Rightarrow> bool" where "IsNotImplemented = asserts NotImplemented"
definition IsUnknown :: "go_error option \<Rightarrow> bool" where "IsUnknown = asserts Unknown"
definition IsCancelled :: "go_error option \<Rightarrow> bool" where "IsCancelled = asserts Cancelled"
definition IsDeadline :: "go_error option \<Rightarrow> bool" where "IsDeadline = asserts DeadlineExceeded"
definition IsDataLoss :: "go_error option \<Rightarrow> bool" where "IsDataLoss = asserts DataLoss"

lemmas Is_defs = IsNotFound_def IsInvalidParameter_def IsConflict_def IsUnauthorized_def IsUnavailable_def
  IsForbidden_def IsSystem_def IsNotModified_def IsAlreadyExists_def IsNotImplemented_def IsUnknown_def
  IsCancelled_def IsDeadline_def IsDataLoss_def

text \<open>
  The helpers that give an error a class.  All but one return nil for nil; \<open>Unavailable\<close> wraps
  whatever it gets, so its argument here is an error.
\<close>

definition NotFound_err :: "go_error option \<Rightarrow> go_error option" where
  "NotFound_err err = (case err of None \<Rightarrow> None | Some e \<Rightarrow> Some (ErrClass NotFound e))"
definition InvalidParameter_err :: "go_error option \<Rightarrow> go_error option" where
  "InvalidParameter_err err = (case err of None \<Rightarrow> None | Some e \<Rightarrow> Some (ErrClass InvalidParameter e))"
definition Conflict_err :: "go_error option \<Rightarrow> go_error option" where
  "Conflict_err err = (case err of None \<Rightarrow> None | Some e \<Rightarrow> Some (ErrClass Conflict e))"
definition Unauthorized_err :: "go_error option \<Rightarrow> go_error option" where
  "Unauthorized_err err = (case err of None \<Rightarrow> None | Some e \<Rightarrow> Some (ErrClass Unauthorized e))"
definition Unavailable_err :: "go_error \<Rightarrow> go_error option" where
  "Unavailable_err e = Some (ErrClass Unavailable e)"
definition Forbidden_err :: "go_error option \<Rightarrow> go_error option" where
  "Forbidden_err err = (case err of None \<Rightarrow> None | Some e \<Rightarrow> Some (ErrClass Forbidden e))"
definition System_err :: "go_error option \<Rightarrow> go_error option" where
  "System_err err = (case err of None \<Rightarrow> None | Some e \<Rightarrow> Some (ErrClass System e))"
definition NotModified_err :: "go_error option \<Rightarrow> go_error option" where
  "NotModified_err err = (case err of None \<Rightarrow> None | Some e \<Rightarrow> Some (ErrClass NotModified e))"
definition AlreadyExists_err :: "go_error option \<Rightarrow> go_error option" where
  "AlreadyExists_err err = (case err of None \<Rightarrow> None | Some e \<Rightarrow> Some (ErrClass AlreadyExists e))"
definition NotImplemented_err :: "go_error option \<Rightarrow> go_error option" where
  "NotImplemented_err err = (case err of None \<Rightarrow> None | Some e \<Rightarrow> Some (ErrClass NotImplemented e))"
definition Unknown_err :: "go_error option \<Rightarrow> go_error option" where
  "Unknown_err err = (case err of None \<Rightarrow> None | Some e \<Rightarrow> Some (ErrClass Unknown e))"
definition Cancelled_err :: "go_error option \<Rightarrow> go_error option" where
  "Cancelled_err err = (case err of None \<Rightarrow> None | Some e \<Rightarrow> Some (ErrClass Cancelled e))"
definition Deadline_err :: "go_error option \<Rightarrow> go_error option" where
  "Deadline_err err = (case err of None \<Rightarrow> None | Some e \<Rightarrow> Some (ErrClass DeadlineExceeded e))"
definition DataLoss_err :: "go_error option \<Rightarrow> go_error option" where
  "DataLoss_err err = (case err of None \<Rightarrow> None | Some e \<Rightarrow> Some (ErrClass DataLoss e))"

lemmas helper_defs = NotFound_err_def InvalidParameter_err_def Conflict_err_def Unauthorized_err_def
  Unavailable_err_def Forbidden_err_def System_err_def NotModified_err_def AlreadyExists_err_def
  NotImplemented_err_def Unknown_err_def Cancelled_err_def Deadline_err_def DataLoss_err_def

text \<open>The two error values of package \<open>context\<close>, compared by identity.\<close>

definition context_Canceled :: go_error where
  "context_Canceled = Sentinel ''context canceled''"

definition context_DeadlineExceeded :: go_error where
  "context_DeadlineExceeded = Sentinel ''context deadline exceeded''"

definition FromContext :: "go_error option \<Rightarrow> go_error option" where
  "FromContext ctxErr =
     (case ctxErr of
        None \<Rightarrow> None
      | Some e \<Rightarrow>
          if e = context_Canceled then Cancelled_err (Some e)
          else if e = context_DeadlineExceeded then Deadline_err (Some e)
          else Unknown_err (Some e))"

section \<open>Status codes\<close>

text \<open>\<open>grpc.Code\<close>: the code of a status error, \<open>codes.Unknown\<close> (2) for any other.\<close>

fun grpc_Code :: "go_error \<Rightarrow> nat" where
  "grpc_Code (GrpcStatus c s) = c"
| "grpc_Code e = 2"

function statusCodeFromGRPCError :: "go_error \<Rightarrow> nat" where
  "statusCodeFromGRPCError err =
     (let c = grpc_Code err in
      if c = 3 then 400 else if c = 5 then 404 else if c = 6 then 409 else if c = 7 then 403
      else if c = 9 then 400 else if c = 16 then 401 else if c = 11 then 400 else if c = 12 then 501
      else if c = 14 then 503
      else case Cause err of Some e \<Rightarrow> statusCodeFromGRPCError e | None \<Rightarrow> 500)"
  by pat_completeness auto
termination
  by (relation "measure size") (auto dest: Cause_size)

declare statusCodeFromGRPCError.simps [simp del]

function GetHTTPErrorStatusCode :: "go_error option \<Rightarrow> nat" where
  "GetHTTPErrorStatusCode None = 500"
| "GetHTTPErrorStatusCode (Some e) =
     (let err = Some e in
      if IsNotFound err then 404
      else if IsInvalidParameter err then 400
      else if IsConflict err \<or> IsAlreadyExists err then 409
      else if IsUnauthorized err then 401
      else if IsUnavailable err then 503
      else if IsForbidden err then 403
      else if IsNotModified err then 304
      else if IsNotImplemented err then 501
      else if IsSystem err \<or> IsUnknown err \<or> IsDataLoss err \<or> IsDeadline err \<or> IsCancelled err then 500
      else
        let statusCode = statusCodeFromGRPCError e in
        if statusCode \<noteq> 500 then statusCode
        else case Cause e of Some e' \<Rightarrow> GetHTTPErrorStatusCode (Some e') | None \<Rightarrow> if statusCode = 0 then 500 else statusCode)"
  by pat_completeness auto
termination
  by (relation "measure (\<lambda>x. case x of None \<Rightarrow> 0 | Some e \<Rightarrow> size e)") (auto dest: Cause_size)

declare GetHTTPErrorStatusCode.simps [simp del]

section \<open>Versions\<close>

text \<open>The loop of \<open>compare\<close>; a version that is shorter goes on with zeros.\<close>

fun compare_loop :: "string list \<Rightarrow> string list \<Rightarrow> int" where
  "compare_loop [] [] = 0"
| "compare_loop (x # xs) [] = (if Atoi x > 0 then 1 else if 0 > Atoi x then - 1 else compare_loop xs [])"
| "compare_loop [] (y # ys) = (if 0 > Atoi y then 1 else if Atoi y > 0 then - 1 else compare_loop [] ys)"
| "compare_loop (x # xs) (y # ys) =
     (if Atoi x > Atoi y then 1 else if Atoi y > Atoi x then - 1 else compare_loop xs ys)"

definition compare :: "string \<Rightarrow> string \<Rightarrow> int" where
  "compare v1 v2 = compare_loop (Split (CHR ''.'') v1) (Split (CHR ''.'') v2)"

definition LessThan :: "string \<Rightarrow> string \<Rightarrow> bool" where
  "LessThan v other \<longleftrightarrow> compare v other = - 1"

definition LessThanOrEqualTo :: "string \<Rightarrow> string \<Rightarrow> bool" where
  "LessThanOrEqualTo v other \<longleftrightarrow> compare v other \<le> 0"

definition GreaterThan :: "string \<Rightarrow> string \<Rightarrow> bool" where
  "GreaterThan v other \<longleftrightarrow> compare v other = 1"

definition GreaterThanOrEqualTo :: "string \<Rightarrow> string \<Rightarrow> bool" where
  "GreaterThanOrEqualTo v other \<longleftrightarrow> compare v other \<ge> 0"

definition Equal :: "string \<Rightarrow> string \<Rightarrow> bool" where
  "Equal v other \<longleftrightarrow> compare v other = 0"

definition apiVersionSupportsJSONErrors :: "string \<Rightarrow> bool" where
  "apiVersionSupportsJSONErrors version \<longleftrightarrow> version = '''' \<or> GreaterThan version ''1.23''"

text \<open>
  What the error handler writes: a JSON object with the message, or the message as text.  \<open>message\<close>
  is the method \<open>Error\<close> and \<open>ErrorDesc\<close> the function of package \<open>grpc\<close>, which differ on status errors.
\<close>

datatype http_response = JsonError nat string | TextError nat string

definition MakeErrorHandler ::
  "(go_error \<Rightarrow> string) \<Rightarrow> (go_error \<Rightarrow> string) \<Rightarrow> go_error \<Rightarrow> string \<Rightarrow> http_response" where
  "MakeErrorHandler message ErrorDesc err version =
     (let statusCode = GetHTTPErrorStatusCode (Some err) in
      if apiVersionSupportsJSONErrors version then JsonError statusCode (message err)
      else TextError statusCode (ErrorDesc err))"

section \<open>Classes survive wrapping\<close>

text \<open>An error under any number of the wrappers of \<open>pkg/errors\<close>.\<close>

inductive under :: "go_error \<Rightarrow> go_error \<Rightarrow> bool" for e where
  under_refl: "under e e"
| under_wrap: "under e x \<Longrightarrow> under e (Wrap m x)"
| under_stack: "under e x \<Longrightarrow> under e (WithStack x)"

lemma getImplementer_under: "under e y \<Longrightarrow> implements e \<noteq> None \<Longrightarrow> getImplementer y = e"
  by (induction rule: under.induct) (simp_all add: getImplementer.simps [of e] getImplementer.simps [of "Wrap _ _"]
      getImplementer.simps [of "WithStack _"])

fun class_helper :: "err_class \<Rightarrow> go_error \<Rightarrow> go_error option" where
  "class_helper NotFound e = NotFound_err (Some e)"
| "class_helper InvalidParameter e = InvalidParameter_err (Some e)"
| "class_helper Conflict e = Conflict_err (Some e)"
| "class_helper Unauthorized e = Unauthorized_err (Some e)"
| "class_helper Unavailable e = Unavailable_err e"
| "class_helper Forbidden e = Forbidden_err (Some e)"
| "class_helper System e = System_err (Some e)"
| "class_helper NotModified e = NotModified_err (Some e)"
| "class_helper AlreadyExists e = AlreadyExists_err (Some e)"
| "class_helper NotImplemented e = NotImplemented_err (Some e)"
| "class_helper Unknown e = Unknown_err (Some e)"
| "class_helper Cancelled e = Cancelled_err (Some e)"
| "class_helper DeadlineExceeded e = Deadline_err (Some e)"
| "class_helper DataLoss e = DataLoss_err (Some e)"

fun class_test :: "err_class \<Rightarrow> go_error option \<Rightarrow> bool" where
  "class_test NotFound = IsNotFound"
| "class_test InvalidParameter = IsInvalidParameter"
| "class_test Conflict = IsConflict"
| "class_test Unauthorized = IsUnauthorized"
| "class_test Unavailable = IsUnavailable"
| "class_test Forbidden = IsForbidden"
| "class_test System = IsSystem"
| "class_test NotModified = IsNotModified"
| "class_test AlreadyExists = IsAlreadyExists"
| "class_test NotImplemented = IsNotImplemented"
| "class_test Unknown = IsUnknown"
| "class_test Cancelled = IsCancelled"
| "class_test DeadlineExceeded = IsDeadline"
| "class_test DataLoss = IsDataLoss"

lemma class_helper_ErrClass: "class_helper c e = Some (ErrClass c e)"
  by (cases c) (simp_all add: helper_defs)

lemma class_test_asserts: "class_test c = asserts c"
  by (cases c) (simp_all add: Is_defs)

text \<open>
  C31: An error given a class by one of the helpers is recognised by the predicate of that class
  and by no other, however the error inside is classified and however many messages and stack
  traces are put around it.
\<close>

theorem helper_recognised:
  assumes "class_helper c e = Some x" "under x y"
  shows "class_test c' (Some y) \<longleftrightarrow> c' = c"
proof -
  have "x = ErrClass c e" using assms(1) by (simp add: class_helper_ErrClass)
  then have "implements (getImplementer y) = Some c" using getImplementer_under [OF assms(2)] by simp
  then show ?thesis by (auto simp: class_test_asserts asserts_def)
qed

theorem helper_recognised_witness:
  "class_test Conflict (Some (WithStack (Wrap ''tag'' (ErrClass Conflict (Typed NotFound ''x''))))) \<and>
   \<not> class_test NotFound (Some (WithStack (Wrap ''tag'' (ErrClass Conflict (Typed NotFound ''x'')))))"
  using helper_recognised [of Conflict "Typed NotFound ''x''" "ErrClass Conflict (Typed NotFound ''x'')"
      "WithStack (Wrap ''tag'' (ErrClass Conflict (Typed NotFound ''x'')))"]
  by (simp add: class_helper_ErrClass under.intros del: class_test.simps)

section \<open>Status codes of classes\<close>

fun class_status :: "err_class \<Rightarrow> nat" where
  "class_status NotFound = 404"
| "class_status InvalidParameter = 400"
| "class_status Conflict = 409"
| "class_status AlreadyExists = 409"
| "class_status Unauthorized = 401"
| "class_status Unavailable = 503"
| "class_status Forbidden = 403"
| "class_status NotModified = 304"
| "class_status NotImplemented = 501"
| "class_status _ = 500"

definition status_codes :: "nat set" where
  "status_codes = {304, 400, 401, 403, 404, 409, 500, 501, 503}"

lemma grpc_status_range: "statusCodeFromGRPCError e \<in> status_codes"
proof (induction e rule: statusCodeFromGRPCError.induct)
  case (1 err)
  then show ?case
    by (subst statusCodeFromGRPCError.simps) (auto simp: status_codes_def Let_def split: option.splits)
qed

lemma http_status_range: "GetHTTPErrorStatusCode err \<in> status_codes"
proof (induction err rule: GetHTTPErrorStatusCode.induct)
  case (2 e)
  show ?case
  proof (cases "\<exists>c. asserts c (Some e)")
    case True
    then obtain c where c: "implements (getImplementer e) = Some c" by (auto simp: asserts_def)
    show ?thesis by (subst GetHTTPErrorStatusCode.simps, cases c) (simp_all add: Is_defs asserts_def c status_codes_def)
  next
    case False
    then have [simp]: "asserts c (Some e) = False" for c by simp
    show ?thesis using 2 grpc_status_range [of e]
      by (subst GetHTTPErrorStatusCode.simps) (auto simp: Is_defs Let_def status_codes_def split: option.splits)
  qed
qed (simp add: GetHTTPErrorStatusCode.simps status_codes_def)



section \<open>The order of versions\<close>

definition vpart :: "string list \<Rightarrow> nat \<Rightarrow> int" where
  "vpart xs i = (if i < length xs then Atoi (xs ! i) else 0)"

lemma vpart_simps [simp]: "vpart [] i = 0" "vpart (x # xs) 0 = Atoi x" "vpart (x # xs) (Suc i) = vpart xs i"
  by (simp_all add: vpart_def)

definition vless :: "string list \<Rightarrow> string list \<Rightarrow> bool" where
  "vless xs ys \<longleftrightarrow> (\<exists>i. (\<forall>j<i. vpart xs j = vpart ys j) \<and> vpart xs i < vpart ys i)"

lemma vless_step:
  fixes f g :: "nat \<Rightarrow> int"
  shows "(\<exists>i. (\<forall>j<i. f j = g j) \<and> f i < g i) \<longleftrightarrow>
     f 0 < g 0 \<or> (f 0 = g 0 \<and> (\<exists>i. (\<forall>j<i. f (Suc j) = g (Suc j)) \<and> f (Suc i) < g (Suc i)))" (is "?l = ?r")
proof
  assume ?l
  then obtain i where i: "\<forall>j<i. f j = g j" "f i < g i" by blast
  show ?r
  proof (cases i)
    case 0
    then show ?thesis using i(2) by simp
  next
    case (Suc k)
    then have "f 0 = g 0" "\<forall>j<k. f (Suc j) = g (Suc j)" "f (Suc k) < g (Suc k)" using i by auto
    then show ?thesis by blast
  qed
next
  assume ?r
  then consider "f 0 < g 0" | i where "f 0 = g 0" "\<forall>j<i. f (Suc j) = g (Suc j)" "f (Suc i) < g (Suc i)" by blast
  then show ?l
  proof cases
    case 1
    then show ?thesis by (intro exI [of _ 0]) simp
  next
    case 2
    then have "f j = g j" if "j < Suc i" for j using that by (cases j) auto
    then show ?thesis using 2(3) by blast
  qed
qed

lemma vless_Cons: "vless (x # xs) (y # ys) \<longleftrightarrow> Atoi x < Atoi y \<or> (Atoi x = Atoi y \<and> vless xs ys)"
  unfolding vless_def by (subst vless_step) simp

lemma vless_Cons_Nil: "vless (x # xs) [] \<longleftrightarrow> Atoi x < 0 \<or> (Atoi x = 0 \<and> vless xs [])"
  unfolding vless_def by (subst vless_step) simp

lemma vless_Nil_Cons: "vless [] (y # ys) \<longleftrightarrow> 0 < Atoi y \<or> (Atoi y = 0 \<and> vless [] ys)"
  unfolding vless_def by (subst vless_step) auto

lemma compare_loop_less: "compare_loop xs ys = - 1 \<longleftrightarrow> vless xs ys"
  by (induction xs ys rule: compare_loop.induct)
    (auto simp: vless_Cons vless_Cons_Nil vless_Nil_Cons vless_def [of "[]" "[]"])

text \<open>
  C33: A version is less than another exactly when, at the first position where their numbers
  differ, its number is the smaller one; a version that is shorter goes on with zeros and a part
  that is no number counts as zero.
\<close>

theorem version_less:
  "LessThan v w \<longleftrightarrow>
     (\<exists>i. (\<forall>j<i. vpart (Split (CHR ''.'') v) j = vpart (Split (CHR ''.'') w) j) \<and>
          vpart (Split (CHR ''.'') v) i < vpart (Split (CHR ''.'') w) i)"
  using compare_loop_less by (simp add: LessThan_def compare_def vless_def)

theorem version_less_witness: "LessThan ''1.9'' ''1.23''"
  by (rule version_less [THEN iffD2], rule exI [of _ 1]) code_simp

text \<open>The version named as the first one with JSON errors does not get them.\<close>

lemma json_errors_start_late: "\<not> apiVersionSupportsJSONErrors ''1.23'' \<and> apiVersionSupportsJSONErrors ''1.24''"
  by code_simp

end
