(* ===== verification/Restart_Manager.thy ===== *)
theory Restart_Manager
  imports Errdefs
begin

text \<open>
  The restart policy of a container (\<open>api/types/container/host_config.go\<close>) and the manager that
  decides whether a container that exited is started again and how long to wait before that
  (\<open>restartmanager/restartmanager.go\<close>).  Durations are nanoseconds.
\<close>

section \<open>Policies\<close>

record RestartPolicy =
  rpName :: string
  MaximumRetryCount :: int

definition IsNone :: "RestartPolicy \<Rightarrow> bool" where
  "IsNone rp \<longleftrightarrow> rpName rp = ''no'' \<or> rpName rp = ''''"

definition IsAlways :: "RestartPolicy \<Rightarrow> bool" where
  "IsAlways rp \<longleftrightarrow> rpName rp = ''always''"

definition IsOnFailure :: "RestartPolicy \<Rightarrow> bool" where
  "IsOnFailure rp \<longleftrightarrow> rpName rp = ''on-failure''"

definition IsUnlessStopped :: "RestartPolicy \<Rightarrow> bool" where
  "IsUnlessStopped rp \<longleftrightarrow> rpName rp = ''unless-stopped''"

definition IsSame :: "RestartPolicy \<Rightarrow> RestartPolicy \<Rightarrow> bool" where
  "IsSame rp tp \<longleftrightarrow> rpName rp = rpName tp \<and> MaximumRetryCount rp = MaximumRetryCount tp"

section \<open>The manager\<close>

definition backoffMultiplier :: int where "backoffMultiplier = 2"
definition defaultTimeout :: int where "defaultTimeout = 100 * 10 ^ 6"
definition maxRestartTimeout :: int where "maxRestartTimeout = 60 * 10 ^ 9"

definition ErrRestartCanceled :: go_error where
  "ErrRestartCanceled = Sentinel ''restart canceled''"

record restartManager =
  policy :: RestartPolicy
  rmRestartCount :: int
  timeout :: int
  active :: bool
  canceled :: bool

definition rm_New :: "RestartPolicy \<Rightarrow> int \<Rightarrow> restartManager" where
  "rm_New p n = \<lparr>policy = p, rmRestartCount = n, timeout = 0, active = False, canceled = False\<rparr>"

definition SetPolicy :: "RestartPolicy \<Rightarrow> restartManager \<Rightarrow> restartManager" where
  "SetPolicy p rm = rm\<lparr>policy := p\<rparr>"

text \<open>The two statements that compute the next delay.\<close>

definition next_timeout :: "int \<Rightarrow> int \<Rightarrow> int" where
  "next_timeout executionDuration t =
     (let t1 = (if executionDuration \<ge> 10 * 10 ^ 9 then 0 else t);
          t2 = (if t1 = 0 then defaultTimeout else if t1 < maxRestartTimeout then t1 * backoffMultiplier else t1)
      in if t2 > maxRestartTimeout then maxRestartTimeout else t2)"

definition wants_restart :: "restartManager \<Rightarrow> nat \<Rightarrow> bool \<Rightarrow> bool" where
  "wants_restart rm exitCode hasBeenManuallyStopped =
     (if IsAlways (policy rm) then True
      else if IsUnlessStopped (policy rm) \<and> \<not> hasBeenManuallyStopped then True
      else if IsOnFailure (policy rm) then
        (let max = MaximumRetryCount (policy rm) in
         if max = 0 \<or> rmRestartCount rm < max then exitCode \<noteq> 0 else False)
      else False)"

text \<open>\<open>Ok True\<close> is a restart, with the channel that reports when to start; the manager is active until then.\<close>

definition ShouldRestart :: "nat \<Rightarrow> bool \<Rightarrow> int \<Rightarrow> (restartManager, bool) M" where
  "ShouldRestart exitCode hasBeenManuallyStopped executionDuration rm =
     (if IsNone (policy rm) then (Ok False, rm)
      else if canceled rm then (Err ErrRestartCanceled, rm)
      else if active rm then (Err (Errorf ''invalid call on an active restart manager''), rm)
      else
        let rm1 = rm\<lparr>timeout := next_timeout executionDuration (timeout rm)\<rparr> in
        if \<not> wants_restart rm1 exitCode hasBeenManuallyStopped then (Ok False, rm1\<lparr>active := False\<rparr>)
        else (Ok True, rm1\<lparr>rmRestartCount := rmRestartCount rm1 + 1, active := True\<rparr>))"

text \<open>
  The goroutine of a restart ends in one of two ways: the channel \<open>cancel\<close> is closed and it sends
  the error, or the delay is over and it closes its channel.
\<close>

definition restart_cancelled :: "restartManager \<Rightarrow> go_error option \<times> restartManager" where
  "restart_cancelled rm = (Some ErrRestartCanceled, rm)"

definition restart_delay_over :: "restartManager \<Rightarrow> go_error option \<times> restartManager" where
  "restart_delay_over rm = (None, rm\<lparr>active := False\<rparr>)"

definition rm_Cancel :: "restartManager \<Rightarrow> restartManager" where
  "rm_Cancel rm = rm\<lparr>canceled := True\<rparr>"

section \<open>Delays\<close>

definition delay_ok :: "restartManager \<Rightarrow> bool" where
  "delay_ok rm \<longleftrightarrow> timeout rm = 0 \<or> (defaultTimeout \<le> timeout rm \<and> timeout rm \<le> maxRestartTimeout)"

lemmas delay_defs = defaultTimeout_def maxRestartTimeout_def backoffMultiplier_def

lemma next_timeout_range:
  "t = 0 \<or> (defaultTimeout \<le> t \<and> t \<le> maxRestartTimeout) \<Longrightarrow>
     defaultTimeout \<le> next_timeout d t \<and> next_timeout d t \<le> maxRestartTimeout"
  by (auto simp: next_timeout_def Let_def delay_defs)

lemma delay_ok_ShouldRestart: "delay_ok rm \<Longrightarrow> ShouldRestart x b d rm = (r, rm') \<Longrightarrow> delay_ok rm'"
  using next_timeout_range [of "timeout rm" d]
  by (auto simp: ShouldRestart_def delay_ok_def Let_def split: if_splits)

text \<open>\<open>n\<close> restarts of a container that fails at once, each after the delay of the one before.\<close>

fun failing_runs :: "nat \<Rightarrow> int \<Rightarrow> restartManager \<Rightarrow> restartManager" where
  "failing_runs 0 d rm = rm"
| "failing_runs (Suc n) d rm = snd (restart_delay_over (snd (ShouldRestart 1 False d (failing_runs n d rm))))"

lemma next_timeout_doubles:
  assumes "d < 10 * 10 ^ 9"
  shows "next_timeout d (min (defaultTimeout * 2 ^ n) maxRestartTimeout) = min (defaultTimeout * 2 ^ Suc n) maxRestartTimeout"
proof (cases "defaultTimeout * 2 ^ n < maxRestartTimeout")
  case True
  have "0 < defaultTimeout * 2 ^ n" by (simp add: defaultTimeout_def)
  then show ?thesis using True assms by (simp add: next_timeout_def Let_def backoffMultiplier_def min_def)
next
  case False
  have "maxRestartTimeout \<noteq> 0" by (simp add: maxRestartTimeout_def)
  moreover have "maxRestartTimeout \<le> defaultTimeout * 2 ^ Suc n" using False by (simp add: delay_defs)
  ultimately show ?thesis using False assms by (simp add: next_timeout_def Let_def min_def)
qed

lemma failing_runs_policy: "policy (failing_runs n d rm) = policy rm" "canceled (failing_runs n d rm) = canceled rm"
  by (induction n) (auto simp: restart_delay_over_def ShouldRestart_def Let_def)

lemma failing_runs_always:
  assumes "rm = rm_New p c" "IsAlways p" "d < 10 * 10 ^ 9"
  shows "failing_runs (Suc n) d rm =
    rm\<lparr>timeout := min (defaultTimeout * 2 ^ n) maxRestartTimeout, rmRestartCount := c + int (Suc n)\<rparr>"
proof (induction n)
  case 0
  have "next_timeout d 0 = defaultTimeout" by (simp add: next_timeout_def Let_def delay_defs)
  then show ?case using assms
    by (simp add: restart_delay_over_def ShouldRestart_def rm_New_def IsNone_def IsAlways_def wants_restart_def Let_def delay_defs)
next
  case (Suc n)
  show ?case using assms(1,2)
    by (subst failing_runs.simps, subst Suc)
      (simp add: restart_delay_over_def ShouldRestart_def rm_New_def IsNone_def IsAlways_def wants_restart_def Let_def
        next_timeout_doubles [OF assms(3)] del: power_Suc failing_runs.simps)
qed



text \<open>Under \<open>on-failure\<close> a limit on the number of restarts is kept, and only failures restart.\<close>

lemma on_failure_limit:
  assumes "IsOnFailure (policy rm)" "MaximumRetryCount (policy rm) \<noteq> 0" "ShouldRestart x b d rm = (Ok True, rm')"
  shows "rmRestartCount rm' \<le> MaximumRetryCount (policy rm) \<and> x \<noteq> 0"
  using assms by (auto simp: ShouldRestart_def wants_restart_def IsAlways_def IsUnlessStopped_def IsOnFailure_def Let_def
      split: if_splits)

end
