(* ===== verification/Container_State.thy ===== *)
theory Container_State
  imports Restart_Manager
begin

text \<open>
  The state of a container (\<open>container/state.go\<close>, \<open>container/health.go\<close>).  A channel that is only
  ever closed is a number; the heap of channels knows which are closed.  A point in time is a
  number, zero for Go's zero time, and \<open>now\<close> is the clock at the call.  The methods run under the
  lock of the state, so each is one step.
\<close>

section \<open>Channels\<close>

record chanHeap =
  nextChan :: nat
  closedChans :: "nat set"

definition makeChan :: "chanHeap \<Rightarrow> nat \<times> chanHeap" where
  "makeChan h = (nextChan h, h\<lparr>nextChan := Suc (nextChan h)\<rparr>)"

definition closeChan :: "nat \<Rightarrow> chanHeap \<Rightarrow> chanHeap option" where
  "closeChan c h = (if c \<in> closedChans h then None else Some (h\<lparr>closedChans := insert c (closedChans h)\<rparr>))"

section \<open>Health\<close>

definition NoHealthcheck :: string where "NoHealthcheck = ''none''"
definition Starting :: string where "Starting = ''starting''"
definition Healthy :: string where "Healthy = ''healthy''"
definition Unhealthy :: string where "Unhealthy = ''unhealthy''"

record Health =
  hStatus :: string
  FailingStreak :: nat
  hStop :: "nat option"

definition Health_Status :: "Health \<Rightarrow> string" where
  "Health_Status h = (if hStatus h = '''' then Unhealthy else hStatus h)"

definition Health_String :: "Health \<Rightarrow> string" where
  "Health_String h = (if Health_Status h = Starting then ''health: starting'' else hStatus h)"

definition SetStatus :: "string \<Rightarrow> Health \<Rightarrow> Health" where
  "SetStatus new h = h\<lparr>hStatus := new\<rparr>"

definition OpenMonitorChannel :: "Health \<Rightarrow> chanHeap \<Rightarrow> nat option \<times> Health \<times> chanHeap" where
  "OpenMonitorChannel h ch =
     (case hStop h of
        None \<Rightarrow> (case makeChan ch of (c, ch1) \<Rightarrow> (Some c, h\<lparr>hStop := Some c\<rparr>, ch1))
      | Some _ \<Rightarrow> (None, h, ch))"

definition CloseMonitorChannel :: "Health \<Rightarrow> chanHeap \<Rightarrow> (Health \<times> chanHeap) option" where
  "CloseMonitorChannel h ch =
     (case hStop h of
        None \<Rightarrow> Some (h, ch)
      | Some c \<Rightarrow> map_option (\<lambda>ch1. (h\<lparr>hStop := None, hStatus := Unhealthy\<rparr>, ch1)) (closeChan c ch))"

definition IsValidHealthString :: "string \<Rightarrow> bool" where
  "IsValidHealthString s \<longleftrightarrow> s = Starting \<or> s = Healthy \<or> s = Unhealthy \<or> s = NoHealthcheck"

section \<open>State\<close>

record State =
  Running :: bool
  Paused :: bool
  Restarting :: bool
  OOMKilled :: bool
  RemovalInProgress :: bool
  Dead :: bool
  Pid :: int
  ExitCodeValue :: int
  ErrorMsg :: string
  StartedAt :: nat
  FinishedAt :: nat
  sHealth :: "Health option"
  waitStop :: nat
  waitRemove :: nat
  chans :: chanHeap

record ExitStatus =
  esExitCode :: int
  esOOMKilled :: bool
  esExitedAt :: nat

record StateStatus =
  ssExitCode :: int
  ssErr :: "go_error option"

text \<open>\<open>NewState\<close> makes both channels; the heap may hold channels already.\<close>

definition NewState :: "chanHeap \<Rightarrow> State" where
  "NewState h =
     (case makeChan h of (c, h1) \<Rightarrow> case makeChan h1 of (d, h2) \<Rightarrow>
      \<lparr>Running = False, Paused = False, Restarting = False, OOMKilled = False, RemovalInProgress = False, Dead = False,
       Pid = 0, ExitCodeValue = 0, ErrorMsg = '''', StartedAt = 0, FinishedAt = 0, sHealth = None,
       waitStop = c, waitRemove = d, chans = h2\<rparr>)"

text \<open>\<open>HumanDuration\<close> is the function of package \<open>units\<close>.\<close>

definition State_String :: "(int \<Rightarrow> string) \<Rightarrow> nat \<Rightarrow> State \<Rightarrow> string" where
  "State_String HumanDuration now s =
     (let since = (\<lambda>t. HumanDuration (int now - int t)) in
      if Running s then
        (if Paused s then ''Up '' @ since (StartedAt s) @ '' (Paused)''
         else if Restarting s then
           ''Restarting ('' @ show_int (ExitCodeValue s) @ '') '' @ since (FinishedAt s) @ '' ago''
         else
           case sHealth s of
             Some h \<Rightarrow> ''Up '' @ since (StartedAt s) @ '' ('' @ Health_String h @ '')''
           | None \<Rightarrow> ''Up '' @ since (StartedAt s))
      else if RemovalInProgress s then ''Removal In Progress''
      else if Dead s then ''Dead''
      else if StartedAt s = 0 then ''Created''
      else if FinishedAt s = 0 then ''''
      else ''Exited ('' @ show_int (ExitCodeValue s) @ '') '' @ since (FinishedAt s) @ '' ago'')"

definition StateString :: "State \<Rightarrow> string" where
  "StateString s =
     (if Running s then (if Paused s then ''paused'' else if Restarting s then ''restarting'' else ''running'')
      else if RemovalInProgress s then ''removing''
      else if Dead s then ''dead''
      else if StartedAt s = 0 then ''created''
      else ''exited'')"

definition IsValidStateString :: "string \<Rightarrow> bool" where
  "IsValidStateString s =
     (if s \<noteq> ''paused'' \<and> s \<noteq> ''restarting'' \<and> s \<noteq> ''removing'' \<and> s \<noteq> ''running'' \<and> s \<noteq> ''dead'' \<and>
         s \<noteq> ''created'' \<and> s \<noteq> ''exited'' then False else True)"

section \<open>Reading and changing the state\<close>

definition IsRunning :: "State \<Rightarrow> bool" where "IsRunning s = Running s"
definition GetPID :: "State \<Rightarrow> int" where "GetPID s = Pid s"
definition ExitCode :: "State \<Rightarrow> int" where "ExitCode s = ExitCodeValue s"
definition IsPaused :: "State \<Rightarrow> bool" where "IsPaused s = Paused s"
definition IsRestarting :: "State \<Rightarrow> bool" where "IsRestarting s = Restarting s"
definition IsRemovalInProgress :: "State \<Rightarrow> bool" where "IsRemovalInProgress s = RemovalInProgress s"
definition IsDead :: "State \<Rightarrow> bool" where "IsDead s = Dead s"

definition State_Err :: "State \<Rightarrow> go_error option" where
  "State_Err s = (if ErrorMsg s \<noteq> '''' then Some (Errorf (ErrorMsg s)) else None)"

definition SetExitCode :: "int \<Rightarrow> State \<Rightarrow> State" where
  "SetExitCode ec s = s\<lparr>ExitCodeValue := ec\<rparr>"

definition SetRunning :: "int \<Rightarrow> bool \<Rightarrow> nat \<Rightarrow> State \<Rightarrow> State" where
  "SetRunning pid initial now s =
     (let s1 = s\<lparr>ErrorMsg := '''', Paused := False, Running := True, Restarting := False\<rparr>;
          s2 = (if initial then s1\<lparr>Paused := False\<rparr> else s1);
          s3 = s2\<lparr>ExitCodeValue := 0, Pid := pid\<rparr>
      in if initial then s3\<lparr>StartedAt := now\<rparr> else s3)"

text \<open>Closing \<open>waitStop\<close> and making a new one; closing a closed channel panics.\<close>

definition fireStop :: "State \<Rightarrow> unit outcome \<times> State" where
  "fireStop s =
     (case closeChan (waitStop s) (chans s) of
        None \<Rightarrow> (Panic ''close of closed channel'', s)
      | Some h \<Rightarrow> (case makeChan h of (c, h1) \<Rightarrow> (Ok (), s\<lparr>waitStop := c, chans := h1\<rparr>)))"

definition SetStopped :: "ExitStatus \<Rightarrow> nat \<Rightarrow> (State, unit) M" where
  "SetStopped es now s =
     fireStop (s\<lparr>Running := False, Paused := False, Restarting := False, Pid := 0,
                 FinishedAt := (if esExitedAt es = 0 then now else esExitedAt es),
                 ExitCodeValue := esExitCode es, OOMKilled := esOOMKilled es\<rparr>)"

definition SetRestarting :: "ExitStatus \<Rightarrow> nat \<Rightarrow> (State, unit) M" where
  "SetRestarting es now s =
     fireStop (s\<lparr>Running := True, Restarting := True, Paused := False, Pid := 0, FinishedAt := now,
                 ExitCodeValue := esExitCode es, OOMKilled := esOOMKilled es\<rparr>)"

text \<open>The message of an error is an argument: \<open>None\<close> for the nil error.\<close>

definition SetError :: "go_error option \<Rightarrow> State \<Rightarrow> State" where
  "SetError err s =
     (let s1 = s\<lparr>ErrorMsg := ''''\<rparr> in case err of None \<Rightarrow> s1 | Some e \<Rightarrow> s1\<lparr>ErrorMsg := err_string e\<rparr>)"

definition SetRemovalInProgress :: "State \<Rightarrow> bool \<times> State" where
  "SetRemovalInProgress s = (if RemovalInProgress s then (True, s) else (False, s\<lparr>RemovalInProgress := True\<rparr>))"

definition ResetRemovalInProgress :: "State \<Rightarrow> State" where
  "ResetRemovalInProgress s = s\<lparr>RemovalInProgress := False\<rparr>"

definition SetDead :: "State \<Rightarrow> State" where
  "SetDead s = s\<lparr>Dead := True\<rparr>"

definition SetRemovalError :: "go_error option \<Rightarrow> (State, unit) M" where
  "SetRemovalError err s =
     (let s1 = SetError err s in
      case closeChan (waitRemove s1) (chans s1) of
        None \<Rightarrow> (Panic ''close of closed channel'', s1)
      | Some h \<Rightarrow> (case makeChan h of (c, h1) \<Rightarrow> (Ok (), s1\<lparr>waitRemove := c, chans := h1\<rparr>)))"

definition SetRemoved :: "(State, unit) M" where
  "SetRemoved = SetRemovalError None"

section \<open>Waiting\<close>

datatype WaitCondition = WaitConditionNotRunning | WaitConditionNextExit | WaitConditionRemoved

text \<open>
  \<open>Wait\<close> returns at once or leaves a goroutine behind that waits for the channels it read; the
  nil channel of a wait for removal is \<open>None\<close>.
\<close>

datatype waiter = Immediate StateStatus | Pending "nat option" nat

definition status_of :: "State \<Rightarrow> StateStatus" where
  "status_of s = \<lparr>ssExitCode = ExitCode s, ssErr = State_Err s\<rparr>"

definition Wait :: "WaitCondition \<Rightarrow> State \<Rightarrow> waiter" where
  "Wait condition s =
     (if condition = WaitConditionNotRunning \<and> \<not> Running s then Immediate (status_of s)
      else Pending (if condition \<noteq> WaitConditionRemoved then Some (waitStop s) else None) (waitRemove s))"

text \<open>What the caller can receive when the goroutine runs in a state: any ready case of the \<open>select\<close>.\<close>

inductive wait_returns :: "go_error option \<Rightarrow> State \<Rightarrow> waiter \<Rightarrow> StateStatus \<Rightarrow> bool" where
  now: "wait_returns ctx s (Immediate r) r"
| cancelled: "wait_returns (Some e) s (Pending w v) \<lparr>ssExitCode = - 1, ssErr = Some e\<rparr>"
| stopped: "w \<in> closedChans (chans s) \<Longrightarrow> wait_returns ctx s (Pending (Some w) v) (status_of s)"
| removed: "v \<in> closedChans (chans s) \<Longrightarrow> wait_returns ctx s (Pending w v) (status_of s)"

inductive_cases wait_pendingE: "wait_returns None s (Pending w v) r"

section \<open>What holds of every state\<close>

text \<open>
  The channels a state holds are open and different from each other, no two processes run at
  once in it, and a container that is restarting counts as running.
\<close>

definition open_chan :: "State \<Rightarrow> nat \<Rightarrow> bool" where
  "open_chan s c \<longleftrightarrow> c < nextChan (chans s) \<and> c \<notin> closedChans (chans s)"

definition health_stop :: "State \<Rightarrow> nat option" where
  "health_stop s = (case sHealth s of None \<Rightarrow> None | Some h \<Rightarrow> hStop h)"

definition state_inv :: "State \<Rightarrow> bool" where
  "state_inv s \<longleftrightarrow>
     open_chan s (waitStop s) \<and> open_chan s (waitRemove s) \<and> waitStop s \<noteq> waitRemove s \<and>
     (\<forall>c. health_stop s = Some c \<longrightarrow> open_chan s c \<and> c \<noteq> waitStop s \<and> c \<noteq> waitRemove s) \<and>
     (\<forall>c \<in> closedChans (chans s). c < nextChan (chans s)) \<and>
     (Restarting s \<longrightarrow> Running s \<and> Pid s = 0) \<and> (\<not> Running s \<longrightarrow> Pid s = 0)"

lemma NewState_inv: "(\<forall>c \<in> closedChans h. c < nextChan h) \<Longrightarrow> state_inv (NewState h)"
  by (auto simp: state_inv_def NewState_def makeChan_def open_chan_def health_stop_def)

lemma SetRunning_inv: "state_inv s \<Longrightarrow> state_inv (SetRunning pid initial now s)"
  by (simp add: state_inv_def SetRunning_def open_chan_def health_stop_def Let_def)

lemma fireStop_ok:
  assumes "state_inv s"
  obtains s' where "fireStop s = (Ok (), s')" "state_inv s'" "waitStop s \<in> closedChans (chans s')"
    "closedChans (chans s) \<subseteq> closedChans (chans s')" "status_of s' = status_of s" "Running s' = Running s"
    "waitRemove s' = waitRemove s" "Paused s' = Paused s" "Restarting s' = Restarting s"
proof -
  let ?h = "chans s"
  let ?s' = "s\<lparr>waitStop := nextChan ?h, chans := ?h\<lparr>closedChans := insert (waitStop s) (closedChans ?h), nextChan := Suc (nextChan ?h)\<rparr>\<rparr>"
  have "fireStop s = (Ok (), ?s')"
    using assms by (simp add: fireStop_def closeChan_def makeChan_def state_inv_def open_chan_def)
  moreover have "state_inv ?s'"
    using assms by (auto simp: state_inv_def open_chan_def health_stop_def split: option.splits)
  moreover have "status_of ?s' = status_of s" by (simp add: status_of_def ExitCode_def State_Err_def)
  ultimately show ?thesis by (intro that [of ?s']) (simp_all add: subset_insertI)
qed

lemma stopped_inv: "state_inv s \<Longrightarrow> state_inv (s\<lparr>Running := False, Paused := False, Restarting := False, Pid := 0,
    FinishedAt := f, ExitCodeValue := e, OOMKilled := k\<rparr>)"
  by (simp add: state_inv_def open_chan_def health_stop_def)

lemma restarting_inv: "state_inv s \<Longrightarrow> state_inv (s\<lparr>Running := True, Restarting := True, Paused := False, Pid := 0,
    FinishedAt := f, ExitCodeValue := e, OOMKilled := k\<rparr>)"
  by (simp add: state_inv_def open_chan_def health_stop_def)

lemma SetStopped_ok:
  assumes "state_inv s"
  obtains s' where "SetStopped es now s = (Ok (), s')" "state_inv s'" "waitStop s \<in> closedChans (chans s')"
    "closedChans (chans s) \<subseteq> closedChans (chans s')" "ExitCode s' = esExitCode es" "\<not> Running s'" "\<not> Paused s'"
proof -
  let ?f = "if esExitedAt es = 0 then now else esExitedAt es"
  obtain s' where "fireStop (s\<lparr>Running := False, Paused := False, Restarting := False, Pid := 0, FinishedAt := ?f,
      ExitCodeValue := esExitCode es, OOMKilled := esOOMKilled es\<rparr>) = (Ok (), s')" "state_inv s'"
    "waitStop s \<in> closedChans (chans s')" "closedChans (chans s) \<subseteq> closedChans (chans s')" "\<not> Running s'" "\<not> Paused s'"
    "ExitCode s' = esExitCode es"
    using fireStop_ok [OF stopped_inv [OF assms, where f = ?f and e = "esExitCode es" and k = "esOOMKilled es"]]
    by (auto simp: status_of_def ExitCode_def)
  then show ?thesis using that by (simp add: SetStopped_def)
qed

lemma SetRestarting_ok:
  assumes "state_inv s"
  obtains s' where "SetRestarting es now s = (Ok (), s')" "state_inv s'" "waitStop s \<in> closedChans (chans s')"
    "closedChans (chans s) \<subseteq> closedChans (chans s')" "Running s'" "Restarting s'"
proof -
  obtain s' where "fireStop (s\<lparr>Running := True, Restarting := True, Paused := False, Pid := 0, FinishedAt := now,
      ExitCodeValue := esExitCode es, OOMKilled := esOOMKilled es\<rparr>) = (Ok (), s')" "state_inv s'"
    "waitStop s \<in> closedChans (chans s')" "closedChans (chans s) \<subseteq> closedChans (chans s')" "Running s'" "Restarting s'"
    using fireStop_ok [OF restarting_inv [OF assms, where f = now and e = "esExitCode es" and k = "esOOMKilled es"]] by auto
  then show ?thesis using that by (simp add: SetRestarting_def)
qed

lemma SetError_inv: "state_inv s \<Longrightarrow> state_inv (SetError err s)"
  by (simp add: state_inv_def SetError_def open_chan_def health_stop_def Let_def split: option.splits)

lemma SetRemovalError_ok:
  assumes "state_inv s"
  obtains s' where "SetRemovalError err s = (Ok (), s')" "state_inv s'" "waitRemove s \<in> closedChans (chans s')"
    "closedChans (chans s) \<subseteq> closedChans (chans s')"
proof -
  let ?s = "SetError err s"
  let ?h = "chans ?s"
  let ?s' = "?s\<lparr>waitRemove := nextChan ?h, chans := ?h\<lparr>closedChans := insert (waitRemove ?s) (closedChans ?h), nextChan := Suc (nextChan ?h)\<rparr>\<rparr>"
  have inv: "state_inv ?s" by (rule SetError_inv [OF assms])
  have "SetRemovalError err s = (Ok (), ?s')"
    using inv by (simp add: SetRemovalError_def closeChan_def makeChan_def state_inv_def open_chan_def Let_def)
  moreover have "state_inv ?s'"
    using inv by (auto simp: state_inv_def open_chan_def health_stop_def split: option.splits)
  moreover have "waitRemove ?s = waitRemove s" "chans ?s = chans s"
    by (simp_all add: SetError_def Let_def split: option.splits)
  ultimately show ?thesis using that [of ?s'] by auto
qed

text \<open>Every string the state prints is one the API accepts as a filter.\<close>

lemma StateString_valid: "IsValidStateString (StateString s)"
  by (simp add: StateString_def IsValidStateString_def)

end
