(* ===== verification/Container_Events.thy ===== *)
theory Container_Events
  imports Container_State "HOL-Library.AList"
begin

text \<open>
  What the daemon does to a running container: the events containerd sends
  (\<open>daemon/monitor.go\<close>), pausing and resuming (\<open>daemon/pause.go\<close>, \<open>daemon/unpause.go\<close>), the health
  monitor (\<open>daemon/health.go\<close>), and the count of containers per state (\<open>daemon/metrics.go\<close>).  Each
  handler runs under the lock of the container.  Streams, mounts and the task in containerd are
  released on the way and are no part of the state modelled here.
\<close>

section \<open>Containers\<close>

record execConfig =
  exRunning :: bool
  exExitCode :: "int option"

record Container =
  cID :: string
  cState :: State
  cRestartManager :: restartManager
  cRestartCount :: int
  HasBeenManuallyStopped :: bool
  HasBeenStartedBefore :: bool
  cHealthTest :: "string list option"
  cAutoRemove :: bool
  cExecs :: "string \<rightharpoonup> execConfig"
  dExecs :: "string \<rightharpoonup> execConfig"
  cLog :: "string list"
  cRemoving :: bool
  cCounter :: "(string \<times> string) list"

text \<open>
  The services around a handler: saving the container, the clock and whether the daemon is
  shutting down.  \<open>cExecs\<close> are the commands of the container and \<open>dExecs\<close> those of the daemon, which
  outlive them so that they can be inspected; \<open>cLog\<close> collects the events reported, \<open>cRemoving\<close> that removal was asked for, and
  \<open>cCounter\<close> is the daemon's map from containers to their state.
\<close>

record eventEnv =
  CheckpointTo :: "Container \<Rightarrow> go_error option"
  evNow :: nat
  IsShuttingDown :: bool

definition onState :: "(State, 'a) M \<Rightarrow> (Container, 'a) M" where
  "onState m c = (case m (cState c) of (r, s) \<Rightarrow> (r, c\<lparr>cState := s\<rparr>))"

definition setState :: "(State \<Rightarrow> State) \<Rightarrow> (Container, unit) M" where
  "setState f = updM (\<lambda>c. c\<lparr>cState := f (cState c)\<rparr>)"

definition LogContainerEvent :: "string \<Rightarrow> (Container, unit) M" where
  "LogContainerEvent e = updM (\<lambda>c. c\<lparr>cLog := cLog c @ [e]\<rparr>)"

definition checkpoint :: "eventEnv \<Rightarrow> (Container, unit) M" where
  "checkpoint E c = (case CheckpointTo E c of None \<Rightarrow> (Ok (), c) | Some e \<Rightarrow> (Err e, c))"

section \<open>Counting states\<close>

definition sc_set :: "string \<Rightarrow> string \<Rightarrow> (string \<times> string) list \<Rightarrow> (string \<times> string) list" where
  "sc_set id1 label states = AList.update id1 label states"

definition sc_del :: "string \<Rightarrow> (string \<times> string) list \<Rightarrow> (string \<times> string) list" where
  "sc_del id1 states = AList.delete id1 states"

definition sc_get :: "(string \<times> string) list \<Rightarrow> nat \<times> nat \<times> nat" where
  "sc_get states =
     (let n = (\<lambda>l. length (filter (\<lambda>(k, v). v = l) states)) in (n ''running'', n ''paused'', n ''stopped''))"

definition counter_label :: "string \<Rightarrow> string" where
  "counter_label s = (if s = ''paused'' then ''paused'' else if s = ''running'' then ''running'' else ''stopped'')"

definition setStateCounter :: "(Container, unit) M" where
  "setStateCounter = updM (\<lambda>c. c\<lparr>cCounter := sc_set (cID c) (counter_label (StateString (cState c))) (cCounter c)\<rparr>)"

section \<open>Health monitor\<close>

text \<open>\<open>Some shell\<close> for a command probe, with a shell or without.\<close>

definition getProbe :: "Container \<Rightarrow> bool option" where
  "getProbe c =
     (case cHealthTest c of
        None \<Rightarrow> None
      | Some [] \<Rightarrow> None
      | Some (t # _) \<Rightarrow> if t = ''CMD'' then Some False else if t = ''CMD-SHELL'' then Some True else None)"

definition closeMonitor :: "Health \<Rightarrow> (Container, unit) M" where
  "closeMonitor h =
     bindM getM (\<lambda>c.
     case CloseMonitorChannel h (chans (cState c)) of
       None \<Rightarrow> panicM ''close of closed channel''
     | Some (h1, ch) \<Rightarrow> setState (\<lambda>s. s\<lparr>sHealth := Some h1, chans := ch\<rparr>))"

definition updateHealthMonitor :: "(Container, unit) M" where
  "updateHealthMonitor =
     bindM getM (\<lambda>c.
     case sHealth (cState c) of
       None \<Rightarrow> ret ()
     | Some h \<Rightarrow>
         let wantRunning = (Running (cState c) \<and> \<not> Paused (cState c) \<and> getProbe c \<noteq> None) in
         if wantRunning then
           (case OpenMonitorChannel h (chans (cState c)) of
              (stop, h1, ch) \<Rightarrow> setState (\<lambda>s. s\<lparr>sHealth := Some h1, chans := ch\<rparr>))
         else closeMonitor h)"

definition stopHealthchecks :: "(Container, unit) M" where
  "stopHealthchecks = bindM getM (\<lambda>c. case sHealth (cState c) of None \<Rightarrow> ret () | Some h \<Rightarrow> closeMonitor h)"

definition initHealthMonitor :: "(Container, unit) M" where
  "initHealthMonitor =
     bindM getM (\<lambda>c0.
     if getProbe c0 = None then ret ()
     else
       bindM stopHealthchecks (\<lambda>_.
       bindM (setState (\<lambda>s. s\<lparr>sHealth :=
                (case sHealth s of
                   Some h \<Rightarrow> Some ((SetStatus Starting h)\<lparr>FailingStreak := 0\<rparr>)
                 | None \<Rightarrow> Some (SetStatus Starting \<lparr>hStatus = '''', FailingStreak = 0, hStop = None\<rparr>))\<rparr>)) (\<lambda>_.
       updateHealthMonitor)))"

section \<open>Pausing\<close>

definition errNotRunning :: "string \<Rightarrow> go_error" where
  "errNotRunning i = ErrClass Conflict (Errorf (''Container '' @ i @ '' is not running''))"

definition errNotPaused :: "string \<Rightarrow> go_error" where
  "errNotPaused i = ErrClass Conflict (Errorf (''Container '' @ i @ '' is already paused''))"

definition errContainerIsRestarting :: "string \<Rightarrow> go_error" where
  "errContainerIsRestarting i =
     ErrClass Conflict (Errorf (''Container '' @ i @ '' is restarting, wait until the container is running''))"

text \<open>The answer of containerd is an argument.\<close>

definition containerPause :: "eventEnv \<Rightarrow> go_error option \<Rightarrow> (Container, unit) M" where
  "containerPause E answer =
     bindM getM (\<lambda>c.
     if \<not> Running (cState c) then raise (errNotRunning (cID c))
     else if Paused (cState c) then raise (errNotPaused (cID c))
     else if Restarting (cState c) then raise (errContainerIsRestarting (cID c))
     else case answer of
       Some e \<Rightarrow> raise (Errorf (''Cannot pause container '' @ cID c @ '': '' @ err_string e))
     | None \<Rightarrow>
         bindM (setState (\<lambda>s. s\<lparr>Paused := True\<rparr>)) (\<lambda>_.
         bindM setStateCounter (\<lambda>_.
         bindM updateHealthMonitor (\<lambda>_.
         bindM (LogContainerEvent ''pause'') (\<lambda>_.
         bindM (tryM (checkpoint E)) (\<lambda>_. ret ()))))))"

definition containerUnpause :: "eventEnv \<Rightarrow> go_error option \<Rightarrow> (Container, unit) M" where
  "containerUnpause E answer =
     bindM getM (\<lambda>c.
     if \<not> Paused (cState c) then raise (Errorf (''Container '' @ cID c @ '' is not paused''))
     else case answer of
       Some e \<Rightarrow> raise (Errorf (''Cannot unpause container '' @ cID c @ '': '' @ err_string e))
     | None \<Rightarrow>
         bindM (setState (\<lambda>s. s\<lparr>Paused := False\<rparr>)) (\<lambda>_.
         bindM setStateCounter (\<lambda>_.
         bindM updateHealthMonitor (\<lambda>_.
         bindM (LogContainerEvent ''unpause'') (\<lambda>_.
         bindM (tryM (checkpoint E)) (\<lambda>_. ret ()))))))"

section \<open>Events\<close>

datatype EventType = EventOOM | EventExit | EventStart | EventPaused | EventResumed | EventOther

record EventInfo =
  eiProcessID :: string
  eiPid :: int
  eiExitCode :: nat
  eiExitedAt :: nat
  eiOOMKilled :: bool
  eiError :: "go_error option"

definition exitStatusOf :: "EventInfo \<Rightarrow> ExitStatus" where
  "exitStatusOf ei = \<lparr>esExitCode = int (eiExitCode ei), esOOMKilled = eiOOMKilled ei, esExitedAt = eiExitedAt ei\<rparr>"

definition autoRemove :: "(Container, unit) M" where
  "autoRemove = updM (\<lambda>c. if cAutoRemove c then c\<lparr>cRemoving := True\<rparr> else c)"

text \<open>The main process has exited: restart or stop, as the restart manager decides.\<close>

definition exitTransition :: "bool outcome \<Rightarrow> eventEnv \<Rightarrow> EventInfo \<Rightarrow> (Container, unit) M" where
  "exitTransition decision E ei =
     (if decision = Ok True then
        bindM (updM (\<lambda>c. c\<lparr>cRestartCount := cRestartCount c + 1\<rparr>)) (\<lambda>_.
        onState (SetRestarting (exitStatusOf ei) (evNow E)))
      else
        bindM (case eiError ei of None \<Rightarrow> ret () | Some e \<Rightarrow> setState (SetError (Some e))) (\<lambda>_.
        bindM (onState (SetStopped (exitStatusOf ei) (evNow E))) (\<lambda>_. autoRemove)))"

definition onExit :: "eventEnv \<Rightarrow> EventInfo \<Rightarrow> (Container, unit) M" where
  "onExit E ei =
     bindM getM (\<lambda>c.
     case ShouldRestart (eiExitCode ei) (IsShuttingDown E \<or> HasBeenManuallyStopped c)
            (int (evNow E) - int (StartedAt (cState c))) (cRestartManager c) of
       (decision, rm) \<Rightarrow>
         bindM (updM (\<lambda>c. c\<lparr>cRestartManager := rm\<rparr>)) (\<lambda>_.
         bindM (exitTransition decision E ei) (\<lambda>_.
         bindM stopHealthchecks (\<lambda>_.
         bindM (LogContainerEvent ''die'') (\<lambda>_.
         bindM setStateCounter (\<lambda>_. checkpoint E))))))"

definition onExecExit :: "EventInfo \<Rightarrow> (Container, unit) M" where
  "onExecExit ei =
     bindM getM (\<lambda>c.
     case cExecs c (eiProcessID ei) of
       Some ex \<Rightarrow>
         bindM (updM (\<lambda>c. c\<lparr>cExecs := (cExecs c)(eiProcessID ei := None),
                            dExecs := (dExecs c)(eiProcessID ei \<mapsto> ex\<lparr>exExitCode := Some (int (eiExitCode ei)), exRunning := False\<rparr>)\<rparr>)) (\<lambda>_.
         LogContainerEvent ''exec_die'')
     | None \<Rightarrow> ret ())"

definition processEvent :: "eventEnv \<Rightarrow> EventType \<Rightarrow> EventInfo \<Rightarrow> (Container, unit) M" where
  "processEvent E e ei =
     (case e of
        EventOOM \<Rightarrow>
          bindM updateHealthMonitor (\<lambda>_. bindM (checkpoint E) (\<lambda>_. LogContainerEvent ''oom''))
      | EventExit \<Rightarrow>
          bindM getM (\<lambda>c. if eiPid ei = Pid (cState c) then onExit E ei else onExecExit ei)
      | EventStart \<Rightarrow>
          bindM getM (\<lambda>c.
          if \<not> Running (cState c) then
            bindM (setState (SetRunning (eiPid ei) False (evNow E))) (\<lambda>_.
            bindM (updM (\<lambda>c. c\<lparr>HasBeenManuallyStopped := False, HasBeenStartedBefore := True\<rparr>)) (\<lambda>_.
            bindM setStateCounter (\<lambda>_.
            bindM initHealthMonitor (\<lambda>_.
            bindM (checkpoint E) (\<lambda>_. LogContainerEvent ''start'')))))
          else ret ())
      | EventPaused \<Rightarrow>
          bindM getM (\<lambda>c.
          if \<not> Paused (cState c) then
            bindM (setState (\<lambda>s. s\<lparr>Paused := True\<rparr>)) (\<lambda>_.
            bindM setStateCounter (\<lambda>_.
            bindM updateHealthMonitor (\<lambda>_.
            bindM (checkpoint E) (\<lambda>_. LogContainerEvent ''pause''))))
          else ret ())
      | EventResumed \<Rightarrow>
          bindM getM (\<lambda>c.
          if Paused (cState c) then
            bindM (setState (\<lambda>s. s\<lparr>Paused := False\<rparr>)) (\<lambda>_.
            bindM setStateCounter (\<lambda>_.
            bindM updateHealthMonitor (\<lambda>_.
            bindM (checkpoint E) (\<lambda>_. LogContainerEvent ''unpause''))))
          else ret ())
      | EventOther \<Rightarrow> ret ())"

definition ProcessEvent ::
  "eventEnv \<Rightarrow> string \<Rightarrow> EventType \<Rightarrow> EventInfo \<Rightarrow> (string \<rightharpoonup> Container) \<Rightarrow> unit outcome \<times> (string \<rightharpoonup> Container)" where
  "ProcessEvent E id1 e ei cs =
     (case cs id1 of
        None \<Rightarrow> (Err (Errorf (''no such container: '' @ id1)), cs)
      | Some c \<Rightarrow> (case processEvent E e ei c of (r, c1) \<Rightarrow> (r, cs(id1 \<mapsto> c1))))"

text \<open>
  The goroutine of a restart, once the restart manager has answered: start the container, and stop
  it when the wait was cancelled or the start failed.  \<open>start\<close> is \<open>containerStart\<close>.
\<close>

definition restartGoroutine ::
  "(Container, unit) M \<Rightarrow> go_error option \<Rightarrow> ExitStatus \<Rightarrow> nat \<Rightarrow> (Container, unit) M" where
  "restartGoroutine start waitErr es now =
     (let stop = bindM (onState (SetStopped es now)) (\<lambda>_. autoRemove) in
      case waitErr of
        Some e \<Rightarrow> stop
      | None \<Rightarrow> catchM start (\<lambda>_. stop))"

section \<open>The handlers never panic\<close>

named_theorems safe_intro \<open>composition rules for handlers that do not panic\<close>

definition safe :: "('s \<Rightarrow> bool) \<Rightarrow> ('s, 'a) M \<Rightarrow> bool" where
  "safe I m \<longleftrightarrow> valid I m (\<lambda>r s. \<not> is_panic r \<and> I s)"

lemma safeI: "(\<And>s r s'. I s \<Longrightarrow> m s = (r, s') \<Longrightarrow> \<not> is_panic r \<and> I s') \<Longrightarrow> safe I m"
  unfolding safe_def by (rule validI)

lemma safeD: "safe I m \<Longrightarrow> I s \<Longrightarrow> m s = (r, s') \<Longrightarrow> \<not> is_panic r \<and> I s'"
  unfolding safe_def by (rule validD)

lemma safe_basic [safe_intro]: "safe I (ret a)" "safe I (raise e)" "safe I getM"
  by (auto intro!: safeI simp: ret_def raise_def getM_def)

lemma safe_bind [safe_intro]:
  assumes "safe I m" "\<And>a. safe I (f a)"
  shows "safe I (bindM m f)"
proof (rule safeI)
  fix s r s' assume i: "I s" and r: "bindM m f s = (r, s')"
  obtain q s1 where q: "m s = (q, s1)" by fastforce
  have "\<not> is_panic q" "I s1" using safeD [OF assms(1) i q] by auto
  then show "\<not> is_panic r \<and> I s'" using r q safeD [OF assms(2)] by (cases q) (auto simp: bindM_def)
qed

lemma safe_if [safe_intro]: "(b \<Longrightarrow> safe I m) \<Longrightarrow> (\<not> b \<Longrightarrow> safe I n) \<Longrightarrow> safe I (if b then m else n)"
  by simp

lemma safe_option [safe_intro]: "(x = None \<Longrightarrow> safe I m) \<Longrightarrow> (\<And>a. x = Some a \<Longrightarrow> safe I (f a)) \<Longrightarrow>
    safe I (case x of None \<Rightarrow> m | Some a \<Rightarrow> f a)"
  by (cases x) auto

lemma safe_upd [safe_intro]: "(\<And>s. I s \<Longrightarrow> I (f s)) \<Longrightarrow> safe I (updM f)"
  by (auto intro!: safeI simp: updM_def)

lemma safe_try [safe_intro]:
  assumes "safe I m"
  shows "safe I (tryM m)"
proof (rule safeI)
  fix s r s' assume i: "I s" and r: "tryM m s = (r, s')"
  obtain q s1 where q: "m s = (q, s1)" by fastforce
  then show "\<not> is_panic r \<and> I s'" using r safeD [OF assms i q] by (cases q) (auto simp: tryM_def)
qed

text \<open>What every handler keeps: the state is consistent, the delays are in range, and the channels of \<open>K\<close> stay closed.\<close>

definition core_inv :: "nat set \<Rightarrow> Container \<Rightarrow> bool" where
  "core_inv K c \<longleftrightarrow> state_inv (cState c) \<and> delay_ok (cRestartManager c) \<and> K \<subseteq> closedChans (chans (cState c))"

lemma safe_log [safe_intro]: "safe (core_inv K) (LogContainerEvent e)"
  unfolding LogContainerEvent_def by (intro safe_intro) (simp add: core_inv_def)

lemma safe_counter [safe_intro]: "safe (core_inv K) setStateCounter"
  unfolding setStateCounter_def by (intro safe_intro) (simp add: core_inv_def)

lemma safe_checkpoint [safe_intro]: "safe I (checkpoint E)"
  by (auto intro!: safeI simp: checkpoint_def split: option.splits)

lemma safe_autoRemove [safe_intro]: "safe (core_inv K) autoRemove"
  unfolding autoRemove_def by (intro safe_intro) (simp add: core_inv_def)

lemma safe_pausedFlag [safe_intro]: "safe (core_inv K) (setState (\<lambda>s. s\<lparr>Paused := b\<rparr>))"
  unfolding setState_def by (intro safe_intro) (simp add: core_inv_def state_inv_def open_chan_def health_stop_def)

lemma closeMonitor_step:
  assumes "core_inv K c" "sHealth (cState c) = Some h" "closeMonitor h c = (r, c')"
  shows "\<not> is_panic r \<and> core_inv K c'"
proof (cases "hStop h")
  case None
  then have "r = Ok ()" "c' = c\<lparr>cState := (cState c)\<lparr>sHealth := Some h, chans := chans (cState c)\<rparr>\<rparr>"
    using assms(3) by (simp_all add: closeMonitor_def CloseMonitorChannel_def bindM_def getM_def setState_def updM_def)
  then show ?thesis using assms(1,2) by (simp add: core_inv_def state_inv_def open_chan_def health_stop_def)
next
  case (Some s)
  have o: "open_chan (cState c) s" "s \<noteq> waitStop (cState c)" "s \<noteq> waitRemove (cState c)"
    using assms(1,2) Some by (auto simp: core_inv_def state_inv_def health_stop_def)
  let ?ch = "chans (cState c)"
  let ?s' = "(cState c)\<lparr>sHealth := Some (h\<lparr>hStop := None, hStatus := Unhealthy\<rparr>), chans := ?ch\<lparr>closedChans := insert s (closedChans ?ch)\<rparr>\<rparr>"
  have "r = Ok ()" "c' = c\<lparr>cState := ?s'\<rparr>"
    using assms(3) Some o(1)
    by (simp_all add: closeMonitor_def CloseMonitorChannel_def closeChan_def bindM_def getM_def setState_def updM_def open_chan_def)
  moreover have "state_inv ?s'"
    using assms(1) o by (auto simp: core_inv_def state_inv_def open_chan_def health_stop_def)
  ultimately show ?thesis using assms(1) by (auto simp: core_inv_def)
qed

lemma openMonitor_step:
  assumes "core_inv K c" "sHealth (cState c) = Some h" "OpenMonitorChannel h (chans (cState c)) = (stop, h1, ch)"
  shows "core_inv K (c\<lparr>cState := (cState c)\<lparr>sHealth := Some h1, chans := ch\<rparr>\<rparr>)"
proof (cases "hStop h")
  case None
  then have e: "h1 = h\<lparr>hStop := Some (nextChan (chans (cState c)))\<rparr>"
    "ch = (chans (cState c))\<lparr>nextChan := Suc (nextChan (chans (cState c)))\<rparr>"
    using assms(3) by (auto simp: OpenMonitorChannel_def makeChan_def)
  show ?thesis using assms(1) unfolding e
    by (auto simp: core_inv_def state_inv_def open_chan_def health_stop_def)
next
  case (Some s)
  then have "h1 = h" "ch = chans (cState c)" using assms(3) by (auto simp: OpenMonitorChannel_def)
  then show ?thesis using assms(1,2) by (simp add: core_inv_def state_inv_def open_chan_def health_stop_def)
qed

lemma safe_stopHealthchecks [safe_intro]: "safe (core_inv K) stopHealthchecks"
proof (rule safeI)
  fix c r c' assume i: "core_inv K c" and r: "stopHealthchecks c = (r, c')"
  show "\<not> is_panic r \<and> core_inv K c'"
  proof (cases "sHealth (cState c)")
    case None
    then have "r = Ok ()" "c' = c" using r by (simp_all add: stopHealthchecks_def bindM_def getM_def ret_def)
    then show ?thesis using i by simp
  next
    case (Some h)
    then have "closeMonitor h c = (r, c')" using r by (simp add: stopHealthchecks_def bindM_def getM_def)
    then show ?thesis using closeMonitor_step [OF i Some] by blast
  qed
qed

lemma safe_updateHealthMonitor [safe_intro]: "safe (core_inv K) updateHealthMonitor"
proof (rule safeI)
  fix c r c' assume i: "core_inv K c" and r: "updateHealthMonitor c = (r, c')"
  show "\<not> is_panic r \<and> core_inv K c'"
  proof (cases "sHealth (cState c)")
    case None
    then have "r = Ok ()" "c' = c" using r by (simp_all add: updateHealthMonitor_def bindM_def getM_def ret_def)
    then show ?thesis using i by simp
  next
    case (Some h)
    obtain stop h1 ch where o: "OpenMonitorChannel h (chans (cState c)) = (stop, h1, ch)" using prod_cases3 by blast
    show ?thesis
    proof (cases "Running (cState c) \<and> \<not> Paused (cState c) \<and> getProbe c \<noteq> None")
      case True
      then have "r = Ok ()" "c' = c\<lparr>cState := (cState c)\<lparr>sHealth := Some h1, chans := ch\<rparr>\<rparr>"
        using r Some o by (simp_all add: updateHealthMonitor_def bindM_def getM_def setState_def updM_def)
      then show ?thesis using openMonitor_step [OF i Some o] by simp
    next
      case False
      then have "closeMonitor h c = (r, c')"
        using r Some unfolding updateHealthMonitor_def bindM_def getM_def by (simp add: Let_def split: if_splits)
      then show ?thesis using closeMonitor_step [OF i Some] by blast
    qed
  qed
qed

lemma safe_initHealthMonitor [safe_intro]: "safe (core_inv K) initHealthMonitor"
  unfolding initHealthMonitor_def setState_def
  by (intro safe_intro)
    (auto simp: core_inv_def state_inv_def open_chan_def health_stop_def SetStatus_def split: option.splits)

lemma safe_pause: "safe (core_inv K) (containerPause E a)" "safe (core_inv K) (containerUnpause E a)"
  unfolding containerPause_def containerUnpause_def by (intro safe_intro)+

text \<open>A step that cannot fail and takes one invariant to another.\<close>

definition runs :: "('s \<Rightarrow> bool) \<Rightarrow> ('s \<Rightarrow> bool) \<Rightarrow> ('s, 'a) M \<Rightarrow> bool" where
  "runs I J m \<longleftrightarrow> (\<forall>s. I s \<longrightarrow> (\<exists>a s'. m s = (Ok a, s') \<and> J s'))"

lemma runs_upd: "(\<And>s. I s \<Longrightarrow> J (f s)) \<Longrightarrow> runs I J (updM f)"
  by (simp add: runs_def updM_def)

lemma runs_ret: "(\<And>s. I s \<Longrightarrow> J s) \<Longrightarrow> runs I J (ret a)"
  by (simp add: runs_def ret_def)

lemma runs_bind: "runs I J m \<Longrightarrow> (\<And>a. runs J L (f a)) \<Longrightarrow> runs I L (bindM m f)"
  unfolding runs_def bindM_def by (metis (no_types, lifting) outcome.simps(10) prod.simps(2))

lemma runs_then_safe:
  assumes "runs I J m" "\<And>a. safe J (f a)" "I s" "bindM m f s = (r, s')"
  shows "\<not> is_panic r \<and> J s'"
proof -
  obtain a s1 where "m s = (Ok a, s1)" "J s1" using assms(1,3) by (auto simp: runs_def)
  then show ?thesis using assms(4) safeD [OF assms(2), of s1 a] by (simp add: bindM_def)
qed

definition before_exit :: "nat \<Rightarrow> nat set \<Rightarrow> Container \<Rightarrow> bool" where
  "before_exit w K c \<longleftrightarrow> core_inv K c \<and> waitStop (cState c) = w"

lemma runs_SetStopped: "runs (before_exit w K) (core_inv (insert w K)) (onState (SetStopped es now))"
  unfolding runs_def
proof (intro allI impI)
  fix c assume i: "before_exit w K c"
  then have "state_inv (cState c)" by (simp add: before_exit_def core_inv_def)
  then obtain s' where "SetStopped es now (cState c) = (Ok (), s')" "state_inv s'" "waitStop (cState c) \<in> closedChans (chans s')"
    "closedChans (chans (cState c)) \<subseteq> closedChans (chans s')" using SetStopped_ok by metis
  then show "\<exists>a c'. onState (SetStopped es now) c = (Ok a, c') \<and> core_inv (insert w K) c'"
    using i by (auto simp: onState_def before_exit_def core_inv_def)
qed

lemma runs_SetRestarting: "runs (before_exit w K) (core_inv (insert w K)) (onState (SetRestarting es now))"
  unfolding runs_def
proof (intro allI impI)
  fix c assume i: "before_exit w K c"
  then have "state_inv (cState c)" by (simp add: before_exit_def core_inv_def)
  then obtain s' where "SetRestarting es now (cState c) = (Ok (), s')" "state_inv s'" "waitStop (cState c) \<in> closedChans (chans s')"
    "closedChans (chans (cState c)) \<subseteq> closedChans (chans s')" using SetRestarting_ok by metis
  then show "\<exists>a c'. onState (SetRestarting es now) c = (Ok a, c') \<and> core_inv (insert w K) c'"
    using i by (auto simp: onState_def before_exit_def core_inv_def)
qed

lemma runs_setError: "runs (before_exit w K) (before_exit w K) (case x of None \<Rightarrow> ret () | Some e \<Rightarrow> setState (SetError (Some e)))"
proof (cases x)
  case None
  then show ?thesis by (simp add: runs_ret)
next
  case (Some e)
  have "before_exit w K (c\<lparr>cState := SetError (Some e) (cState c)\<rparr>)" if "before_exit w K c" for c
    using that SetError_inv [of "cState c" "Some e"] by (simp add: before_exit_def core_inv_def SetError_def Let_def)
  then show ?thesis using Some by (simp add: setState_def runs_upd)
qed

lemma runs_exitTransition: "runs (before_exit w K) (core_inv (insert w K)) (exitTransition decision E ei)"
proof (cases "decision = Ok True")
  case True
  have "runs (before_exit w K) (before_exit w K) (updM (\<lambda>c. c\<lparr>cRestartCount := cRestartCount c + 1\<rparr>))"
    by (rule runs_upd) (simp add: before_exit_def core_inv_def)
  then show ?thesis using True by (simp add: exitTransition_def runs_bind [OF _ runs_SetRestarting])
next
  case False
  have "runs (core_inv (insert w K)) (core_inv (insert w K)) autoRemove"
    unfolding autoRemove_def by (rule runs_upd) (simp add: core_inv_def)
  then have "runs (before_exit w K) (core_inv (insert w K)) (bindM (onState (SetStopped (exitStatusOf ei) (evNow E))) (\<lambda>_. autoRemove))"
    by (rule runs_bind [OF runs_SetStopped])
  then show ?thesis using False by (simp add: exitTransition_def runs_bind [OF runs_setError])
qed

text \<open>\<open>onExit\<close> after the restart manager has decided.\<close>

lemma onExit_decided:
  assumes "core_inv K c" "onExit E ei c = (r, c')"
  obtains decision rm where "before_exit (waitStop (cState c)) K (c\<lparr>cRestartManager := rm\<rparr>)"
    "bindM (exitTransition decision E ei) (\<lambda>_. bindM stopHealthchecks (\<lambda>_. bindM (LogContainerEvent ''die'') (\<lambda>_.
      bindM setStateCounter (\<lambda>_. checkpoint E)))) (c\<lparr>cRestartManager := rm\<rparr>) = (r, c')"
proof -
  obtain decision rm where d: "ShouldRestart (eiExitCode ei) (IsShuttingDown E \<or> HasBeenManuallyStopped c)
      (int (evNow E) - int (StartedAt (cState c))) (cRestartManager c) = (decision, rm)" by fastforce
  have "delay_ok rm" using delay_ok_ShouldRestart [OF _ d] assms(1) by (simp add: core_inv_def)
  then have "before_exit (waitStop (cState c)) K (c\<lparr>cRestartManager := rm\<rparr>)"
    using assms(1) by (simp add: before_exit_def core_inv_def)
  moreover have "bindM (exitTransition decision E ei) (\<lambda>_. bindM stopHealthchecks (\<lambda>_. bindM (LogContainerEvent ''die'') (\<lambda>_.
      bindM setStateCounter (\<lambda>_. checkpoint E)))) (c\<lparr>cRestartManager := rm\<rparr>) = (r, c')"
    using assms(2) d unfolding onExit_def by (simp only: bindM_def getM_def updM_def prod.case outcome.case)
  ultimately show ?thesis by (rule that)
qed

lemma onExit_step:
  assumes "core_inv K c" "onExit E ei c = (r, c')"
  shows "\<not> is_panic r \<and> core_inv (insert (waitStop (cState c)) K) c'"
proof -
  let ?w = "waitStop (cState c)"
  obtain decision rm where s: "before_exit ?w K (c\<lparr>cRestartManager := rm\<rparr>)"
    "bindM (exitTransition decision E ei) (\<lambda>_. bindM stopHealthchecks (\<lambda>_. bindM (LogContainerEvent ''die'') (\<lambda>_.
      bindM setStateCounter (\<lambda>_. checkpoint E)))) (c\<lparr>cRestartManager := rm\<rparr>) = (r, c')"
    by (rule onExit_decided [OF assms])
  have rest: "safe (core_inv (insert ?w K)) (bindM stopHealthchecks (\<lambda>_. bindM (LogContainerEvent ''die'') (\<lambda>_.
      bindM setStateCounter (\<lambda>_. checkpoint E))))" by (intro safe_intro)
  show ?thesis by (rule runs_then_safe [OF runs_exitTransition rest s])
qed

lemma core_inv_mono: "core_inv (insert w K) c \<Longrightarrow> core_inv K c"
  by (simp add: core_inv_def)

lemma safe_onExit: "safe (core_inv K) (onExit E ei)"
  by (rule safeI) (use onExit_step core_inv_mono in blast)

lemma safe_setRunning: "safe (core_inv K) (setState (SetRunning pid b now))"
proof -
  have "chans (SetRunning pid b now s) = chans s" for s by (simp add: SetRunning_def Let_def)
  then show ?thesis unfolding setState_def by (intro safe_intro) (simp add: core_inv_def SetRunning_inv)
qed

lemma safe_processEvent: "safe (core_inv K) (processEvent E e ei)"
proof (cases e)
  case EventExit
  have "safe (core_inv K) (onExecExit ei)"
    unfolding onExecExit_def by (intro safe_intro) (simp add: core_inv_def)
  then show ?thesis using EventExit by (simp add: processEvent_def safe_intro safe_onExit)
next
  case EventStart
  have "safe (core_inv K) (updM (\<lambda>c. c\<lparr>HasBeenManuallyStopped := False, HasBeenStartedBefore := True\<rparr>))"
    by (intro safe_intro) (simp add: core_inv_def)
  then show ?thesis using EventStart by (simp add: processEvent_def safe_intro safe_setRunning)
qed (simp_all add: processEvent_def safe_intro)

section \<open>The counter follows the state\<close>

definition label_ok :: "Container \<Rightarrow> bool" where
  "label_ok c \<longleftrightarrow> map_of (cCounter c) (cID c) = Some (counter_label (StateString (cState c)))"

definition relabels :: "(Container \<Rightarrow> bool) \<Rightarrow> (Container, 'a) M \<Rightarrow> bool" where
  "relabels I g \<longleftrightarrow> (\<forall>c r c'. I c \<longrightarrow> g c = (r, c') \<longrightarrow> label_ok c')"

lemma keeps_setState:
  "(\<And>s. StateString (f s) = StateString s) \<Longrightarrow> keeps label_ok (setState f)"
  unfolding setState_def by (intro keeps_intro) (simp add: label_ok_def)

lemma StateString_health [simp]: "StateString (s\<lparr>sHealth := h, chans := ch\<rparr>) = StateString s" "StateString (s\<lparr>sHealth := h\<rparr>) = StateString s"
  by (simp_all add: StateString_def)

lemma keeps_log [keeps_intro]: "keeps label_ok (LogContainerEvent e)"
  unfolding LogContainerEvent_def by (intro keeps_intro) (simp add: label_ok_def)

lemma keeps_checkpoint [keeps_intro]: "keeps label_ok (checkpoint E)"
  by (auto simp: keeps_def checkpoint_def split: option.splits)

lemma keeps_closeMonitor [keeps_intro]: "keeps label_ok (closeMonitor h)"
  unfolding closeMonitor_def by (intro keeps_intro keeps_setState) simp_all

lemma keeps_updateHealthMonitor [keeps_intro]: "keeps label_ok updateHealthMonitor"
  unfolding updateHealthMonitor_def by (intro keeps_intro keeps_setState) simp_all

lemma keeps_initHealthMonitor [keeps_intro]: "keeps label_ok initHealthMonitor"
  unfolding initHealthMonitor_def stopHealthchecks_def by (intro keeps_intro keeps_setState) simp_all

lemma relabels_counter: "(\<And>a. keeps label_ok (f a)) \<Longrightarrow> relabels I (bindM setStateCounter f)"
proof -
  assume f: "\<And>a. keeps label_ok (f a)"
  have "label_ok (snd (setStateCounter c))" for c
    by (simp add: setStateCounter_def updM_def label_ok_def sc_set_def update_conv')
  moreover have "setStateCounter c = (Ok (), snd (setStateCounter c))" for c
    by (simp add: setStateCounter_def updM_def)
  ultimately show ?thesis unfolding relabels_def
    by (metis (no_types, lifting) f keepsD bindM_step)
qed

lemma relabels_bind: "runs I J m \<Longrightarrow> (\<And>a. relabels J (f a)) \<Longrightarrow> relabels I (bindM m f)"
  unfolding relabels_def runs_def by (metis bindM_step)

lemma runs_stopHealthchecks: "runs (core_inv K) (core_inv K) stopHealthchecks"
  unfolding runs_def
proof (intro allI impI)
  fix c assume i: "core_inv K c"
  obtain r c' where r: "stopHealthchecks c = (r, c')" by fastforce
  have "\<nexists>e. r = Err e"
    using r by (auto simp: stopHealthchecks_def closeMonitor_def setState_def bindM_def getM_def ret_def updM_def panicM_def
        split: option.splits prod.splits)
  moreover have "\<not> is_panic r \<and> core_inv K c'" using safeD [OF safe_stopHealthchecks i r] .
  ultimately show "\<exists>a s'. stopHealthchecks c = (Ok a, s') \<and> core_inv K s'" using r by (cases r) auto
qed

lemma runs_log: "runs (core_inv K) (core_inv K) (LogContainerEvent e)"
  unfolding LogContainerEvent_def by (rule runs_upd) (simp add: core_inv_def)

lemma runs_any: "runs I (\<lambda>_. True) (setState f)" "runs I (\<lambda>_. True) (updM g)"
  by (simp_all add: runs_def setState_def updM_def)

lemma onExit_relabels: "relabels (core_inv K) (onExit E ei)"
  unfolding relabels_def
proof (intro allI impI)
  fix c r c' assume "core_inv K c" "onExit E ei c = (r, c')"
  then obtain decision rm where s: "before_exit (waitStop (cState c)) K (c\<lparr>cRestartManager := rm\<rparr>)"
    "bindM (exitTransition decision E ei) (\<lambda>_. bindM stopHealthchecks (\<lambda>_. bindM (LogContainerEvent ''die'') (\<lambda>_.
      bindM setStateCounter (\<lambda>_. checkpoint E)))) (c\<lparr>cRestartManager := rm\<rparr>) = (r, c')"
    by (rule onExit_decided)
  have "relabels (before_exit (waitStop (cState c)) K) (bindM (exitTransition decision E ei) (\<lambda>_. bindM stopHealthchecks
      (\<lambda>_. bindM (LogContainerEvent ''die'') (\<lambda>_. bindM setStateCounter (\<lambda>_. checkpoint E)))))"
    by (intro relabels_bind [OF runs_exitTransition] relabels_bind [OF runs_stopHealthchecks] relabels_bind [OF runs_log]
        relabels_counter keeps_checkpoint)
  then show "label_ok c'" using s by (auto simp: relabels_def)
qed

text \<open>Handlers that change the state before they set the label.\<close>

lemma relabel_after: "runs I (\<lambda>_. True) m \<Longrightarrow> (\<And>a. relabels (\<lambda>_. True) (f a)) \<Longrightarrow> relabels I (bindM m f)"
  by (rule relabels_bind)

lemma relabels_keeps: "relabels (\<lambda>_. True) m \<Longrightarrow> keeps label_ok m"
  by (rule keepsI) (simp add: relabels_def)

lemma keeps_flag: "(\<And>a. keeps label_ok (f a)) \<Longrightarrow> keeps label_ok (bindM (setState g) (\<lambda>_. bindM setStateCounter f))"
  by (rule relabels_keeps, rule relabels_bind [OF runs_any(1)], rule relabels_counter)

lemma keeps_pause: "keeps label_ok (containerPause E a)" "keeps label_ok (containerUnpause E a)"
  unfolding containerPause_def containerUnpause_def
  by (rule keeps_flag keeps_bind keeps_basic keeps_if keeps_option keeps_updateHealthMonitor keeps_log keeps_try keeps_checkpoint)+

lemma keeps_start:
  "keeps label_ok (bindM (setState g) (\<lambda>_. bindM (updM h) (\<lambda>_. bindM setStateCounter (\<lambda>_.
     bindM initHealthMonitor (\<lambda>_. bindM (checkpoint E) (\<lambda>_. LogContainerEvent e))))))"
  by (rule relabels_keeps, rule relabels_bind [OF runs_any(1)], rule relabels_bind [OF runs_any(2)], rule relabels_counter)
    (intro keeps_intro)

definition container_inv :: "Container \<Rightarrow> bool" where
  "container_inv c \<longleftrightarrow> core_inv {} c \<and> label_ok c"

lemma label_ok_processEvent:
  assumes "container_inv c" "processEvent E e ei c = (r, c')"
  shows "label_ok c'"
proof (cases e)
  case EventExit
  have ex: "keeps label_ok (onExecExit ei)"
    unfolding onExecExit_def by (intro keeps_intro) (simp add: label_ok_def)
  show ?thesis
  proof (cases "eiPid ei = Pid (cState c)")
    case True
    then have "onExit E ei c = (r, c')" using assms(2) EventExit by (simp add: processEvent_def bindM_def getM_def)
    then show ?thesis using assms(1) onExit_relabels [of "{}" E ei] unfolding relabels_def container_inv_def by blast
  next
    case False
    then have "onExecExit ei c = (r, c')" using assms(2) EventExit by (simp add: processEvent_def bindM_def getM_def)
    then show ?thesis using assms(1) keepsD [OF ex] by (auto simp: container_inv_def)
  qed
next
  case EventOOM
  have "keeps label_ok (processEvent E e ei)" using EventOOM by (simp add: processEvent_def keeps_intro)
  then show ?thesis using keepsD assms by (metis container_inv_def)
next
  case EventStart
  have "keeps label_ok (processEvent E e ei)"
    using EventStart by (simp add: processEvent_def keeps_start keeps_bind keeps_if keeps_basic)
  then show ?thesis using keepsD assms by (metis container_inv_def)
next
  case EventPaused
  have "keeps label_ok (processEvent E e ei)"
    using EventPaused by (simp add: processEvent_def) (rule keeps_flag keeps_bind keeps_if keeps_basic keeps_updateHealthMonitor keeps_checkpoint keeps_log)+
  then show ?thesis using keepsD assms by (metis container_inv_def)
next
  case EventResumed
  have "keeps label_ok (processEvent E e ei)"
    using EventResumed by (simp add: processEvent_def) (rule keeps_flag keeps_bind keeps_if keeps_basic keeps_updateHealthMonitor keeps_checkpoint keeps_log)+
  then show ?thesis using keepsD assms by (metis container_inv_def)
next
  case EventOther
  then show ?thesis using assms by (simp add: processEvent_def ret_def container_inv_def)
qed

section \<open>Sequences of handlers\<close>

text \<open>
  The handlers in any order, and the flags of a removal, which the daemon sets once the container
  is not running any more.
\<close>

inductive container_step :: "Container \<Rightarrow> Container \<Rightarrow> bool" where
  event: "processEvent E e ei c = (r, c') \<Longrightarrow> container_step c c'"
| pause: "containerPause E a c = (r, c') \<Longrightarrow> container_step c c'"
| unpause: "containerUnpause E a c = (r, c') \<Longrightarrow> container_step c c'"
| removing: "\<not> Running (cState c) \<Longrightarrow> container_step c (c\<lparr>cState := snd (SetRemovalInProgress (cState c))\<rparr>)"
| dead: "\<not> Running (cState c) \<Longrightarrow> container_step c (c\<lparr>cState := SetDead (cState c)\<rparr>)"
| removed: "onState (SetRemovalError err) c = (r, c') \<Longrightarrow> container_step c c'"

abbreviation container_steps :: "Container \<Rightarrow> Container \<Rightarrow> bool" where
  "container_steps \<equiv> container_step\<^sup>*\<^sup>*"

lemma StateString_removal [simp]: "StateString (s\<lparr>waitRemove := w, chans := ch\<rparr>) = StateString s" "StateString (SetError err s) = StateString s"
  by (simp_all add: StateString_def SetError_def Let_def split: option.split)

lemma SetRemovalError_string: "SetRemovalError err s = (Ok (), s') \<Longrightarrow> StateString s' = StateString s"
  by (cases "closeChan (waitRemove (SetError err s)) (chans (SetError err s))")
    (auto simp: SetRemovalError_def Let_def makeChan_def)

lemma removed_core:
  assumes "core_inv K c" "onState (SetRemovalError err) c = (r, c')"
  shows "core_inv K c' \<and> (label_ok c \<longrightarrow> label_ok c')"
proof -
  have "state_inv (cState c)" using assms(1) by (simp add: core_inv_def)
  then obtain s' where s': "SetRemovalError err (cState c) = (Ok (), s')" "state_inv s'"
    "closedChans (chans (cState c)) \<subseteq> closedChans (chans s')" by (metis SetRemovalError_ok)
  have c': "c' = c\<lparr>cState := s'\<rparr>" using assms(2) s'(1) by (simp add: onState_def)
  have "StateString s' = StateString (cState c)" by (rule SetRemovalError_string [OF s'(1)])
  then show ?thesis using assms(1) s' c' by (auto simp: core_inv_def label_ok_def)
qed

lemma stopped_label: "\<not> Running s \<Longrightarrow> counter_label (StateString s) = ''stopped''"
  by (simp add: counter_label_def StateString_def)

lemma container_step_core: "container_step c c' \<Longrightarrow> core_inv K c \<Longrightarrow> core_inv K c'"
proof (induction rule: container_step.induct)
  case (event E e ei c r c')
  then show ?case using safeD [OF safe_processEvent] by blast
next
  case (pause E a c r c')
  then show ?case using safeD [OF safe_pause(1)] by blast
next
  case (unpause E a c r c')
  then show ?case using safeD [OF safe_pause(2)] by blast
next
  case (removed err c r c')
  then show ?case using removed_core by blast
qed (simp_all add: core_inv_def state_inv_def open_chan_def health_stop_def SetRemovalInProgress_def SetDead_def)

lemma container_step_inv: "container_step c c' \<Longrightarrow> container_inv c \<Longrightarrow> container_inv c'"
proof -
  assume step: "container_step c c'" and inv: "container_inv c"
  have "core_inv {} c'" using container_step_core [OF step] inv by (simp add: container_inv_def)
  moreover from step have "label_ok c'" using inv
  proof cases
    case (event E e ei r)
    then show ?thesis using label_ok_processEvent inv by blast
  next
    case (pause E a r)
    then show ?thesis using keepsD [OF keeps_pause(1)] inv unfolding container_inv_def by blast
  next
    case (unpause E a r)
    then show ?thesis using keepsD [OF keeps_pause(2)] inv unfolding container_inv_def by blast
  next
    case (removed err r)
    then show ?thesis using removed_core [of "{}"] inv unfolding container_inv_def by blast
  qed (simp_all add: container_inv_def label_ok_def stopped_label SetRemovalInProgress_def SetDead_def)
  ultimately show ?thesis by (simp add: container_inv_def)
qed

lemma container_steps_core: "container_steps c c' \<Longrightarrow> core_inv K c \<Longrightarrow> core_inv K c'"
  by (induction rule: rtranclp_induct) (auto intro: container_step_core)

lemma container_steps_inv: "container_steps c c' \<Longrightarrow> container_inv c \<Longrightarrow> container_inv c'"
  by (induction rule: rtranclp_induct) (auto intro: container_step_inv)

definition demo_container :: Container where
  "demo_container =
     \<lparr>cID = ''c1'', cState = SetRunning 42 True 5 (NewState \<lparr>nextChan = 0, closedChans = {}\<rparr>),
      cRestartManager = rm_New \<lparr>rpName = ''always'', MaximumRetryCount = 0\<rparr> 0, cRestartCount = 0,
      HasBeenManuallyStopped = False, HasBeenStartedBefore = True, cHealthTest = None, cAutoRemove = False,
      cExecs = Map.empty, dExecs = Map.empty, cLog = [], cRemoving = False, cCounter = [(''c1'', ''running'')]\<rparr>"

lemma demo_container_inv: "container_inv demo_container"
proof -
  have "state_inv (cState demo_container)"
    unfolding demo_container_def by (simp add: SetRunning_inv NewState_inv)
  moreover have "delay_ok (cRestartManager demo_container)" by (simp add: demo_container_def rm_New_def delay_ok_def)
  moreover have "label_ok demo_container"
    by (simp add: label_ok_def demo_container_def StateString_def SetRunning_def NewState_def makeChan_def counter_label_def Let_def)
  ultimately show ?thesis by (simp add: container_inv_def core_inv_def)
qed





section \<open>Where the documentation differs\<close>

text \<open>
  Waiting for a container not to run ends when the container is restarted by its policy, although
  it then counts as running.
\<close>

lemma restarting_wakes_waiters:
  assumes "state_inv s" "Running s" "SetRestarting es now s = (Ok (), s')"
  shows "wait_returns None s' (Wait WaitConditionNotRunning s) (status_of s') \<and> Running s'"
proof -
  obtain t where "SetRestarting es now s = (Ok (), t)" "waitStop s \<in> closedChans (chans t)" "Running t"
    using SetRestarting_ok [OF assms(1)] by metis
  then show ?thesis using assms(2,3) by (auto simp: Wait_def intro: wait_returns.stopped)
qed

text \<open>A late event makes a container paused that is not running.\<close>

lemma late_pause_event:
  assumes "\<not> Running (cState c)" "\<not> Paused (cState c)" "sHealth (cState c) = None" "CheckpointTo E = (\<lambda>_. None)"
  shows "\<exists>c'. processEvent E EventPaused ei c = (Ok (), c') \<and> Paused (cState c') \<and> \<not> Running (cState c')"
  using assms
  by (simp add: processEvent_def bindM_def getM_def setState_def updM_def setStateCounter_def updateHealthMonitor_def ret_def
      checkpoint_def LogContainerEvent_def)

text \<open>A health check that has not been set up reports \<open>unhealthy\<close> as its status and the empty string in the state.\<close>

lemma unset_health_prints_nothing:
  "Health_Status \<lparr>hStatus = '''', FailingStreak = 0, hStop = None\<rparr> = Unhealthy \<and>
   Health_String \<lparr>hStatus = '''', FailingStreak = 0, hStop = None\<rparr> = ''''"
  by (simp add: Health_Status_def Health_String_def Unhealthy_def Starting_def)

end
