(* ===== verification/Reference_Store.thy ===== *)
theory Reference_Store
  imports Go_Strings "HOL-Library.AList"
begin

text \<open>
  The store of image names (\<open>reference/store.go\<close>): a map from repositories to their tags and
  digests, and an index from image identifiers back to the names, kept in a file.  A Go map is an
  association list whose keys are distinct; a nil map is the empty list.  Marshalling, the files
  and the grammar of references are parameters.
\<close>

section \<open>References\<close>

text \<open>
  A normalised reference of package \<open>distribution/reference\<close>: a repository with a tag, a digest,
  both or neither.
\<close>

record Named =
  nDomain :: string
  nPath :: string
  nTag :: "string option"
  nDigest :: "string option"

definition isCanonical :: "Named \<Rightarrow> bool" where "isCanonical r \<longleftrightarrow> nDigest r \<noteq> None"
definition isTagged :: "Named \<Rightarrow> bool" where "isTagged r \<longleftrightarrow> nTag r \<noteq> None"

definition repo_Name :: "string \<Rightarrow> string \<Rightarrow> string" where
  "repo_Name dom1 path = (if dom1 = '''' then path else dom1 @ ''/'' @ path)"

definition suffix_of :: "Named \<Rightarrow> string" where
  "suffix_of r =
     (case nTag r of None \<Rightarrow> '''' | Some t \<Rightarrow> '':'' @ t) @ (case nDigest r of None \<Rightarrow> '''' | Some d \<Rightarrow> ''@'' @ d)"

definition Named_String :: "Named \<Rightarrow> string" where
  "Named_String r = repo_Name (nDomain r) (nPath r) @ suffix_of r"

definition familiarizeName :: "Named \<Rightarrow> string \<times> string" where
  "familiarizeName r =
     (if nDomain r = ''docker.io'' then
        ('''', (case Split (CHR ''/'') (nPath r) of [a, b] \<Rightarrow> if a = ''library'' then b else nPath r | _ \<Rightarrow> nPath r))
      else (nDomain r, nPath r))"

definition FamiliarName :: "Named \<Rightarrow> string" where
  "FamiliarName r = (case familiarizeName r of (d, p) \<Rightarrow> repo_Name d p)"

definition FamiliarString :: "Named \<Rightarrow> string" where
  "FamiliarString r = FamiliarName r @ suffix_of r"

definition TagNameOnly :: "Named \<Rightarrow> Named" where
  "TagNameOnly r = (if \<not> isTagged r \<and> \<not> isCanonical r then r\<lparr>nTag := Some ''latest''\<rparr> else r)"

definition TrimNamed :: "Named \<Rightarrow> Named" where
  "TrimNamed r = r\<lparr>nTag := None, nDigest := None\<rparr>"

section \<open>The store\<close>

type_synonym repository = "(string \<times> string) list"

record Association =
  asRef :: Named
  asID :: string

record 'w refEnv =
  validDigest :: "string \<Rightarrow> bool"
  ParseNormalizedNamed :: "string \<Rightarrow> go_error + Named"
  rsMarshal :: "(string \<times> repository) list \<Rightarrow> go_error + string"
  rsUnmarshal :: "string \<Rightarrow> go_error + (string \<times> repository) list"
  AtomicWriteFile :: "string \<Rightarrow> string \<Rightarrow> 'w \<Rightarrow> go_error option \<times> 'w"
  rsOpen :: "string \<Rightarrow> 'w \<Rightarrow> (go_error + string) \<times> 'w"
  rsAbs :: "string \<Rightarrow> go_error + string"
  rsIsNotExist :: "go_error \<Rightarrow> bool"

record 'w refStore =
  jsonPath :: string
  Repositories :: "(string \<times> repository) list"
  referencesByIDCache :: "(string \<times> (string \<times> Named) list) list"
  rsWorld :: 'w

definition rs_ErrDoesNotExist :: go_error where
  "rs_ErrDoesNotExist = Typed NotFound ''reference does not exist''"

definition rs_ErrDigestInvalidFormat :: go_error where
  "rs_ErrDigestInvalidFormat = Sentinel ''invalid digest format''"

definition WithDigest :: "'w refEnv \<Rightarrow> Named \<Rightarrow> string \<Rightarrow> go_error + Named" where
  "WithDigest R r d = (if validDigest R d then Inr (r\<lparr>nDigest := Some d\<rparr>) else Inl rs_ErrDigestInvalidFormat)"

definition favorDigest :: "'w refEnv \<Rightarrow> Named \<Rightarrow> go_error + Named" where
  "favorDigest R originalRef =
     (case nDigest originalRef of
        Some d \<Rightarrow> if isTagged originalRef then WithDigest R (TrimNamed originalRef) d else Inr originalRef
      | None \<Rightarrow> Inr originalRef)"

definition rs_save :: "'w refEnv \<Rightarrow> ('w refStore, unit) M" where
  "rs_save R st =
     (case rsMarshal R (Repositories st) of
        Inl e \<Rightarrow> (Err e, st)
      | Inr b \<Rightarrow>
          (case AtomicWriteFile R (jsonPath st) b (rsWorld st) of
             (None, w) \<Rightarrow> (Ok (), st\<lparr>rsWorld := w\<rparr>)
           | (Some e, w) \<Rightarrow> (Err e, st\<lparr>rsWorld := w\<rparr>)))"

text \<open>Taking a name out of the index, and the identifier with its last name.\<close>

definition uncache :: "string \<Rightarrow> string \<Rightarrow> 'w refStore \<Rightarrow> 'w refStore" where
  "uncache id1 refStr st =
     (case map_of (referencesByIDCache st) id1 of
        None \<Rightarrow> st
      | Some m \<Rightarrow>
          let m1 = AList.delete refStr m in
          st\<lparr>referencesByIDCache :=
               (if m1 = [] then AList.delete id1 (referencesByIDCache st)
                else AList.update id1 m1 (referencesByIDCache st))\<rparr>)"

definition encache :: "string \<Rightarrow> string \<Rightarrow> Named \<Rightarrow> 'w refStore \<Rightarrow> 'w refStore" where
  "encache id1 refStr ref st =
     (let m = (case map_of (referencesByIDCache st) id1 of None \<Rightarrow> [] | Some m \<Rightarrow> m)
      in st\<lparr>referencesByIDCache := AList.update id1 (AList.update refStr ref m) (referencesByIDCache st)\<rparr>)"

definition repositoryOf :: "string \<Rightarrow> 'w refStore \<Rightarrow> repository" where
  "repositoryOf refName st = (case map_of (Repositories st) refName of None \<Rightarrow> [] | Some r \<Rightarrow> r)"

definition putRef :: "string \<Rightarrow> string \<Rightarrow> Named \<Rightarrow> string \<Rightarrow> 'w refStore \<Rightarrow> 'w refStore" where
  "putRef refName refStr ref id1 st =
     encache id1 refStr ref
       (st\<lparr>Repositories := AList.update refName (AList.update refStr id1 (repositoryOf refName st)) (Repositories st)\<rparr>)"

definition addReference :: "'w refEnv \<Rightarrow> Named \<Rightarrow> string \<Rightarrow> bool \<Rightarrow> ('w refStore, unit) M" where
  "addReference R ref0 id1 force =
     (case favorDigest R ref0 of
        Inl e \<Rightarrow> raise e
      | Inr ref \<Rightarrow>
          let refName = FamiliarName ref; refStr = FamiliarString ref in
          if refName = ''sha256'' then
            raise (WithStack (Typed InvalidParameter ''refusing to create an ambiguous tag using digest algorithm as name''))
          else
            bindM getM (\<lambda>st.
            case map_of (repositoryOf refName st) refStr of
              None \<Rightarrow> bindM (updM (putRef refName refStr ref id1)) (\<lambda>_. rs_save R)
            | Some oldID \<Rightarrow>
                (case nDigest ref of
                   Some d \<Rightarrow> raise (WithStack (Typed Conflict (''Cannot overwrite digest '' @ d)))
                 | None \<Rightarrow>
                     if \<not> force then
                       raise (WithStack (Typed Conflict (''Conflict: Tag '' @ refStr @ '' is already set to image '' @ oldID
                         @ '', if you want to replace it, please use the force option'')))
                     else
                       bindM (updM (\<lambda>st. putRef refName refStr ref id1 (uncache oldID refStr st))) (\<lambda>_. rs_save R))))"

definition rs_AddTag :: "'w refEnv \<Rightarrow> Named \<Rightarrow> string \<Rightarrow> bool \<Rightarrow> ('w refStore, unit) M" where
  "rs_AddTag R ref id1 force =
     (if isCanonical ref then raise (WithStack (Typed InvalidParameter ''refusing to create a tag with a digest reference''))
      else addReference R (TagNameOnly ref) id1 force)"

definition rs_AddDigest :: "'w refEnv \<Rightarrow> Named \<Rightarrow> string \<Rightarrow> bool \<Rightarrow> ('w refStore, unit) M" where
  "rs_AddDigest R ref id1 force = addReference R ref id1 force"

text \<open>\<open>Delete\<close> in memory; the answer says whether there was something to delete.\<close>

definition dropRef :: "string \<Rightarrow> string \<Rightarrow> string \<Rightarrow> 'w refStore \<Rightarrow> 'w refStore" where
  "dropRef refName refStr id1 st =
     (let repo = AList.delete refStr (repositoryOf refName st) in
      uncache id1 refStr
        (st\<lparr>Repositories := (if repo = [] then AList.delete refName (Repositories st)
                             else AList.update refName repo (Repositories st))\<rparr>))"

text \<open>
  \<open>Delete\<close> returns true and the error of the save together; \<open>Ok True\<close> is a deletion that was saved
  and \<open>Err\<close> either a deletion that was not, or none.
\<close>

definition rs_Delete :: "'w refEnv \<Rightarrow> Named \<Rightarrow> ('w refStore, bool) M" where
  "rs_Delete R ref0 =
     (case favorDigest R ref0 of
        Inl e \<Rightarrow> raise e
      | Inr ref1 \<Rightarrow>
          let ref = TagNameOnly ref1; refName = FamiliarName ref; refStr = FamiliarString ref in
          bindM getM (\<lambda>st.
          case map_of (Repositories st) refName of
            None \<Rightarrow> raise rs_ErrDoesNotExist
          | Some repo \<Rightarrow>
              (case map_of repo refStr of
                 None \<Rightarrow> raise rs_ErrDoesNotExist
               | Some id1 \<Rightarrow> bindM (updM (dropRef refName refStr id1)) (\<lambda>_. bindM (rs_save R) (\<lambda>_. ret True)))))"

definition rs_Get :: "'w refEnv \<Rightarrow> Named \<Rightarrow> 'w refStore \<Rightarrow> string outcome" where
  "rs_Get R ref0 st =
     (let norm = (case nDigest ref0 of
                    Some d \<Rightarrow> if isTagged ref0 then WithDigest R (TrimNamed ref0) d else Inr ref0
                  | None \<Rightarrow> Inr (TagNameOnly ref0))
      in case norm of
           Inl e \<Rightarrow> Err e
         | Inr ref \<Rightarrow>
             (case map_of (Repositories st) (FamiliarName ref) of
                None \<Rightarrow> Err rs_ErrDoesNotExist
              | Some repo \<Rightarrow>
                  (case map_of repo (FamiliarString ref) of None \<Rightarrow> Err rs_ErrDoesNotExist | Some id1 \<Rightarrow> Ok id1)))"

definition rs_References :: "string \<Rightarrow> 'w refStore \<Rightarrow> Named list" where
  "rs_References id1 st =
     (case map_of (referencesByIDCache st) id1 of None \<Rightarrow> [] | Some m \<Rightarrow> sort_key Named_String (map snd m))"

fun associations :: "'w refEnv \<Rightarrow> repository \<Rightarrow> Association list option" where
  "associations R [] = Some []"
| "associations R ((refStr, refID) # xs) =
     (case ParseNormalizedNamed R refStr of
        Inl e \<Rightarrow> None
      | Inr ref \<Rightarrow> map_option (Cons \<lparr>asRef = ref, asID = refID\<rparr>) (associations R xs))"

definition rs_ReferencesByName :: "'w refEnv \<Rightarrow> Named \<Rightarrow> 'w refStore \<Rightarrow> Association list" where
  "rs_ReferencesByName R ref st =
     (case map_of (Repositories st) (FamiliarName ref) of
        None \<Rightarrow> []
      | Some repo \<Rightarrow>
          (case associations R repo of None \<Rightarrow> [] | Some as1 \<Rightarrow> sort_key (\<lambda>a. Named_String (asRef a)) as1))"

section \<open>Loading\<close>

fun reload_repository :: "'w refEnv \<Rightarrow> repository \<Rightarrow> 'w refStore \<Rightarrow> 'w refStore" where
  "reload_repository R [] st = st"
| "reload_repository R ((refStr, refID) # xs) st =
     reload_repository R xs
       (case ParseNormalizedNamed R refStr of Inl e \<Rightarrow> st | Inr ref \<Rightarrow> encache refID refStr ref st)"

fun reload_repositories :: "'w refEnv \<Rightarrow> (string \<times> repository) list \<Rightarrow> 'w refStore \<Rightarrow> 'w refStore" where
  "reload_repositories R [] st = st"
| "reload_repositories R ((n, repo) # xs) st = reload_repositories R xs (reload_repository R repo st)"

definition rs_reload :: "'w refEnv \<Rightarrow> ('w refStore, unit) M" where
  "rs_reload R st =
     (case rsOpen R (jsonPath st) (rsWorld st) of
        (Inl e, w) \<Rightarrow> (Err e, st\<lparr>rsWorld := w\<rparr>)
      | (Inr b, w) \<Rightarrow>
          (case rsUnmarshal R b of
             Inl e \<Rightarrow> (Err e, st\<lparr>rsWorld := w\<rparr>)
           | Inr repos \<Rightarrow> (Ok (), reload_repositories R repos (st\<lparr>rsWorld := w, Repositories := repos\<rparr>))))"

definition NewReferenceStore :: "'w refEnv \<Rightarrow> string \<Rightarrow> 'w \<Rightarrow> 'w refStore outcome" where
  "NewReferenceStore R path w =
     (case rsAbs R path of
        Inl e \<Rightarrow> Err e
      | Inr abspath \<Rightarrow>
          let st = \<lparr>jsonPath = abspath, Repositories = [], referencesByIDCache = [], rsWorld = w\<rparr> in
          (case rs_reload R st of
             (Ok _, st1) \<Rightarrow> Ok st1
           | (Err e, st1) \<Rightarrow>
               if rsIsNotExist R e then
                 (case rs_save R st1 of (Ok _, st2) \<Rightarrow> Ok st2 | (Err e, st2) \<Rightarrow> Err e | (Panic m, st2) \<Rightarrow> Panic m)
               else Err e
           | (Panic m, st1) \<Rightarrow> Panic m))"

section \<open>The maps behind the lists\<close>

definition stored :: "'w refStore \<Rightarrow> string \<Rightarrow> string \<Rightarrow> string option" where
  "stored st n s = map_of (repositoryOf n st) s"

definition cached :: "'w refStore \<Rightarrow> string \<Rightarrow> string \<Rightarrow> Named option" where
  "cached st i s = (case map_of (referencesByIDCache st) i of None \<Rightarrow> None | Some m \<Rightarrow> map_of m s)"

definition cache_ok :: "'w refStore \<Rightarrow> bool" where
  "cache_ok st \<longleftrightarrow> (\<forall>i m. map_of (referencesByIDCache st) i = Some m \<longrightarrow> distinct (map fst m))"

lemma delete_Nil_map_of: "AList.delete k m = [] \<Longrightarrow> k' \<noteq> k \<Longrightarrow> map_of m k' = None"
  using delete_conv' [of k m] by (metis fun_upd_apply map_of.simps(1))

lemma uncache_Repositories [simp]: "Repositories (uncache i s st) = Repositories st"
  by (simp add: uncache_def Let_def split: option.split)

lemma encache_Repositories [simp]: "Repositories (encache i s r st) = Repositories st"
  by (simp add: encache_def Let_def)

lemma stored_cache [simp]: "stored (uncache i s st) = stored st" "stored (encache i s r st) = stored st"
  by (simp_all add: stored_def repositoryOf_def fun_eq_iff)

lemma cached_uncache: "cached (uncache i s st) i' s' = (if i' = i \<and> s' = s then None else cached st i' s')"
proof (cases "map_of (referencesByIDCache st) i")
  case None
  then show ?thesis by (simp add: uncache_def cached_def)
next
  case (Some m)
  show ?thesis
  proof (cases "AList.delete s m = []")
    case True
    then show ?thesis using Some delete_Nil_map_of [OF True]
      by (auto simp: uncache_def cached_def Let_def delete_conv' split: option.split)
  next
    case False
    then show ?thesis using Some
      by (auto simp: uncache_def cached_def Let_def delete_conv' update_conv' split: option.split)
  qed
qed

lemma cached_encache: "cached (encache i s r st) i' s' = (if i' = i \<and> s' = s then Some r else cached st i' s')"
  by (cases "map_of (referencesByIDCache st) i") (auto simp: encache_def cached_def Let_def update_conv' split: option.split)

lemma cached_repos [simp]: "cached (st\<lparr>Repositories := x\<rparr>) = cached st" "cached (st\<lparr>rsWorld := w\<rparr>) = cached st"
  by (simp_all add: cached_def fun_eq_iff)

lemma cache_ok_repos [simp]: "cache_ok (st\<lparr>Repositories := x\<rparr>) = cache_ok st" "cache_ok (st\<lparr>rsWorld := w\<rparr>) = cache_ok st"
  by (simp_all add: cache_ok_def)

lemma stored_world [simp]: "stored (st\<lparr>rsWorld := w\<rparr>) = stored st"
  by (simp add: stored_def repositoryOf_def fun_eq_iff)

lemma cache_ok_uncache: "cache_ok st \<Longrightarrow> cache_ok (uncache i s st)"
  by (cases "map_of (referencesByIDCache st) i")
    (auto simp: uncache_def cache_ok_def Let_def delete_conv' update_conv' distinct_delete split: if_splits)

lemma cache_ok_encache: "cache_ok st \<Longrightarrow> cache_ok (encache i s r st)"
  by (cases "map_of (referencesByIDCache st) i")
    (auto simp: encache_def cache_ok_def Let_def update_conv' distinct_update split: if_splits)

lemma stored_update:
  "stored (st\<lparr>Repositories := AList.update n (AList.update s i (repositoryOf n st)) (Repositories st)\<rparr>) n' s' =
     (if n' = n \<and> s' = s then Some i else stored st n' s')"
  by (auto simp: stored_def repositoryOf_def update_conv')

lemma stored_drop: "stored (dropRef n s i st) n' s' = (if n' = n \<and> s' = s then None else stored st n' s')"
proof (cases "AList.delete s (repositoryOf n st) = []")
  case True
  have "map_of (repositoryOf n st) s' = None" if "s' \<noteq> s" using delete_Nil_map_of [OF True that] .
  then show ?thesis using True
    by (auto simp: dropRef_def Let_def) (auto simp: stored_def repositoryOf_def delete_conv' split: option.splits)
next
  case False
  then show ?thesis
    by (auto simp: dropRef_def Let_def) (auto simp: stored_def repositoryOf_def delete_conv' update_conv' split: option.splits)
qed

section \<open>Names are determined by their text\<close>

definition wf_ref :: "Named \<Rightarrow> bool" where
  "wf_ref r \<longleftrightarrow> CHR ''@'' \<notin> set (FamiliarName r) \<and>
     (\<forall>t. nTag r = Some t \<longrightarrow> CHR '':'' \<notin> set t \<and> CHR ''@'' \<notin> set t) \<and> (\<forall>d. nDigest r = Some d \<longrightarrow> CHR ''@'' \<notin> set d)"

definition single :: "Named \<Rightarrow> bool" where
  "single r \<longleftrightarrow> isTagged r \<noteq> isCanonical r"

lemma split_first_unique:
  fixes c :: char
  assumes "c \<notin> set a" "c \<notin> set b" "a @ c # t = b @ c # u"
  shows "a = b \<and> t = u"
proof -
  have "(a, Some t) = SplitN2 c (a @ c # t)" using assms(1) by simp
  also have "\<dots> = SplitN2 c (b @ c # u)" by (simp only: assms(3))
  also have "\<dots> = (b, Some u)" using assms(2) by simp
  finally show ?thesis by simp
qed

lemma split_last_unique:
  fixes c :: char
  assumes "c \<notin> set t" "c \<notin> set u" "a @ c # t = b @ c # u"
  shows "a = b \<and> t = u"
proof -
  have "rev (a @ c # t) = rev (b @ c # u)" using assms(3) by simp
  then have "rev t @ c # rev a = rev u @ c # rev b" by simp
  then have "rev t = rev u \<and> rev a = rev b" using assms(1,2) by (intro split_first_unique) simp_all
  then show ?thesis by simp
qed

lemma single_cases:
  assumes "single r" "wf_ref r"
  obtains t where "FamiliarString r = FamiliarName r @ CHR '':'' # t" "CHR '':'' \<notin> set t" "CHR ''@'' \<notin> set (FamiliarString r)"
    | d where "FamiliarString r = FamiliarName r @ CHR ''@'' # d"
  using assms by (cases "nTag r"; cases "nDigest r")
    (auto simp: single_def isTagged_def isCanonical_def wf_ref_def FamiliarString_def suffix_of_def)

lemma FamiliarName_unique:
  assumes "single r" "wf_ref r" "single r'" "wf_ref r'" "FamiliarString r = FamiliarString r'"
  shows "FamiliarName r = FamiliarName r'"
proof -
  have no_at: "CHR ''@'' \<notin> set (FamiliarName r)" "CHR ''@'' \<notin> set (FamiliarName r')"
    using assms(2,4) by (simp_all add: wf_ref_def)
  show ?thesis
  proof (cases rule: single_cases [OF assms(1,2)])
    case (1 t)
    show ?thesis
    proof (cases rule: single_cases [OF assms(3,4)])
      case (1 u)
      then show ?thesis using split_last_unique [of "CHR '':''" t u] \<open>FamiliarString r = FamiliarName r @ CHR '':'' # t\<close>
          \<open>CHR '':'' \<notin> set t\<close> assms(5) by metis
    next
      case (2 d)
      then show ?thesis using 1(3) assms(5) by (metis in_set_conv_decomp)
    qed
  next
    case (2 d)
    show ?thesis
    proof (cases rule: single_cases [OF assms(3,4)])
      case (1 u)
      then show ?thesis using 2 assms(5) by (metis in_set_conv_decomp)
    next
      case (2 e)
      then show ?thesis using split_first_unique [OF no_at] \<open>FamiliarString r = FamiliarName r @ CHR ''@'' # d\<close> assms(5) by metis
    qed
  qed
qed

section \<open>The index is the inverse of the repositories\<close>

definition rs_inv :: "'w refStore \<Rightarrow> bool" where
  "rs_inv st \<longleftrightarrow> cache_ok st \<and>
     (\<forall>i s. cached st i s \<noteq> None \<longleftrightarrow> (\<exists>n. stored st n s = Some i)) \<and>
     (\<forall>n s i. stored st n s = Some i \<longrightarrow> (\<exists>r. single r \<and> wf_ref r \<and> FamiliarString r = s \<and> FamiliarName r = n)) \<and>
     (\<forall>i s r. cached st i s = Some r \<longrightarrow> FamiliarString r = s)"

lemma rs_inv_unique:
  assumes "rs_inv st" "single r" "wf_ref r" "stored st n (FamiliarString r) = Some i"
  shows "n = FamiliarName r"
proof -
  obtain r' where "single r'" "wf_ref r'" "FamiliarString r' = FamiliarString r" "FamiliarName r' = n"
    using assms(1,4) unfolding rs_inv_def by blast
  then show ?thesis using FamiliarName_unique assms(2,3) by metis
qed

lemma rs_inv_world [simp]: "rs_inv (st\<lparr>rsWorld := w\<rparr>) = rs_inv st"
  by (simp add: rs_inv_def)

text \<open>Once a name is out of the index it can be stored for another image.\<close>

lemma put_inv:
  assumes inv: "rs_inv st" and r: "single r" "wf_ref r" and s: "s = FamiliarString r" and n: "n = FamiliarName r"
    and st1: "stored st1 = stored st" "cache_ok st1" "\<And>i. cached st1 i s = None" "\<And>i s'. s' \<noteq> s \<Longrightarrow> cached st1 i s' = cached st i s'"
  shows "rs_inv (putRef n s r i st1)"
proof -
  let ?st = "putRef n s r i st1"
  have stored: "stored ?st n' s' = (if n' = n \<and> s' = s then Some i else stored st n' s')" for n' s'
    by (simp add: putRef_def stored_update st1(1))
  have cached: "cached ?st i' s' = (if s' = s then (if i' = i then Some r else None) else cached st i' s')" for i' s'
    by (simp add: putRef_def cached_encache st1(3,4))
  have only: "stored st n' s = Some j \<Longrightarrow> n' = n" for n' j using rs_inv_unique [OF inv r] s n by simp
  have "cached ?st j s' \<noteq> None \<longleftrightarrow> (\<exists>n'. stored ?st n' s' = Some j)" for j s'
  proof (cases "s' = s")
    case True
    then show ?thesis using only unfolding cached stored by (auto split: if_splits)
  next
    case False
    then have "cached ?st j s' = cached st j s'" "\<And>n'. stored ?st n' s' = stored st n' s'" unfolding cached stored by simp_all
    then show ?thesis using inv unfolding rs_inv_def by metis
  qed
  moreover have "\<exists>r. single r \<and> wf_ref r \<and> FamiliarString r = s' \<and> FamiliarName r = n'" if "stored ?st n' s' = Some j" for n' s' j
  proof (cases "n' = n \<and> s' = s")
    case True
    then show ?thesis using r s n by blast
  next
    case False
    then have "stored st n' s' = Some j" using that unfolding stored by (simp split: if_splits)
    then show ?thesis using inv unfolding rs_inv_def by blast
  qed
  moreover have "FamiliarString x = s'" if "cached ?st j s' = Some x" for j s' x
    using that inv s unfolding cached rs_inv_def by (auto split: if_splits)
  moreover have "cache_ok ?st" by (simp add: putRef_def cache_ok_encache st1(2))
  ultimately show ?thesis unfolding rs_inv_def by blast
qed

lemma drop_inv:
  assumes inv: "rs_inv st" and r: "single r" "wf_ref r" and s: "s = FamiliarString r" and n: "n = FamiliarName r"
    and old: "stored st n s = Some i"
  shows "rs_inv (dropRef n s i st)"
proof -
  let ?st = "dropRef n s i st"
  have cached: "cached ?st i' s' = (if i' = i \<and> s' = s then None else cached st i' s')" for i' s'
    by (simp add: dropRef_def cached_uncache Let_def)
  have only: "stored st n' s = Some j \<Longrightarrow> n' = n" for n' j using rs_inv_unique [OF inv r] s n by simp
  have "cached ?st j s' \<noteq> None \<longleftrightarrow> (\<exists>n'. stored ?st n' s' = Some j)" for j s'
  proof (cases "s' = s")
    case True
    have "cached st j s \<noteq> None \<longleftrightarrow> (\<exists>n'. stored st n' s = Some j)" using inv unfolding rs_inv_def by blast
    then have "cached st j s \<noteq> None \<longleftrightarrow> j = i" using only old by (metis option.inject)
    moreover have "\<nexists>n'. stored ?st n' s = Some j" using only unfolding stored_drop by (auto split: if_splits)
    ultimately show ?thesis using True unfolding cached by auto
  next
    case False
    then have "cached ?st j s' = cached st j s'" "\<And>n'. stored ?st n' s' = stored st n' s'" unfolding cached stored_drop by simp_all
    then show ?thesis using inv unfolding rs_inv_def by metis
  qed
  moreover have "\<exists>r. single r \<and> wf_ref r \<and> FamiliarString r = s' \<and> FamiliarName r = n'" if "stored ?st n' s' = Some j" for n' s' j
  proof -
    have "stored st n' s' = Some j" using that unfolding stored_drop by (simp split: if_splits)
    then show ?thesis using inv unfolding rs_inv_def by blast
  qed
  moreover have "FamiliarString x = s'" if "cached ?st j s' = Some x" for j s' x
    using that inv unfolding cached rs_inv_def by (auto split: if_splits)
  moreover have "cache_ok ?st" using inv by (simp add: dropRef_def cache_ok_uncache Let_def rs_inv_def)
  ultimately show ?thesis unfolding rs_inv_def by blast
qed

definition repos_ok :: "'w refStore \<Rightarrow> bool" where
  "repos_ok st \<longleftrightarrow> distinct (map fst (Repositories st)) \<and> (\<forall>(n, repo) \<in> set (Repositories st). distinct (map fst repo))"

lemma repositoryOf_distinct: "repos_ok st \<Longrightarrow> distinct (map fst (repositoryOf n st))"
  by (auto simp: repos_ok_def repositoryOf_def split: option.splits dest!: map_of_SomeD)

lemma set_AList_update: "set (AList.update k v al) \<subseteq> insert (k, v) (set al)"
  by (induction al) auto

lemma set_AList_delete: "set (AList.delete k al) \<subseteq> set al"
  by (auto simp: AList.delete_eq)

lemma repos_ok_update:
  assumes "repos_ok st" "distinct (map fst repo)"
  shows "repos_ok (st\<lparr>Repositories := AList.update n repo (Repositories st)\<rparr>)"
  using assms set_AList_update [of n repo "Repositories st"] by (auto simp: repos_ok_def distinct_update)

lemma repos_ok_delete: "repos_ok st \<Longrightarrow> repos_ok (st\<lparr>Repositories := AList.delete n (Repositories st)\<rparr>)"
  using set_AList_delete [of n "Repositories st"] by (auto simp: repos_ok_def distinct_delete)

lemma repos_ok_same [simp]: "repos_ok (uncache i s st) = repos_ok st" "repos_ok (encache i s r st) = repos_ok st"
  "repos_ok (st\<lparr>rsWorld := w\<rparr>) = repos_ok st"
  by (simp_all add: repos_ok_def)

lemma repos_ok_put: "repos_ok st \<Longrightarrow> repos_ok (putRef n s r i st)"
  by (simp add: putRef_def repos_ok_update distinct_update repositoryOf_distinct)

lemma repos_ok_drop: "repos_ok st \<Longrightarrow> repos_ok (dropRef n s i st)"
  by (simp add: dropRef_def Let_def repos_ok_update repos_ok_delete distinct_delete repositoryOf_distinct)

section \<open>Operations\<close>

lemma rs_save_world: "rs_save R st = (r, st') \<Longrightarrow> \<exists>w. st' = st\<lparr>rsWorld := w\<rparr>"
proof -
  assume s: "rs_save R st = (r, st')"
  have "st = st\<lparr>rsWorld := rsWorld st\<rparr>" by simp
  then show ?thesis using s unfolding rs_save_def
    by (auto split: sum.splits prod.splits option.splits) (metis \<open>st = st\<lparr>rsWorld := rsWorld st\<rparr>\<close>)
qed

definition normRef :: "'w refEnv \<Rightarrow> Named \<Rightarrow> go_error + Named" where
  "normRef R r = map_sum id TagNameOnly (favorDigest R r)"

lemma FamiliarName_update [simp]: "FamiliarName (r\<lparr>nTag := t\<rparr>) = FamiliarName r" "FamiliarName (r\<lparr>nDigest := d\<rparr>) = FamiliarName r"
  "FamiliarName (r\<lparr>nTag := t, nDigest := d\<rparr>) = FamiliarName r"
  by (simp_all add: FamiliarName_def familiarizeName_def split: list.split)

lemma favorDigest_name: "favorDigest R r = Inr x \<Longrightarrow> FamiliarName x = FamiliarName r \<and> (wf_ref r \<longrightarrow> wf_ref x)"
  by (auto simp: favorDigest_def WithDigest_def TrimNamed_def wf_ref_def split: option.splits if_splits)

lemma favorDigest_single: "favorDigest R r = Inr x \<Longrightarrow> isTagged r \<or> isCanonical r \<Longrightarrow> single x"
  by (auto simp: favorDigest_def WithDigest_def TrimNamed_def single_def isTagged_def isCanonical_def split: option.splits if_splits)

lemma TagNameOnly_wf: "wf_ref r \<Longrightarrow> wf_ref (TagNameOnly r)" "isTagged (TagNameOnly r) \<or> isCanonical (TagNameOnly r)"
  by (auto simp: TagNameOnly_def wf_ref_def isTagged_def isCanonical_def)

text \<open>What adding a reference does: nothing but an error, or the update of both maps.\<close>

lemma addReference_cases:
  assumes "addReference R ref0 i force st = (res, st')"
  obtains (refused) e where "res = Err e" "st' = st"
    | (added) x st1 w where "favorDigest R ref0 = Inr x" "st' = (putRef (FamiliarName x) (FamiliarString x) x i st1)\<lparr>rsWorld := w\<rparr>"
      "st1 = st \<and> stored st (FamiliarName x) (FamiliarString x) = None \<or>
       (\<exists>old. st1 = uncache old (FamiliarString x) st \<and> stored st (FamiliarName x) (FamiliarString x) = Some old)"
proof (cases "favorDigest R ref0")
  case (Inl e)
  then have "res = Err e" "st' = st" using assms by (simp_all add: addReference_def raise_def)
  then show ?thesis by (rule refused)
next
  case (Inr x)
  let ?n = "FamiliarName x" and ?s = "FamiliarString x"
  show ?thesis
  proof (cases "?n = ''sha256''")
    case True
    then have "\<exists>e. res = Err e" "st' = st" using assms Inr by (auto simp: addReference_def raise_def Let_def)
    then show ?thesis using refused by blast
  next
    case ok: False
    show ?thesis
    proof (cases "stored st ?n ?s")
      case None
      have "rs_save R (putRef ?n ?s x i st) = (res, st')"
        using assms Inr ok None by (simp add: addReference_def bindM_def getM_def updM_def stored_def Let_def)
      then show ?thesis using rs_save_world added [of x] Inr None by metis
    next
      case (Some old)
      have run: "addReference R ref0 i force st =
          (if nDigest x \<noteq> None \<or> \<not> force then (Err (case nDigest x of
               Some d \<Rightarrow> WithStack (Typed Conflict (''Cannot overwrite digest '' @ d))
             | None \<Rightarrow> WithStack (Typed Conflict (''Conflict: Tag '' @ ?s @ '' is already set to image '' @ old
                         @ '', if you want to replace it, please use the force option''))), st)
           else rs_save R (putRef ?n ?s x i (uncache old ?s st)))"
        using Inr ok Some
        by (auto simp: addReference_def bindM_def getM_def updM_def raise_def stored_def Let_def split: option.splits)
      show ?thesis
      proof (cases "nDigest x \<noteq> None \<or> \<not> force")
        case True
        then have "\<exists>e. res = Err e" "st' = st" using run assms by auto
        then show ?thesis using refused by blast
      next
        case False
        then have "rs_save R (putRef ?n ?s x i (uncache old ?s st)) = (res, st')" using run assms by simp
        then show ?thesis using rs_save_world added [of x] Inr Some by metis
      qed
    qed
  qed
qed

lemma uncached_ready:
  assumes inv: "rs_inv st" and r: "single r" "wf_ref r"
    and st1: "st1 = st \<and> stored st (FamiliarName r) (FamiliarString r) = None \<or>
      (\<exists>old. st1 = uncache old (FamiliarString r) st \<and> stored st (FamiliarName r) (FamiliarString r) = Some old)"
  shows "stored st1 = stored st" "cache_ok st1" "cached st1 i (FamiliarString r) = None"
    "s' \<noteq> FamiliarString r \<Longrightarrow> cached st1 i s' = cached st i s'"
proof -
  let ?s = "FamiliarString r" and ?n = "FamiliarName r"
  have only: "stored st n' ?s = Some j \<Longrightarrow> n' = ?n" for n' j by (rule rs_inv_unique [OF inv r])
  have c: "cached st j ?s \<noteq> None \<longleftrightarrow> (\<exists>n'. stored st n' ?s = Some j)" for j using inv unfolding rs_inv_def by blast
  have ok: "cache_ok st" using inv by (simp add: rs_inv_def)
  show "stored st1 = stored st" using st1 by auto
  show "cache_ok st1" using st1 ok cache_ok_uncache by auto
  show "cached st1 i ?s = None" using st1 only c by (metis cached_uncache option.distinct(1) option.inject)
  show "cached st1 i s' = cached st i s'" if "s' \<noteq> ?s" using st1 that cached_uncache by metis
qed

lemma addReference_inv:
  assumes "rs_inv st" "wf_ref ref0" "isTagged ref0 \<or> isCanonical ref0" "addReference R ref0 i force st = (res, st')"
  shows "rs_inv st' \<and> (repos_ok st \<longrightarrow> repos_ok st')"
  using assms(4)
proof (cases rule: addReference_cases)
  case (refused e)
  then show ?thesis using assms(1) by simp
next
  case (added x st1 w)
  have x: "single x" "wf_ref x" using favorDigest_single [OF added(1) assms(3)] favorDigest_name [OF added(1)] assms(2) by auto
  have "rs_inv (putRef (FamiliarName x) (FamiliarString x) x i st1)"
    by (rule put_inv [OF assms(1) x refl refl]) (use uncached_ready [OF assms(1) x added(3)] in auto)
  moreover have "repos_ok st \<longrightarrow> repos_ok st1" using added(3) by auto
  ultimately show ?thesis using added(2) repos_ok_put [of st1] by simp
qed

lemma addReference_get:
  assumes "addReference R ref0 i force st = (Ok (), st')" "favorDigest R ref0 = Inr x"
  shows "stored st' n s = (if n = FamiliarName x \<and> s = FamiliarString x then Some i else stored st n s)"
  using assms(1)
proof (cases rule: addReference_cases)
  case (added y st1 w)
  have "y = x" using added(1) assms(2) by simp
  moreover have "stored st1 = stored st" using added(3) by auto
  ultimately show ?thesis using added(2) by (simp add: putRef_def stored_update)
qed simp

lemma Delete_cases:
  assumes "rs_Delete R ref0 st = (res, st')"
  obtains (refused) e where "res = Err e" "st' = st"
    | (deleted) x i w where "normRef R ref0 = Inr x" "stored st (FamiliarName x) (FamiliarString x) = Some i"
      "st' = (dropRef (FamiliarName x) (FamiliarString x) i st)\<lparr>rsWorld := w\<rparr>"
proof (cases "favorDigest R ref0")
  case (Inl e)
  then have "res = Err e" "st' = st" using assms by (simp_all add: rs_Delete_def raise_def)
  then show ?thesis by (rule refused)
next
  case (Inr y)
  let ?x = "TagNameOnly y"
  let ?n = "FamiliarName ?x" and ?s = "FamiliarString ?x"
  show ?thesis
  proof (cases "stored st ?n ?s")
    case None
    then have "\<exists>e. res = Err e" "st' = st"
      using assms Inr by (auto simp: rs_Delete_def raise_def bindM_def getM_def Let_def stored_def repositoryOf_def split: option.splits)
    then show ?thesis using refused by blast
  next
    case (Some i)
    obtain r1 st1 where sv: "rs_save R (dropRef ?n ?s i st) = (r1, st1)" by fastforce
    have "snd (rs_Delete R ref0 st) = st1"
      using Inr Some sv by (cases r1)
        (auto simp: rs_Delete_def raise_def bindM_def getM_def updM_def ret_def Let_def stored_def repositoryOf_def split: option.splits)
    then have "st' = st1" using assms by simp
    then show ?thesis using rs_save_world [OF sv] deleted [of ?x i] Inr Some by (auto simp: normRef_def)
  qed
qed

lemma normRef_wf: "normRef R r = Inr x \<Longrightarrow> wf_ref r \<Longrightarrow> single x \<and> wf_ref x"
proof -
  assume n: "normRef R r = Inr x" and w: "wf_ref r"
  then obtain y where y: "favorDigest R r = Inr y" "x = TagNameOnly y" by (cases "favorDigest R r") (auto simp: normRef_def)
  have "wf_ref y" using favorDigest_name [OF y(1)] w by simp
  moreover have "single (TagNameOnly y)"
  proof (cases "isTagged y \<or> isCanonical y")
    case True
    then have "single y" using y(1) by (auto simp: favorDigest_def WithDigest_def TrimNamed_def single_def isTagged_def isCanonical_def
          split: option.splits if_splits)
    then show ?thesis using True by (auto simp: TagNameOnly_def)
  next
    case False
    then show ?thesis by (simp add: TagNameOnly_def single_def isTagged_def isCanonical_def)
  qed
  ultimately show ?thesis using TagNameOnly_wf y(2) by simp
qed

lemma Delete_inv: "rs_inv st \<Longrightarrow> wf_ref ref0 \<Longrightarrow> rs_Delete R ref0 st = (res, st') \<Longrightarrow> rs_inv st' \<and> (repos_ok st \<longrightarrow> repos_ok st')"
proof -
  assume inv: "rs_inv st" and w: "wf_ref ref0" and d: "rs_Delete R ref0 st = (res, st')"
  from d show ?thesis
  proof (cases rule: Delete_cases)
    case (refused e)
    then show ?thesis using inv by simp
  next
    case (deleted x i w)
    then show ?thesis using drop_inv [OF inv _ _ refl refl, of x i] normRef_wf [OF deleted(1)] \<open>wf_ref ref0\<close> repos_ok_drop [of st] by simp
  qed
qed

lemma Get_stored:
  "rs_Get R r st = (case normRef R r of
       Inl e \<Rightarrow> Err e
     | Inr x \<Rightarrow> (case stored st (FamiliarName x) (FamiliarString x) of None \<Rightarrow> Err rs_ErrDoesNotExist | Some i \<Rightarrow> Ok i))"
proof -
  have "(case nDigest r of Some d \<Rightarrow> if isTagged r then WithDigest R (TrimNamed r) d else Inr r | None \<Rightarrow> Inr (TagNameOnly r))
      = normRef R r"
    by (auto simp: normRef_def favorDigest_def WithDigest_def TagNameOnly_def isCanonical_def split: option.splits)
  then show ?thesis
    by (auto simp: rs_Get_def Let_def stored_def repositoryOf_def split: sum.splits option.splits)
qed

section \<open>Properties\<close>

text \<open>
  C13: Adding a tag, adding a digest and deleting a reference, whether they succeed or fail, keep
  the index by image identifier the exact inverse of the repositories: the references listed for
  an identifier are those stored with it, sorted by name.
\<close>

theorem reference_index_invariant:
  assumes "rs_inv st" "repos_ok st" "wf_ref ref"
    and "op1 = rs_AddTag R ref i force \<or> op1 = rs_AddDigest R ref i force \<and> isCanonical ref \<or>
         op1 = bindM (rs_Delete R ref) (\<lambda>_. ret ())"
    and "op1 st = (res, st')"
  shows "rs_inv st' \<and> repos_ok st' \<and> FamiliarString ` set (rs_References j st') = {s. \<exists>n. stored st' n s = Some j} \<and>
     sorted (map Named_String (rs_References j st'))"
proof -
  have inv: "rs_inv st' \<and> repos_ok st'"
    using assms(4)
  proof (elim disjE)
    assume "op1 = rs_AddTag R ref i force"
    then show ?thesis using assms addReference_inv [OF assms(1) TagNameOnly_wf(1) TagNameOnly_wf(2)]
      by (auto simp: rs_AddTag_def raise_def split: if_splits)
  next
    assume "op1 = rs_AddDigest R ref i force \<and> isCanonical ref"
    then show ?thesis using assms(2,5) addReference_inv [OF assms(1,3)] by (auto simp: rs_AddDigest_def)
  next
    assume o: "op1 = bindM (rs_Delete R ref) (\<lambda>_. ret ())"
    obtain r1 s1 where d: "rs_Delete R ref st = (r1, s1)" by fastforce
    then have "st' = s1" using o assms(5) by (cases r1) (simp_all add: bindM_def ret_def)
    then show ?thesis using Delete_inv [OF assms(1,3) d] assms(2) by simp
  qed
  then have "rs_inv st'" by simp
  moreover have "FamiliarString ` set (rs_References j st') = {s. cached st' j s \<noteq> None}"
  proof (cases "map_of (referencesByIDCache st') j")
    case None
    then show ?thesis by (simp add: rs_References_def cached_def)
  next
    case (Some m)
    have dist: "distinct (map fst m)" using \<open>rs_inv st'\<close> Some by (auto simp: rs_inv_def cache_ok_def)
    have "FamiliarString r = s" if "(s, r) \<in> set m" for s r
    proof -
      have "cached st' j s = Some r" using that Some dist by (simp add: cached_def)
      then show ?thesis using \<open>rs_inv st'\<close> unfolding rs_inv_def by blast
    qed
    then have "FamiliarString ` snd ` set m = fst ` set m" by (force simp: image_iff)
    also have "\<dots> = {s. cached st' j s \<noteq> None}" using Some by (auto simp: cached_def map_of_eq_None_iff)
    finally show ?thesis using Some by (simp add: rs_References_def)
  qed
  moreover have "sorted (map Named_String (rs_References j st'))"
    by (simp add: rs_References_def split: option.split)
  moreover have "{s. cached st' j s \<noteq> None} = {s. \<exists>n. stored st' n s = Some j}"
    using \<open>rs_inv st'\<close> unfolding rs_inv_def by blast
  ultimately show ?thesis using inv by simp
qed

text \<open>
  C26: For a caller the store is a map from references to image identifiers.  After a tag is added
  it is found with the identifier given, after a reference is deleted it is not found, and every
  reference that reads differently is found exactly as before.
\<close>

theorem reference_store_map:
  assumes "wf_ref ref" "wf_ref r" "normRef R ref = Inr x" "normRef R r = Inr y"
  shows "(rs_AddTag R ref i force st = (Ok (), st') \<longrightarrow>
            rs_Get R r st' = (if FamiliarString y = FamiliarString x then Ok i else rs_Get R r st)) \<and>
         (rs_Delete R ref st = (Ok b, st') \<longrightarrow>
            rs_Get R r st' = (if FamiliarString y = FamiliarString x then Err rs_ErrDoesNotExist else rs_Get R r st))"
proof -
  have same: "FamiliarString y = FamiliarString x \<longleftrightarrow> FamiliarName y = FamiliarName x \<and> FamiliarString y = FamiliarString x"
    using FamiliarName_unique normRef_wf assms by metis
  have get: "rs_Get R r t = (case stored t (FamiliarName y) (FamiliarString y) of None \<Rightarrow> Err rs_ErrDoesNotExist | Some i \<Rightarrow> Ok i)"
    for t :: "'a refStore" using assms(4) by (simp add: Get_stored)
  have "rs_Get R r st' = (if FamiliarString y = FamiliarString x then Ok i else rs_Get R r st)"
    if a: "rs_AddTag R ref i force st = (Ok (), st')"
  proof -
    have c: "\<not> isCanonical ref" using a by (auto simp: rs_AddTag_def raise_def split: if_splits)
    then have "favorDigest R (TagNameOnly ref) = Inr x"
      using assms(3) by (auto simp: normRef_def favorDigest_def isCanonical_def TagNameOnly_def split: option.splits)
    moreover have "addReference R (TagNameOnly ref) i force st = (Ok (), st')" using a c by (simp add: rs_AddTag_def)
    ultimately have "stored st' n s = (if n = FamiliarName x \<and> s = FamiliarString x then Some i else stored st n s)" for n s
      using addReference_get by blast
    then show ?thesis using same unfolding get by auto
  qed
  moreover have "rs_Get R r st' = (if FamiliarString y = FamiliarString x then Err rs_ErrDoesNotExist else rs_Get R r st)"
    if "rs_Delete R ref st = (Ok b, st')"
    using that
  proof (cases rule: Delete_cases)
    case (deleted z i w)
    then have "z = x" using assms(3) by simp
    then have "stored st' n s = (if n = FamiliarName x \<and> s = FamiliarString x then None else stored st n s)" for n s
      using deleted(3) by (simp add: stored_drop)
    then show ?thesis using same unfolding get by auto
  qed simp
  ultimately show ?thesis by blast
qed

text \<open>A store over one file, which keeps the repositories it was given, and a small grammar of names.\<close>

fun demo_parse :: "string \<Rightarrow> go_error + Named" where
  "demo_parse s =
     (case SplitN2 (CHR '':'') s of
        (a, Some t) \<Rightarrow> Inr \<lparr>nDomain = ''docker.io'', nPath = ''library/'' @ a, nTag = Some t, nDigest = None\<rparr>
      | (a, None) \<Rightarrow> Inl (Errorf ''no tag''))"

definition demo_refs :: "unit refEnv" where
  "demo_refs =
     \<lparr>validDigest = (\<lambda>_. True), ParseNormalizedNamed = demo_parse, rsMarshal = (\<lambda>_. Inr ''{}''), rsUnmarshal = (\<lambda>_. Inr []),
      AtomicWriteFile = (\<lambda>p b w. (None, w)), rsOpen = (\<lambda>p w. (Inr ''{}'', w)), rsAbs = Inr, rsIsNotExist = (\<lambda>_. False)\<rparr>"

definition demo_ref :: "string \<Rightarrow> Named" where
  "demo_ref n = \<lparr>nDomain = ''docker.io'', nPath = ''library/'' @ n, nTag = None, nDigest = None\<rparr>"

definition demo_refstore :: "unit refStore" where
  "demo_refstore = \<lparr>jsonPath = ''/repositories.json'', Repositories = [], referencesByIDCache = [], rsWorld = ()\<rparr>"

lemma demo_refstore_inv: "rs_inv demo_refstore"
  by (simp add: rs_inv_def cache_ok_def cached_def stored_def repositoryOf_def demo_refstore_def)

lemma demo_refstore_ok: "repos_ok demo_refstore"
  by (simp add: repos_ok_def demo_refstore_def)

lemma demo_ref_wf: "wf_ref (demo_ref ''busybox'')"
  by (simp add: wf_ref_def demo_ref_def FamiliarName_def familiarizeName_def repo_Name_def)

theorem reference_index_invariant_witness:
  "\<exists>st'. rs_AddTag demo_refs (demo_ref ''busybox'') ''sha256:1'' False demo_refstore = (Ok (), st') \<and>
     FamiliarString ` set (rs_References ''sha256:1'' st') = {s. \<exists>n. stored st' n s = Some ''sha256:1''}"
proof -
  have "fst (rs_AddTag demo_refs (demo_ref ''busybox'') ''sha256:1'' False demo_refstore) = Ok ()" by code_simp
  then obtain st' where st': "rs_AddTag demo_refs (demo_ref ''busybox'') ''sha256:1'' False demo_refstore = (Ok (), st')"
    by (metis prod.collapse)
  then show ?thesis using reference_index_invariant [OF demo_refstore_inv demo_refstore_ok demo_ref_wf disjI1 [OF refl] st'] by blast
qed

theorem reference_store_map_witness:
  "\<exists>st'. rs_AddTag demo_refs (demo_ref ''busybox'') ''sha256:1'' False demo_refstore = (Ok (), st') \<and>
     rs_Get demo_refs (demo_ref ''busybox'') st' = Ok ''sha256:1''"
proof -
  have "fst (rs_AddTag demo_refs (demo_ref ''busybox'') ''sha256:1'' False demo_refstore) = Ok ()" by code_simp
  then obtain st' where st': "rs_AddTag demo_refs (demo_ref ''busybox'') ''sha256:1'' False demo_refstore = (Ok (), st')"
    by (metis prod.collapse)
  have n: "normRef demo_refs (demo_ref ''busybox'') = Inr (TagNameOnly (demo_ref ''busybox''))"
    by (simp add: normRef_def favorDigest_def demo_ref_def)
  from reference_store_map [OF demo_ref_wf demo_ref_wf n n, of "''sha256:1''" False demo_refstore st'] st' show ?thesis by auto
qed

section \<open>Saving and loading\<close>

text \<open>
  What loading relies on: a file that was written is read back, marshalled repositories are read
  back, and the texts that are stored, which are those of references the parser gave, parse to
  references with that text.
\<close>

definition file_law :: "'w refEnv \<Rightarrow> bool" where
  "file_law R \<longleftrightarrow> (\<forall>p b w w'. AtomicWriteFile R p b w = (None, w') \<longrightarrow> fst (rsOpen R p w') = Inr b)"

definition json_law :: "'w refEnv \<Rightarrow> bool" where
  "json_law R \<longleftrightarrow> (\<forall>x b. rsMarshal R x = Inr b \<longrightarrow> rsUnmarshal R b = Inr x)"

definition parseable :: "'w refEnv \<Rightarrow> 'w refStore \<Rightarrow> bool" where
  "parseable R st \<longleftrightarrow> (\<forall>n s i. stored st n s = Some i \<longrightarrow> (\<exists>r. ParseNormalizedNamed R s = Inr r \<and> FamiliarString r = s))"

lemma reload_repository_Repositories [simp]: "Repositories (reload_repository R xs st) = Repositories st"
  by (induction R xs st rule: reload_repository.induct) (simp_all split: sum.split)

lemma reload_repositories_Repositories [simp]: "Repositories (reload_repositories R xs st) = Repositories st"
  by (induction R xs st rule: reload_repositories.induct) simp_all

lemma reload_repository_cache_ok: "cache_ok st \<Longrightarrow> cache_ok (reload_repository R xs st)"
  by (induction R xs st rule: reload_repository.induct) (auto simp: cache_ok_encache split: sum.split)

lemma reload_repositories_cache_ok: "cache_ok st \<Longrightarrow> cache_ok (reload_repositories R xs st)"
  by (induction R xs st rule: reload_repositories.induct) (auto simp: reload_repository_cache_ok)

definition good_cache :: "'w refStore \<Rightarrow> bool" where
  "good_cache st \<longleftrightarrow> (\<forall>i s r. cached st i s = Some r \<longrightarrow> FamiliarString r = s)"

lemma reload_repository_cached:
  assumes "\<forall>(s, i) \<in> set xs. \<exists>r. ParseNormalizedNamed R s = Inr r \<and> FamiliarString r = s" "good_cache st"
  shows "good_cache (reload_repository R xs st) \<and>
     (\<forall>i s. cached (reload_repository R xs st) i s \<noteq> None \<longleftrightarrow> (s, i) \<in> set xs \<or> cached st i s \<noteq> None)"
  using assms
proof (induction xs arbitrary: st)
  case (Cons x xs)
  obtain s i where x: "x = (s, i)" by fastforce
  obtain r where r: "ParseNormalizedNamed R s = Inr r" "FamiliarString r = s" using Cons.prems(1) x by auto
  have g: "good_cache (encache i s r st)" using Cons.prems(2) r(2) by (auto simp: good_cache_def cached_encache)
  have e: "reload_repository R (x # xs) st = reload_repository R xs (encache i s r st)" using x r by simp
  have p: "\<forall>(s, i) \<in> set xs. \<exists>r. ParseNormalizedNamed R s = Inr r \<and> FamiliarString r = s" using Cons.prems(1) by simp
  show ?case using Cons.IH [OF p g] x unfolding e cached_encache by auto
qed simp

lemma reload_repositories_cached:
  assumes "\<forall>(n, repo) \<in> set xs. \<forall>(s, i) \<in> set repo. \<exists>r. ParseNormalizedNamed R s = Inr r \<and> FamiliarString r = s" "good_cache st"
  shows "good_cache (reload_repositories R xs st) \<and>
     (\<forall>i s. cached (reload_repositories R xs st) i s \<noteq> None \<longleftrightarrow>
        (\<exists>(n, repo) \<in> set xs. (s, i) \<in> set repo) \<or> cached st i s \<noteq> None)"
  using assms
proof (induction xs arbitrary: st)
  case (Cons x xs)
  obtain n repo where x: "x = (n, repo)" by fastforce
  have p: "\<forall>(s, i) \<in> set repo. \<exists>r. ParseNormalizedNamed R s = Inr r \<and> FamiliarString r = s"
    "\<forall>(n, repo) \<in> set xs. \<forall>(s, i) \<in> set repo. \<exists>r. ParseNormalizedNamed R s = Inr r \<and> FamiliarString r = s"
    using Cons.prems(1) x by auto
  have one: "good_cache (reload_repository R repo st)"
    "\<And>i s. cached (reload_repository R repo st) i s \<noteq> None \<longleftrightarrow> (s, i) \<in> set repo \<or> cached st i s \<noteq> None"
    using reload_repository_cached [OF p(1) Cons.prems(2)] by auto
  show ?case using Cons.IH [OF p(2) one(1)] one(2) x by auto
qed simp

lemma stored_set:
  assumes "repos_ok st"
  shows "(\<exists>(n, repo) \<in> set (Repositories st). (s, i) \<in> set repo) \<longleftrightarrow> (\<exists>n. stored st n s = Some i)"
proof
  assume "\<exists>(n, repo) \<in> set (Repositories st). (s, i) \<in> set repo"
  then obtain n repo where r: "(n, repo) \<in> set (Repositories st)" "(s, i) \<in> set repo" by blast
  then have "map_of (Repositories st) n = Some repo" "map_of repo s = Some i" using assms by (auto simp: repos_ok_def)
  then have "stored st n s = Some i" by (simp add: stored_def repositoryOf_def)
  then show "\<exists>n. stored st n s = Some i" by blast
next
  assume "\<exists>n. stored st n s = Some i"
  then obtain n where "map_of (repositoryOf n st) s = Some i" by (auto simp: stored_def)
  then show "\<exists>(n, repo) \<in> set (Repositories st). (s, i) \<in> set repo"
    by (auto simp: repositoryOf_def split: option.splits dest!: map_of_SomeD)
qed

text \<open>
  C27: A store that is saved and loaded again, by another process, has the same repositories, gives
  every reference the same identifier, and has its index rebuilt exactly.
\<close>

theorem reload_restores:
  assumes "rs_inv st" "repos_ok st" "file_law R" "json_law R" "parseable R st" "rs_save R st = (Ok (), st1)"
  shows "\<exists>st2. rs_reload R \<lparr>jsonPath = jsonPath st, Repositories = [], referencesByIDCache = [], rsWorld = rsWorld st1\<rparr> = (Ok (), st2) \<and>
     Repositories st2 = Repositories st \<and> rs_Get R r st2 = rs_Get R r st \<and> rs_inv st2"
proof -
  obtain b w1 where b: "rsMarshal R (Repositories st) = Inr b" "AtomicWriteFile R (jsonPath st) b (rsWorld st) = (None, w1)" "rsWorld st1 = w1"
    using assms(6) by (auto simp: rs_save_def split: sum.splits prod.splits option.splits)
  obtain w2 where o: "rsOpen R (jsonPath st) w1 = (Inr b, w2)"
    using assms(3) b(2) unfolding file_law_def by (metis prod.collapse)
  have u: "rsUnmarshal R b = Inr (Repositories st)" using assms(4) b(1) by (simp add: json_law_def)
  let ?st0 = "\<lparr>jsonPath = jsonPath st, Repositories = Repositories st, referencesByIDCache = [], rsWorld = w2\<rparr>"
  let ?st2 = "reload_repositories R (Repositories st) ?st0"
  have run: "rs_reload R \<lparr>jsonPath = jsonPath st, Repositories = [], referencesByIDCache = [], rsWorld = rsWorld st1\<rparr> = (Ok (), ?st2)"
    using o u b(3) by (simp add: rs_reload_def)
  have st: "stored ?st2 = stored st" by (simp add: stored_def repositoryOf_def fun_eq_iff)
  have "\<exists>r. ParseNormalizedNamed R s = Inr r \<and> FamiliarString r = s" if "(n, repo) \<in> set (Repositories st)" "(s, i) \<in> set repo" for n repo s i
  proof -
    have "\<exists>(n, repo) \<in> set (Repositories st). (s, i) \<in> set repo" using that by (rule_tac bexI [of _ "(n, repo)"]) simp_all
    then obtain m where "stored st m s = Some i" unfolding stored_set [OF assms(2)] by (rule exE)
    then show ?thesis using assms(5) unfolding parseable_def by iprover
  qed
  then have p: "\<forall>(n, repo) \<in> set (Repositories st). \<forall>(s, i) \<in> set repo. \<exists>r. ParseNormalizedNamed R s = Inr r \<and> FamiliarString r = s"
    by blast
  have g: "good_cache ?st0" by (simp add: good_cache_def cached_def)
  have c0: "cached ?st0 i s = None" for i s by (simp add: cached_def)
  have "good_cache ?st2" "\<And>i s. cached ?st2 i s \<noteq> None \<longleftrightarrow> (\<exists>n. stored st n s = Some i)"
    using reload_repositories_cached [OF p g] c0 unfolding stored_set [OF assms(2)] by auto
  moreover have "cache_ok ?st2" by (rule reload_repositories_cache_ok) (simp add: cache_ok_def)
  ultimately have "rs_inv ?st2" using assms(1) unfolding rs_inv_def good_cache_def st by blast
  moreover have "rs_Get R r ?st2 = rs_Get R r st" unfolding Get_stored st by (rule refl)
  ultimately show ?thesis using run by auto
qed

definition demo_file :: "string refEnv" where
  "demo_file =
     \<lparr>validDigest = (\<lambda>_. True), ParseNormalizedNamed = demo_parse,
      rsMarshal = (\<lambda>x. if x = [(''busybox'', [(''busybox:1'', ''sha256:1'')])] then Inr ''1'' else if x = [] then Inr '''' else Inl (Errorf ''unsupported'')),
      rsUnmarshal = (\<lambda>b. if b = ''1'' then Inr [(''busybox'', [(''busybox:1'', ''sha256:1'')])] else Inr []),
      AtomicWriteFile = (\<lambda>p b w. (None, b)), rsOpen = (\<lambda>p w. (Inr w, w)), rsAbs = Inr, rsIsNotExist = (\<lambda>_. False)\<rparr>"

definition demo_named :: "string refStore" where
  "demo_named =
     \<lparr>jsonPath = ''/r'', Repositories = [(''busybox'', [(''busybox:1'', ''sha256:1'')])],
      referencesByIDCache = [(''sha256:1'', [(''busybox:1'', (demo_ref ''busybox'')\<lparr>nTag := Some ''1''\<rparr>)])], rsWorld = ''''\<rparr>"

lemma demo_named_stored: "stored demo_named n s = (if n = ''busybox'' \<and> s = ''busybox:1'' then Some ''sha256:1'' else None)"
  by (simp add: demo_named_def stored_def repositoryOf_def)

lemma demo_named_ref:
  "FamiliarName ((demo_ref ''busybox'')\<lparr>nTag := Some ''1''\<rparr>) = ''busybox''"
  "FamiliarString ((demo_ref ''busybox'')\<lparr>nTag := Some ''1''\<rparr>) = ''busybox:1''"
  by code_simp+

lemma demo_named_inv: "rs_inv demo_named"
proof -
  let ?r = "(demo_ref ''busybox'')\<lparr>nTag := Some ''1''\<rparr>"
  have "cached demo_named i s = (if i = ''sha256:1'' \<and> s = ''busybox:1'' then Some ?r else None)" for i s
    by (simp add: demo_named_def cached_def)
  moreover have "cache_ok demo_named" by (simp add: demo_named_def cache_ok_def)
  moreover have "single ?r" "wf_ref ?r"
    unfolding wf_ref_def demo_named_ref by (simp_all add: single_def isTagged_def isCanonical_def demo_ref_def)
  ultimately show ?thesis unfolding rs_inv_def demo_named_stored using demo_named_ref by auto
qed

lemma demo_file_laws: "file_law demo_file" "json_law demo_file" "parseable demo_file demo_named" "repos_ok demo_named"
proof -
  have "\<exists>r. demo_parse ''busybox:1'' = Inr r \<and> FamiliarString r = ''busybox:1''"
    by (rule exI [of _ "(demo_ref ''busybox'')\<lparr>nTag := Some ''1''\<rparr>"], rule conjI) code_simp+
  then show "parseable demo_file demo_named"
    unfolding parseable_def demo_named_stored by (simp add: demo_file_def del: demo_parse.simps)
qed (auto simp: file_law_def json_law_def repos_ok_def demo_file_def demo_named_def split: if_splits)

theorem reload_restores_witness:
  "\<exists>st2. rs_reload demo_file \<lparr>jsonPath = ''/r'', Repositories = [], referencesByIDCache = [], rsWorld = ''1''\<rparr> = (Ok (), st2) \<and>
     rs_inv st2 \<and> Repositories st2 = [(''busybox'', [(''busybox:1'', ''sha256:1'')])]"
proof -
  have "rs_save demo_file demo_named = (Ok (), demo_named\<lparr>rsWorld := ''1''\<rparr>)"
    by (simp add: rs_save_def demo_file_def demo_named_def)
  from reload_restores [OF demo_named_inv demo_file_laws(4,1,2,3) this] show ?thesis
    by (auto simp: demo_named_def)
qed

end
