(* ===== verification/Spec2Isabelle.thy ===== *)
theory Spec2Isabelle
  imports Image_Commit Overlay2_Layers Overlay_Contents Container_Events Errdefs Reference_Store
begin

text \<open>
  A verification library for the container engine.
\<close>

end
